(* ===== verification/Prelude.thy ===== *)
theory Prelude
  imports Main "HOL-Library.Word" "HOL-Library.Sublist"
begin

text \<open>
  Shared vocabulary of the development: the machine integers, results, byte strings and time of
  the Rust sources, the loops with an early return (\<open>try_each\<close>, \<open>try_fold\<close>), and the lemmas on
  them that the component theories use.

  \<^item> A Rust \<open>Result<T, E>\<close> is a sum \<open>'e + 'a\<close>, \<open>Inl\<close> the error; \<open>and_then\<close> is the \<open>?\<close> operator.
  \<^item> A Rust \<open>String\<close> or \<open>&str\<close> is the list of its UTF-8 bytes, \<open>Vec<u8>\<close> a list of 8-bit words.
  \<^item> An unsigned integer of width w is a \<open>w word\<close>. A \<open>NonZero\<close> integer is the same word; that it
    is not zero is part of the well-formedness predicates that need it.
  \<^item> An \<open>Instant\<close> or a \<open>Duration\<close> is a natural number of nanoseconds.
\<close>

named_theorems result_simps \<open>evaluation of results and of the loops with an early return\<close>
named_theorems string_simps \<open>evaluation of byte string operations\<close>

section \<open>Machine integers\<close>

type_synonym u8 = "8 word"
type_synonym u16 = "16 word"
type_synonym u32 = "32 word"
type_synonym u64 = "64 word"
type_synonym u128 = "128 word"
type_synonym bytes = "u8 list"

text \<open>The saturating operations of Rust's unsigned integers.\<close>

definition saturating_add :: "'a::len word \<Rightarrow> 'a word \<Rightarrow> 'a word" where
  "saturating_add a b = (if unat a + unat b < 2 ^ LENGTH('a) then a + b else - 1)"

definition saturating_sub :: "'a::len word \<Rightarrow> 'a word \<Rightarrow> 'a word" where
  "saturating_sub a b = (if b \<le> a then a - b else 0)"

definition saturating_mul :: "'a::len word \<Rightarrow> 'a word \<Rightarrow> 'a word" where
  "saturating_mul a b = (if unat a * unat b < 2 ^ LENGTH('a) then a * b else - 1)"

definition saturating_pow :: "'a::len word \<Rightarrow> nat \<Rightarrow> 'a word" where
  "saturating_pow a n = (if unat a ^ n < 2 ^ LENGTH('a) then a ^ n else - 1)"

lemma unat_max_word: "unat (- 1 :: 'a::len word) = 2 ^ LENGTH('a) - 1"
  by (simp add: unsigned_minus_1_eq_mask mask_eq_exp_minus_1)

lemma unat_less_exp: "unat (a :: 'a::len word) < 2 ^ LENGTH('a)"
  by (rule unsigned_less)

lemma unat_le_max: "unat (a :: 'a::len word) \<le> 2 ^ LENGTH('a) - 1"
  using unat_less_exp [of a] by linarith

lemma unat_power: "unat (a ^ n :: 'a::len word) = unat a ^ n mod 2 ^ LENGTH('a)"
  by (induction n) (auto simp: unat_word_ariths mod_mult_right_eq)

lemma unat_saturating_add:
  "unat (saturating_add a b :: 'a::len word) = min (unat a + unat b) (2 ^ LENGTH('a) - 1)"
  by (auto simp: saturating_add_def unat_max_word unat_word_ariths)

lemma unat_saturating_sub: "unat (saturating_sub a b) = unat a - unat b"
  by (auto simp: saturating_sub_def unat_sub word_le_nat_alt)

lemma unat_saturating_mul:
  "unat (saturating_mul a b :: 'a::len word) = min (unat a * unat b) (2 ^ LENGTH('a) - 1)"
  by (auto simp: saturating_mul_def unat_max_word unat_word_ariths)

lemma unat_saturating_pow:
  "unat (saturating_pow a n :: 'a::len word) = min (unat a ^ n) (2 ^ LENGTH('a) - 1)"
  by (auto simp: saturating_pow_def unat_max_word unat_power)

lemma unat_min: "unat (min a b) = min (unat a) (unat b)"
  by (simp add: min_def word_le_nat_alt)

lemma saturating_add_mono: "a \<le> saturating_add a b"
  using unat_le_max [of a] by (simp add: word_le_nat_alt unat_saturating_add del: One_nat_def)

text \<open>Adding one wraps only at the greatest word.\<close>

lemma word_less_succ: "(a :: 'a::len word) < a + 1 \<longleftrightarrow> a \<noteq> - 1"
proof (cases "a = - 1")
  case False
  then have "unat a \<noteq> 2 ^ LENGTH('a) - 1" using unat_max_word [where 'a = 'a] word_unat_eq_iff by metis
  with unat_less_exp [of a] have "unat a + 1 < 2 ^ LENGTH('a)" by linarith
  then have "unat (a + 1) = unat a + 1" by (simp add: unat_word_ariths)
  with False show ?thesis by (simp add: word_less_nat_alt)
qed simp

section \<open>Results\<close>

fun and_then :: "'e + 'a \<Rightarrow> ('a \<Rightarrow> 'e + 'b) \<Rightarrow> 'e + 'b" where
  "and_then (Inl e) k = Inl e"
| "and_then (Inr a) k = k a"

fun map_err :: "('e \<Rightarrow> 'f) \<Rightarrow> 'e + 'a \<Rightarrow> 'f + 'a" where
  "map_err f (Inl e) = Inl (f e)"
| "map_err f (Inr a) = Inr a"

fun ok_or :: "'a option \<Rightarrow> 'e \<Rightarrow> 'e + 'a" where
  "ok_or None e = Inl e"
| "ok_or (Some a) e = Inr a"

fun is_ok :: "'e + 'a \<Rightarrow> bool" where
  "is_ok (Inl e) = False"
| "is_ok (Inr a) = True"

text \<open>\<open>fail_if b e\<close> is \<open>if b { return Err(e) }\<close>.\<close>

definition fail_if :: "bool \<Rightarrow> 'e \<Rightarrow> 'e + unit" where
  "fail_if b e = (if b then Inl e else Inr ())"

text \<open>
  A loop over a collection whose body may return an error: the first error ends it.
  \<open>try_fold\<close> carries the variables the loop updates.
\<close>

fun try_each :: "('a \<Rightarrow> 'e + unit) \<Rightarrow> 'a list \<Rightarrow> 'e + unit" where
  "try_each f [] = Inr ()"
| "try_each f (x # xs) = and_then (f x) (\<lambda>_. try_each f xs)"

fun try_fold :: "('s \<Rightarrow> 'a \<Rightarrow> 'e + 's) \<Rightarrow> 's \<Rightarrow> 'a list \<Rightarrow> 'e + 's" where
  "try_fold f s [] = Inr s"
| "try_fold f s (x # xs) = and_then (f s x) (\<lambda>s'. try_fold f s' xs)"

text \<open>A loop that pushes one result for each element; with its index, over \<open>enumerate\<close>.\<close>

fun try_map :: "('a \<Rightarrow> 'e + 'b) \<Rightarrow> 'a list \<Rightarrow> 'e + 'b list" where
  "try_map f [] = Inr []"
| "try_map f (x # xs) = and_then (f x) (\<lambda>y. and_then (try_map f xs) (\<lambda>ys. Inr (y # ys)))"

text \<open>
  The same loop when its body also changes a state that outlives an error, such as a cache.
\<close>

fun try_fold_st ::
  "('s \<Rightarrow> 'c \<Rightarrow> 'a \<Rightarrow> ('e + 's) \<times> 'c) \<Rightarrow> 's \<Rightarrow> 'c \<Rightarrow> 'a list \<Rightarrow> ('e + 's) \<times> 'c" where
  "try_fold_st f s c [] = (Inr s, c)"
| "try_fold_st f s c (x # xs) =
     (case f s c x of (Inl e, c') \<Rightarrow> (Inl e, c') | (Inr s', c') \<Rightarrow> try_fold_st f s' c' xs)"

lemma and_then_eq_Inr [result_simps]:
  "and_then r k = Inr b \<longleftrightarrow> (\<exists>a. r = Inr a \<and> k a = Inr b)"
  by (cases r) auto

lemma and_then_eq_Inl:
  "and_then r k = Inl e \<longleftrightarrow> r = Inl e \<or> (\<exists>a. r = Inr a \<and> k a = Inl e)"
  by (cases r) auto

lemma map_err_eq_Inr [result_simps]: "map_err f r = Inr a \<longleftrightarrow> r = Inr a"
  by (cases r) auto

lemma ok_or_eq_Inr [result_simps]: "ok_or m e = Inr a \<longleftrightarrow> m = Some a"
  by (cases m) auto

lemma fail_if_eq_Inr [result_simps]: "fail_if b e = Inr u \<longleftrightarrow> \<not> b"
  by (simp add: fail_if_def)

lemma fail_if_eq_Inl: "fail_if b e = Inl e' \<longleftrightarrow> b \<and> e' = e"
  by (auto simp: fail_if_def)

lemma is_ok_iff: "is_ok r \<longleftrightarrow> (\<exists>a. r = Inr a)"
  by (cases r) auto

lemma try_each_eq_Inr [result_simps]:
  "try_each f xs = Inr u \<longleftrightarrow> (\<forall>x\<in>set xs. f x = Inr ())"
  by (induction xs) (auto simp: result_simps)

lemma try_map_eq_Inr [result_simps]:
  "try_map f xs = Inr ys \<longleftrightarrow> list_all2 (\<lambda>x y. f x = Inr y) xs ys"
  by (induction xs arbitrary: ys) (auto simp: result_simps list_all2_Cons1)

lemma try_map_elem:
  assumes "try_map f xs = Inr ys" "y \<in> set ys"
  shows "\<exists>x. x \<in> set xs \<and> f x = Inr y"
  using assms by (induction xs arbitrary: ys) (auto simp: and_then_eq_Inr, blast+)

lemma try_map_enumerate_elem:
  assumes "try_map (\<lambda>(i, x). f i x) (List.enumerate n xs) = Inr ys" "y \<in> set ys"
  shows "\<exists>i x. x \<in> set xs \<and> f i x = Inr y"
  using assms by (induction xs arbitrary: n ys) (auto simp: and_then_eq_Inr, blast+)

text \<open>Converting and converting back element by element.\<close>

lemma try_map_roundtrip:
  "try_map f (map g ys) = Inr ys \<longleftrightarrow> (\<forall>y\<in>set ys. f (g y) = Inr y)"
  by (induction ys) (auto simp: result_simps list_all2_map1 list_all2_same)

lemma try_map_enumerate_roundtrip:
  assumes "\<And>i y. f i (g y) = Inr y \<longleftrightarrow> Q y"
  shows "try_map (\<lambda>(i, x). f i x) (List.enumerate n (map g ys)) = Inr ys \<longleftrightarrow> (\<forall>y\<in>set ys. Q y)"
  by (induction ys arbitrary: n) (auto simp: assms and_then_eq_Inr)

text \<open>A loop that fails reports the first element in order whose check fails.\<close>

lemma try_each_append:
  "try_each f (xs @ ys) = and_then (try_each f xs) (\<lambda>_. try_each f ys)"
proof (induction xs)
  case (Cons x xs)
  then show ?case by (cases "f x") auto
qed simp

lemma try_each_first_error:
  "try_each f xs = Inl e \<Longrightarrow>
     \<exists>ys x zs. xs = ys @ x # zs \<and> (\<forall>y\<in>set ys. f y = Inr ()) \<and> f x = Inl e"
proof (induction xs)
  case (Cons a xs)
  show ?case
  proof (cases "f a")
    case (Inl e')
    with Cons.prems have "a # xs = [] @ a # xs" "f a = Inl e" by auto
    then show ?thesis by fastforce
  next
    case (Inr u)
    with Cons obtain ys x zs where "xs = ys @ x # zs" "\<forall>y\<in>set ys. f y = Inr ()" "f x = Inl e"
      by auto
    with Inr have "a # xs = (a # ys) @ x # zs \<and> (\<forall>y\<in>set (a # ys). f y = Inr ()) \<and> f x = Inl e"
      by simp
    then show ?thesis by blast
  qed
qed simp

lemma try_fold_append:
  "try_fold f s (xs @ ys) = and_then (try_fold f s xs) (\<lambda>s'. try_fold f s' ys)"
proof (induction xs arbitrary: s)
  case (Cons x xs)
  then show ?case by (cases "f s x") auto
qed simp

text \<open>
  When the verdict of the body does not depend on the states that satisfy an invariant, and the
  body keeps the invariant, the loop with a state gives the verdict of the loop without one.
\<close>

lemma try_fold_st_pure:
  assumes "\<And>s c x. I c \<Longrightarrow> x \<in> set xs \<Longrightarrow> fst (f s c x) = g s x \<and> I (snd (f s c x))" and "I c"
  shows "fst (try_fold_st f s c xs) = try_fold g s xs \<and> I (snd (try_fold_st f s c xs))"
  using assms
proof (induction xs arbitrary: s c)
  case (Cons x xs)
  obtain r c' where f: "f s c x = (r, c')" by (cases "f s c x")
  from Cons.prems(1) [of c x s] Cons.prems(2) have "g s x = r" "I c'" by (simp_all add: f)
  with Cons f show ?case by (cases r) auto
qed simp

text \<open>
  The idiom \<open>if !seen.insert(key) { return Err }\<close>: the loop succeeds exactly when the keys are
  distinct and none was seen before.
\<close>

fun try_distinct :: "('a \<Rightarrow> 'k) \<Rightarrow> ('a \<Rightarrow> 'e) \<Rightarrow> 'k set \<Rightarrow> 'a list \<Rightarrow> 'e + 'k set" where
  "try_distinct key err seen [] = Inr seen"
| "try_distinct key err seen (x # xs) =
     (if key x \<in> seen then Inl (err x)
      else try_distinct key err (insert (key x) seen) xs)"

lemma try_distinct_eq_Inr [result_simps]:
  "try_distinct key err seen xs = Inr s \<longleftrightarrow>
     distinct (map key xs) \<and> key ` set xs \<inter> seen = {} \<and> s = seen \<union> key ` set xs"
  by (induction xs arbitrary: seen) auto

text \<open>
  More generally the body of the loop may check its element too, and the keys seen so far may be a
  view of the state of the loop (\<open>mem\<close>). Every loop of this kind in the sources is an
  interpretation of this locale.
\<close>

locale seen_loop =
  fixes step :: "'s \<Rightarrow> 'a \<Rightarrow> 'e + 's"
    and key :: "'a \<Rightarrow> 'k"
    and ok :: "'a \<Rightarrow> bool"
    and mem :: "'s \<Rightarrow> 'k set"
  assumes step_Inr: "step s x = Inr s' \<Longrightarrow> key x \<notin> mem s \<and> ok x \<and> mem s' = insert (key x) (mem s)"
    and step_ok: "key x \<notin> mem s \<Longrightarrow> ok x \<Longrightarrow> \<exists>s'. step s x = Inr s'"
begin

lemma loop_Inr:
  "try_fold step s xs = Inr s' \<Longrightarrow>
     distinct (map key xs) \<and> key ` set xs \<inter> mem s = {} \<and> (\<forall>x\<in>set xs. ok x)
     \<and> mem s' = mem s \<union> key ` set xs"
proof (induction xs arbitrary: s)
  case (Cons x xs)
  then obtain t where "step s x = Inr t" "try_fold step t xs = Inr s'"
    by (auto simp: result_simps)
  with Cons.IH [of t] step_Inr [of s x t] show ?case by auto
qed simp

lemma loop_ok:
  "distinct (map key xs) \<Longrightarrow> key ` set xs \<inter> mem s = {} \<Longrightarrow> \<forall>x\<in>set xs. ok x \<Longrightarrow>
     \<exists>s'. try_fold step s xs = Inr s'"
proof (induction xs arbitrary: s)
  case (Cons x xs)
  from Cons.prems have "key x \<notin> mem s" "ok x" by simp_all
  then obtain t where t: "step s x = Inr t" using step_ok by blast
  with step_Inr have "mem t = insert (key x) (mem s)" by blast
  with Cons.prems have "\<exists>s'. try_fold step t xs = Inr s'" by (intro Cons.IH) auto
  with t show ?case by simp
qed simp

lemma loop_iff:
  "(\<exists>s'. try_fold step s xs = Inr s') \<longleftrightarrow>
     distinct (map key xs) \<and> key ` set xs \<inter> mem s = {} \<and> (\<forall>x\<in>set xs. ok x)"
proof
  assume "\<exists>s'. try_fold step s xs = Inr s'"
  then obtain s' where "try_fold step s xs = Inr s'" ..
  from loop_Inr [OF this] show "distinct (map key xs) \<and> key ` set xs \<inter> mem s = {} \<and> (\<forall>x\<in>set xs. ok x)"
    by simp
qed (simp add: loop_ok)

end

subsection \<open>Results with a state\<close>

text \<open>
  Code that may fail and changes a state that outlives the error, such as the file system, is a
  function from the state to a result and the next state. \<open>st_bind\<close> is the \<open>?\<close> operator of such
  code, \<open>st_try\<close> runs it and keeps its result as a value (a \<open>match\<close> on it, or \<open>.ok()\<close>).
\<close>

type_synonym ('s, 'e, 'a) st = "'s \<Rightarrow> ('e + 'a) \<times> 's"

definition st_ok :: "'a \<Rightarrow> ('s, 'e, 'a) st" where
  "st_ok a s = (Inr a, s)"

definition st_err :: "'e \<Rightarrow> ('s, 'e, 'a) st" where
  "st_err e s = (Inl e, s)"

definition st_bind :: "('s, 'e, 'a) st \<Rightarrow> ('a \<Rightarrow> ('s, 'e, 'b) st) \<Rightarrow> ('s, 'e, 'b) st" where
  "st_bind m k s = (case m s of (Inl e, s') \<Rightarrow> (Inl e, s') | (Inr a, s') \<Rightarrow> k a s')"

definition st_try :: "('s, 'e, 'a) st \<Rightarrow> ('s, 'f, 'e + 'a) st" where
  "st_try m s = (case m s of (r, s') \<Rightarrow> (Inr r, s'))"

definition st_result :: "'e + 'a \<Rightarrow> ('s, 'e, 'a) st" where
  "st_result r s = (r, s)"

definition st_map_err :: "('e \<Rightarrow> 'f) \<Rightarrow> ('s, 'e, 'a) st \<Rightarrow> ('s, 'f, 'a) st" where
  "st_map_err f m s = (case m s of (r, s') \<Rightarrow> (map_err f r, s'))"

lemmas st_defs = st_ok_def st_err_def st_bind_def st_try_def st_result_def st_map_err_def

text \<open>An invariant of the state that a piece of code keeps, whatever its result.\<close>

definition st_keeps :: "('s \<Rightarrow> bool) \<Rightarrow> ('s, 'e, 'a) st \<Rightarrow> bool" where
  "st_keeps P m \<longleftrightarrow> (\<forall>s. P s \<longrightarrow> P (snd (m s)))"

named_theorems keeps \<open>code that keeps an invariant of the state\<close>

lemma st_keepsD: "st_keeps P m \<Longrightarrow> P s \<Longrightarrow> m s = (r, s') \<Longrightarrow> P s'"
  by (auto simp: st_keeps_def)

lemma st_keeps_basic [keeps]:
  "st_keeps P (st_ok a)" "st_keeps P (st_err e)" "st_keeps P (st_result r)"
  by (simp_all add: st_keeps_def st_ok_def st_err_def st_result_def)

lemma st_keeps_bind [keeps]: "st_keeps P m \<Longrightarrow> (\<And>a. st_keeps P (k a)) \<Longrightarrow> st_keeps P (st_bind m k)"
  by (auto simp: st_keeps_def st_bind_def split: prod.splits sum.splits)

lemma st_keeps_try [keeps]: "st_keeps P m \<Longrightarrow> st_keeps P (st_try m)"
  by (auto simp: st_keeps_def st_try_def split: prod.splits)

lemma st_keeps_map_err [keeps]: "st_keeps P m \<Longrightarrow> st_keeps P (st_map_err f m)"
  by (auto simp: st_keeps_def st_map_err_def split: prod.splits)

lemma st_keeps_if [keeps]: "st_keeps P m \<Longrightarrow> st_keeps P m' \<Longrightarrow> st_keeps P (if b then m else m')"
  by simp

lemma st_keeps_sum [keeps]:
  "(\<And>e. st_keeps P (f e)) \<Longrightarrow> (\<And>a. st_keeps P (g a)) \<Longrightarrow> st_keeps P (case r of Inl e \<Rightarrow> f e | Inr a \<Rightarrow> g a)"
  by (cases r) auto

lemma st_keeps_option [keeps]:
  "st_keeps P m \<Longrightarrow> (\<And>a. st_keeps P (k a)) \<Longrightarrow> st_keeps P (case x of None \<Rightarrow> m | Some a \<Rightarrow> k a)"
  by (cases x) auto

text \<open>When the rest of the code keeps the invariant only for the values the first part can return.\<close>

lemma st_bind_keepsD:
  assumes "st_bind m k s = (r, s')" "P s" "st_keeps P m" "\<And>a s1. m s = (Inr a, s1) \<Longrightarrow> st_keeps P (k a)"
  shows "P s'"
proof (cases "m s")
  case (Pair x s1)
  then have "P s1" by (rule st_keepsD [OF assms(3,2)])
  with Pair assms(1,4) show ?thesis
    by (cases x) (auto simp: st_bind_def intro: st_keepsD)
qed

lemma st_bind_eq:
  "st_bind m k s = (r, s'') \<longleftrightarrow>
     (\<exists>e. m s = (Inl e, s'') \<and> r = Inl e) \<or> (\<exists>a s'. m s = (Inr a, s') \<and> k a s' = (r, s''))"
  by (auto simp: st_bind_def split: prod.splits sum.splits)

text \<open>The successful runs of a piece of code.\<close>

named_theorems st_success \<open>the successful runs of code with a state\<close>

lemma st_bind_eq_Inr [st_success]:
  "st_bind m k s = (Inr b, s'') \<longleftrightarrow> (\<exists>a s'. m s = (Inr a, s') \<and> k a s' = (Inr b, s''))"
  by (auto simp: st_bind_def split: prod.splits sum.splits)

lemma st_map_err_eq_Inr [st_success]: "st_map_err f m s = (Inr a, s') \<longleftrightarrow> m s = (Inr a, s')"
  by (auto simp: st_map_err_def map_err_eq_Inr split: prod.splits)

lemma st_basic_eq_Inr [st_success]:
  "st_result r s = (Inr a, s') \<longleftrightarrow> r = Inr a \<and> s' = s"
  "st_ok a' s = (Inr a, s') \<longleftrightarrow> a = a' \<and> s' = s"
  "st_err e s \<noteq> (Inr a, s')"
  by (auto simp: st_defs)

section \<open>Options\<close>

text \<open>\<open>Option::or\<close>, and the first success in a list of attempts.\<close>

definition or_else :: "'a option \<Rightarrow> 'a option \<Rightarrow> 'a option" where
  "or_else a b = (case a of None \<Rightarrow> b | Some x \<Rightarrow> Some x)"

definition first_some :: "'a option list \<Rightarrow> 'a option" where
  "first_some xs = foldr or_else xs None"

lemma or_else_simps [simp]: "or_else None b = b" "or_else (Some x) b = Some x" "or_else a None = a"
  by (simp_all add: or_else_def split: option.splits)

lemma or_else_assoc: "or_else (or_else a b) c = or_else a (or_else b c)"
  by (simp add: or_else_def split: option.splits)

lemma or_else_eq_None [simp]: "or_else a b = None \<longleftrightarrow> a = None \<and> b = None"
  by (simp add: or_else_def split: option.splits)

lemma first_some_simps [simp]: "first_some [] = None" "first_some (x # xs) = or_else x (first_some xs)"
  by (simp_all add: first_some_def)

lemma first_some_append: "first_some (xs @ ys) = or_else (first_some xs) (first_some ys)"
  by (induction xs) (simp_all add: or_else_assoc)

lemma find_append: "find P (xs @ ys) = or_else (find P xs) (find P ys)"
  by (induction xs) auto

section \<open>Byte strings\<close>

text \<open>
  \<open>starts_with s p\<close>, \<open>ends_with s p\<close>, \<open>strip_prefix s p\<close>, \<open>strip_suffix s p\<close> and
  \<open>split_once s p\<close> are the methods of \<open>str\<close> with the receiver first. On UTF-8 they act bytewise.
\<close>

abbreviation starts_with :: "'a list \<Rightarrow> 'a list \<Rightarrow> bool" where
  "starts_with s p \<equiv> prefix p s"

abbreviation ends_with :: "'a list \<Rightarrow> 'a list \<Rightarrow> bool" where
  "ends_with s p \<equiv> suffix p s"

fun strip_prefix :: "'a list \<Rightarrow> 'a list \<Rightarrow> 'a list option" where
  "strip_prefix s [] = Some s"
| "strip_prefix [] (p # ps) = None"
| "strip_prefix (c # cs) (p # ps) = (if c = p then strip_prefix cs ps else None)"

definition strip_suffix :: "'a list \<Rightarrow> 'a list \<Rightarrow> 'a list option" where
  "strip_suffix s p = map_option rev (strip_prefix (rev s) (rev p))"

fun split_once :: "'a list \<Rightarrow> 'a list \<Rightarrow> ('a list \<times> 'a list) option" where
  "split_once [] p = (if p = [] then Some ([], []) else None)"
| "split_once (c # cs) p =
     (case strip_prefix (c # cs) p of
        Some rest \<Rightarrow> Some ([], rest)
      | None \<Rightarrow> map_option (\<lambda>(a, b). (c # a, b)) (split_once cs p))"

lemma strip_prefix_eq_Some [string_simps]: "strip_prefix s p = Some r \<longleftrightarrow> s = p @ r"
  by (induction s p rule: strip_prefix.induct) auto

lemma strip_prefix_eq_None [string_simps]: "strip_prefix s p = None \<longleftrightarrow> \<not> starts_with s p"
  by (induction s p rule: strip_prefix.induct) auto

lemma strip_prefix_append [simp]: "strip_prefix (p @ r) p = Some r"
  by (simp add: string_simps)

lemma strip_suffix_eq_Some [string_simps]: "strip_suffix s p = Some r \<longleftrightarrow> s = r @ p"
  by (auto simp: strip_suffix_def string_simps) (metis rev_append rev_rev_ident)

lemma strip_suffix_eq_None [string_simps]: "strip_suffix s p = None \<longleftrightarrow> \<not> ends_with s p"
  by (simp add: strip_suffix_def string_simps suffix_to_prefix)

lemma split_once_Some_eq: "split_once s p = Some (a, b) \<Longrightarrow> s = a @ p @ b"
  by (induction s p arbitrary: a rule: split_once.induct)
    (auto simp: string_simps split: option.splits if_splits)

text \<open>The split is at the first occurrence: the separator starts nowhere earlier.\<close>

lemma split_once_first:
  "split_once s p = Some (a, b) \<Longrightarrow> i < length a \<Longrightarrow> \<not> starts_with (drop i s) p"
proof (induction s p arbitrary: a i rule: split_once.induct)
  case (2 c cs p)
  then show ?case
    by (cases i) (auto simp: string_simps split: option.splits)
qed (auto split: if_splits)

lemma split_once_None: "split_once s [c] = None \<longleftrightarrow> c \<notin> set s"
  by (induction s) (auto split: option.splits simp: string_simps)

lemma split_once_char: "split_once s [c] = Some (a, b) \<longleftrightarrow> s = a @ c # b \<and> c \<notin> set a"
proof (induction s arbitrary: a)
  case (Cons x xs)
  show ?case
    by (cases "x = c") (auto simp: string_simps Cons.IH Cons_eq_append_conv split: option.splits)
qed auto

subsection \<open>ASCII letters and digits\<close>

definition to_ascii_lowercase_char :: "char \<Rightarrow> char" where
  "to_ascii_lowercase_char c =
     (let n = of_char c :: nat in if 65 \<le> n \<and> n \<le> 90 then char_of (n + 32) else c)"

definition to_ascii_lowercase :: "string \<Rightarrow> string" where
  "to_ascii_lowercase s = map to_ascii_lowercase_char s"

definition eq_ignore_ascii_case :: "string \<Rightarrow> string \<Rightarrow> bool" where
  "eq_ignore_ascii_case a b \<longleftrightarrow> to_ascii_lowercase a = to_ascii_lowercase b"

definition is_ascii_digit :: "char \<Rightarrow> bool" where
  "is_ascii_digit c \<longleftrightarrow> (let n = of_char c :: nat in 48 \<le> n \<and> n \<le> 57)"

definition is_ascii_hexdigit :: "char \<Rightarrow> bool" where
  "is_ascii_hexdigit c \<longleftrightarrow>
     (let n = of_char c :: nat in
        48 \<le> n \<and> n \<le> 57 \<or> 65 \<le> n \<and> n \<le> 70 \<or> 97 \<le> n \<and> n \<le> 102)"

lemma to_ascii_lowercase_char_idem [simp]:
  "to_ascii_lowercase_char (to_ascii_lowercase_char c) = to_ascii_lowercase_char c"
  by (simp add: to_ascii_lowercase_char_def Let_def)

lemma to_ascii_lowercase_idem [simp]:
  "to_ascii_lowercase (to_ascii_lowercase s) = to_ascii_lowercase s"
  by (simp add: to_ascii_lowercase_def)

lemma length_to_ascii_lowercase [simp]: "length (to_ascii_lowercase s) = length s"
  by (simp add: to_ascii_lowercase_def)

lemma eq_ignore_ascii_case_refl [simp]: "eq_ignore_ascii_case s s"
  by (simp add: eq_ignore_ascii_case_def)

subsection \<open>Hexadecimal: the format \<open>{byte:02x}\<close>\<close>

definition hex_digit :: "nat \<Rightarrow> char" where
  "hex_digit n = (if n < 10 then char_of (48 + n) else char_of (87 + n))"

definition hex_byte :: "u8 \<Rightarrow> string" where
  "hex_byte b = [hex_digit (unat b div 16), hex_digit (unat b mod 16)]"

definition to_hex :: "bytes \<Rightarrow> string" where
  "to_hex bs = concat (map hex_byte bs)"

lemma of_char_hex_digit:
  "n < 16 \<Longrightarrow> (of_char (hex_digit n) :: nat) = (if n < 10 then 48 + n else 87 + n)"
  by (simp add: hex_digit_def)

lemma hex_digit_inj: "m < 16 \<Longrightarrow> n < 16 \<Longrightarrow> hex_digit m = hex_digit n \<Longrightarrow> m = n"
  by (drule arg_cong [where f = "of_char :: char \<Rightarrow> nat"]) (auto simp: of_char_hex_digit split: if_splits)

lemma unat_u8_less: "unat (b :: u8) < 256"
  using unat_less_exp [of b] by simp

lemma hex_byte_inj: "hex_byte a = hex_byte b \<longleftrightarrow> a = b"
proof
  assume eq: "hex_byte a = hex_byte b"
  have "unat a div 16 = unat b div 16" "unat a mod 16 = unat b mod 16"
    using eq unat_u8_less [of a] unat_u8_less [of b]
    by (auto simp: hex_byte_def intro!: hex_digit_inj)
  then have "unat a = unat b" by (metis div_mult_mod_eq)
  then show "a = b" by (rule unsigned_word_eqI)
qed simp

lemma length_to_hex [simp]: "length (to_hex bs) = 2 * length bs"
  by (induction bs) (auto simp: to_hex_def hex_byte_def)

lemma to_hex_inj: "to_hex as = to_hex bs \<longleftrightarrow> as = bs"
proof
  assume "to_hex as = to_hex bs"
  then show "as = bs"
  proof (induction as arbitrary: bs)
    case Nil
    then show ?case by (cases bs) (auto simp: to_hex_def hex_byte_def)
  next
    case (Cons a as)
    then obtain b bs' where bs: "bs = b # bs'"
      by (cases bs) (auto simp: to_hex_def hex_byte_def)
    with Cons.prems have "hex_byte a = hex_byte b" "to_hex as = to_hex bs'"
      by (auto simp: to_hex_def hex_byte_def)
    with Cons.IH bs show ?case by (simp add: hex_byte_inj)
  qed
qed simp

lemma to_hex_hexdigits: "c \<in> set (to_hex bs) \<Longrightarrow> is_ascii_hexdigit c"
proof -
  have "is_ascii_hexdigit (hex_digit n)" if "n < 16" for n
    using that by (auto simp: is_ascii_hexdigit_def Let_def of_char_hex_digit)
  moreover have "unat b div 16 < 16" "unat b mod 16 < 16" for b :: u8
    using unat_u8_less [of b] by auto
  ultimately show "c \<in> set (to_hex bs) \<Longrightarrow> is_ascii_hexdigit c"
    by (auto simp: to_hex_def hex_byte_def)
qed

lemma to_hex_lowercase: "to_ascii_lowercase (to_hex bs) = to_hex bs"
proof -
  have "to_ascii_lowercase_char (hex_digit n) = hex_digit n" if "n < 16" for n
    using that by (auto simp: to_ascii_lowercase_char_def Let_def of_char_hex_digit)
  moreover have "unat b div 16 < 16" "unat b mod 16 < 16" for b :: u8
    using unat_u8_less [of b] by auto
  ultimately show ?thesis
    by (induction bs) (auto simp: to_hex_def hex_byte_def to_ascii_lowercase_def)
qed

section \<open>Decimal numbers\<close>

text \<open>The format \<open>{}\<close> of an unsigned integer, and \<open>str::parse\<close> of one of width w.\<close>

fun to_dec :: "nat \<Rightarrow> string" where
  "to_dec n = (if n < 10 then [char_of (48 + n)] else to_dec (n div 10) @ [char_of (48 + n mod 10)])"

declare to_dec.simps [simp del]

definition digit_value :: "char \<Rightarrow> nat" where
  "digit_value c = of_char c - 48"

definition dec_value :: "string \<Rightarrow> nat" where
  "dec_value s = foldl (\<lambda>acc c. acc * 10 + digit_value c) 0 s"

definition parse_unsigned :: "nat \<Rightarrow> string \<Rightarrow> nat option" where
  "parse_unsigned w s =
     (let digits = (case s of c # cs \<Rightarrow> if c = CHR ''+'' then cs else s | [] \<Rightarrow> [])
      in if digits \<noteq> [] \<and> list_all is_ascii_digit digits \<and> dec_value digits < 2 ^ w
         then Some (dec_value digits) else None)"

lemma of_char_dec: "n < 10 \<Longrightarrow> (of_char (char_of (48 + n) :: char) :: nat) = 48 + n"
  by simp

lemma dec_value_snoc: "dec_value (s @ [c]) = dec_value s * 10 + digit_value c"
  by (simp add: dec_value_def)

lemma to_dec_digits: "list_all is_ascii_digit (to_dec n) \<and> to_dec n \<noteq> [] \<and> dec_value (to_dec n) = n"
proof (induction n rule: to_dec.induct)
  case (1 n)
  have "is_ascii_digit (char_of (48 + k)) \<and> digit_value (char_of (48 + k)) = k" if "k < 10" for k
    using that by (simp add: is_ascii_digit_def digit_value_def Let_def)
  from this [of n] this [of "n mod 10"] 1 show ?case
    by (subst to_dec.simps, subst (2) to_dec.simps, subst (3) to_dec.simps)
      (auto simp: dec_value_snoc, simp_all add: dec_value_def)
qed

lemma parse_to_dec: "n < 2 ^ w \<Longrightarrow> parse_unsigned w (to_dec n) = Some n"
proof -
  assume "n < 2 ^ w"
  moreover have "hd (to_dec n) \<noteq> CHR ''+''"
    using to_dec_digits [of n] by (cases "to_dec n") (auto simp: is_ascii_digit_def)
  ultimately show ?thesis
    using to_dec_digits [of n] by (cases "to_dec n") (auto simp: parse_unsigned_def Let_def)
qed

lemma to_dec_inj: "to_dec m = to_dec n \<longleftrightarrow> m = n"
  using to_dec_digits by metis

lemma dec_value_append: "dec_value (s @ t) = dec_value s * 10 ^ length t + dec_value t"
proof (induction t rule: rev_induct)
  case (snoc c t)
  then show ?case
    by (simp add: dec_value_snoc algebra_simps flip: append_assoc)
qed (simp add: dec_value_def)

lemma dec_value_zeros: "dec_value (replicate n (CHR ''0'')) = 0"
  by (induction n) (simp_all add: dec_value_def digit_value_def)

lemma dec_value_less: "list_all is_ascii_digit s \<Longrightarrow> dec_value s < 10 ^ length s"
proof (induction s rule: rev_induct)
  case (snoc c s)
  then have "digit_value c < 10" by (auto simp: is_ascii_digit_def digit_value_def Let_def)
  with snoc show ?case by (simp add: dec_value_snoc)
qed (simp add: dec_value_def)

lemma dec_value_inj:
  "list_all is_ascii_digit s \<Longrightarrow> list_all is_ascii_digit t \<Longrightarrow> length s = length t \<Longrightarrow>
     dec_value s = dec_value t \<Longrightarrow> s = t"
proof (induction s arbitrary: t rule: rev_induct)
  case (snoc c s)
  then obtain t' d where t: "t = t' @ [d]" by (metis length_append_singleton length_Suc_conv_rev)
  with snoc.prems have dig: "digit_value c < 10" "digit_value d < 10"
    by (auto simp: is_ascii_digit_def digit_value_def Let_def)
  with snoc.prems t have eq: "dec_value s = dec_value t'" "digit_value c = digit_value d"
    by (auto simp: dec_value_snoc) presburger+
  have "48 \<le> (of_char c :: nat)" "48 \<le> (of_char d :: nat)"
    using snoc.prems t by (auto simp: is_ascii_digit_def Let_def)
  with eq(2) have "of_char c = (of_char d :: nat)" unfolding digit_value_def by linarith
  then have "c = d" by (simp add: of_char_eq_iff)
  moreover have "s = t'" using snoc t eq by simp
  ultimately show ?case by (simp add: t)
qed simp

lemma length_to_dec_le: "k > 0 \<Longrightarrow> n < 10 ^ k \<Longrightarrow> length (to_dec n) \<le> k"
proof (induction k arbitrary: n)
  case (Suc k)
  show ?case
  proof (cases "n < 10")
    case False
    with Suc.prems have "n div 10 < 10 ^ k" "k > 0" by (auto intro: gr0I)
    with Suc.IH False show ?thesis by (subst to_dec.simps) simp
  qed (subst to_dec.simps, simp)
qed simp

text \<open>Decimal texts between separators that are no digits determine the numbers.\<close>

lemma to_dec_sep_inj:
  assumes "to_dec m @ c # xs = to_dec n @ c # ys" "\<not> is_ascii_digit c"
  shows "m = n \<and> xs = ys"
proof -
  have "c \<notin> set (to_dec m)" "c \<notin> set (to_dec n)"
    using to_dec_digits assms(2) by (auto simp: list_all_iff)
  then have "split_once (to_dec m @ c # xs) [c] = Some (to_dec m, xs)" "split_once (to_dec n @ c # ys) [c] = Some (to_dec n, ys)"
    by (simp_all add: split_once_char)
  then have "(to_dec m, xs) = (to_dec n, ys)" unfolding assms(1) by (simp only: option.inject)
  then show ?thesis using to_dec_inj by blast
qed

section \<open>Time\<close>

type_synonym instant = nat
type_synonym duration = nat

definition from_millis :: "nat \<Rightarrow> duration" where
  "from_millis ms = ms * 1000000"

definition from_secs :: "nat \<Rightarrow> duration" where
  "from_secs s = s * 1000000000"

definition as_millis :: "duration \<Rightarrow> nat" where
  "as_millis d = d div 1000000"

text \<open>\<open>Duration::MAX\<close> is \<open>u64::MAX\<close> seconds and 999,999,999 nanoseconds.\<close>

definition duration_max :: duration where
  "duration_max = 2 ^ 64 * 1000000000 - 1"

definition duration_saturating_mul :: "duration \<Rightarrow> nat \<Rightarrow> duration" where
  "duration_saturating_mul d n = min (d * n) duration_max"

lemma as_millis_from_millis [simp]: "as_millis (from_millis n) = n"
  by (simp add: as_millis_def from_millis_def)

lemma from_millis_mono [simp]: "from_millis a \<le> from_millis b \<longleftrightarrow> a \<le> b"
  by (simp add: from_millis_def)

lemma from_millis_less [simp]: "from_millis a < from_millis b \<longleftrightarrow> a < b"
  by (simp add: from_millis_def)

end
