(* ===== verification/Agent_Fsm.thy ===== *)
theory Agent_Fsm
  imports Prelude
begin

text \<open>
  The configuration agent's state machine, \<^verbatim>\<open>crates/pavis/src/agent/fsm.rs\<close>: the context it keeps
  between events, the transition function \<open>tick\<close> with every arm of the source's match, the
  backoff delay with its jitter, and \<open>drain_effects\<close>. A tick draws at most one random number
  (\<open>rand::random::<u128>()\<close> in \<open>backoff_delay\<close>), which the model takes as an argument.
\<close>

section \<open>State\<close>

definition WAIT_MS :: u64 where
  "WAIT_MS = 30000"

definition REJECT_TTL :: duration where
  "REJECT_TTL = from_secs (10 * 60)"

definition BACKOFF_BASE :: duration where
  "BACKOFF_BASE = from_millis 250"

definition BACKOFF_CAP :: duration where
  "BACKOFF_CAP = from_millis 5000"

definition BACKOFF_JITTER_PCT :: nat where
  "BACKOFF_JITTER_PCT = 10"

text \<open>The source's \<open>Context\<close>.\<close>

record fsm_context =
  last_applied_etag :: "string option"
  last_rejected_etag :: "string option"
  last_rejected_until :: "instant option"
  backoff_attempt :: u32
  observed_version :: "u64 option"
  force_unconditional_count :: u32

record verifying_data =
  vd_etag :: string
  vd_version :: "u64 option"
  vd_size :: "u64 option"
  vd_bytes :: bytes

record verified_update =
  vu_etag :: string
  vu_version :: "u64 option"
  vu_size :: "u64 option"
  vu_tmp_path :: string

datatype fsm_state =
    Idle
  | Fetching
  | Verifying verifying_data
  | Applying verified_update
  | BackoffSleeping
  | Stopped

datatype response =
    NewArtifact string "u64 option" "u64 option" bytes
  | NoUpdate
  | NeedResync
  | TransientUnavailable

datatype event =
    Start instant
  | Response response instant
  | VerifyOk verified_update instant
  | VerifyFail string instant
  | ApplyOk string "u64 option" instant
  | ApplyFail string instant
  | TimerFired instant
  | Shutdown

datatype effect =
    FetchConditional u64 string
  | FetchUnconditional u64
  | Verify string "u64 option" "u64 option" bytes
  | Apply verified_update
  | ScheduleTimer duration
  | DiscardTemp string

record fsm =
  state :: fsm_state
  ctx :: fsm_context

section \<open>Operations on the context\<close>

definition context_new :: fsm_context where
  "context_new = \<lparr>last_applied_etag = None, last_rejected_etag = None, last_rejected_until = None,
     backoff_attempt = 0, observed_version = None, force_unconditional_count = 0\<rparr>"

definition clear_rejected_if_expired :: "fsm_context \<Rightarrow> instant \<Rightarrow> fsm_context" where
  "clear_rejected_if_expired c now =
     (case last_rejected_until c of
        Some until \<Rightarrow>
          if until \<le> now then c\<lparr>last_rejected_etag := None, last_rejected_until := None\<rparr> else c
      | None \<Rightarrow> c)"

definition conditional_etag :: "fsm_context \<Rightarrow> instant \<Rightarrow> fsm_context \<times> string option" where
  "conditional_etag c0 now =
     (let c = clear_rejected_if_expired c0 now in
      if 0 < force_unconditional_count c then
        (c\<lparr>force_unconditional_count := saturating_sub (force_unconditional_count c) 1\<rparr>, None)
      else
        (c, case last_rejected_etag c of Some etag \<Rightarrow> Some etag | None \<Rightarrow> last_applied_etag c))"

definition set_rejected :: "fsm_context \<Rightarrow> string \<Rightarrow> instant \<Rightarrow> fsm_context" where
  "set_rejected c etag now =
     c\<lparr>last_rejected_etag := Some etag, last_rejected_until := Some (now + REJECT_TTL)\<rparr>"

definition clear_conditional_state :: "fsm_context \<Rightarrow> fsm_context" where
  "clear_conditional_state c =
     c\<lparr>last_applied_etag := None, last_rejected_etag := None, last_rejected_until := None,
       force_unconditional_count := 2\<rparr>"

section \<open>Backoff\<close>

text \<open>
  \<open>rnd\<close> is the value of \<open>rand::random::<u128>()\<close>. The shift amount is at most 10, so
  \<open>checked_shl\<close> never fails.
\<close>

definition backoff_capped :: "u32 \<Rightarrow> duration" where
  "backoff_capped attempt =
     (let factor = push_bit (unat (min attempt 10)) (1 :: u32);
          exp = duration_saturating_mul BACKOFF_BASE (unat factor)
      in if BACKOFF_CAP < exp then BACKOFF_CAP else exp)"

definition backoff_delay :: "u128 \<Rightarrow> u32 \<Rightarrow> duration" where
  "backoff_delay rnd attempt =
     (let capped = backoff_capped attempt;
          jitter_range = as_millis capped * BACKOFF_JITTER_PCT div 100
      in if jitter_range = 0 then capped
         else
           let offset = unat rnd mod (2 * jitter_range + 1);
               signed = int offset - int jitter_range
           in if 0 \<le> signed then capped + from_millis (nat signed)
              else capped - from_millis (nat (- signed)))"

section \<open>The transition function\<close>

definition fsm_new :: fsm where
  "fsm_new = \<lparr>state = Idle, ctx = context_new\<rparr>"

definition new_with_lkg_path :: "string \<Rightarrow> fsm" where
  "new_with_lkg_path local_lkg_path = \<lparr>state = Idle, ctx = context_new\<rparr>"

text \<open>The fetch that several arms end with: conditional when \<open>conditional_etag\<close> returns an etag.\<close>

definition push_fetch :: "fsm_context \<Rightarrow> instant \<Rightarrow> fsm_context \<times> effect" where
  "push_fetch c now =
     (case conditional_etag c now of
        (c', Some etag) \<Rightarrow> (c', FetchConditional WAIT_MS etag)
      | (c', None) \<Rightarrow> (c', FetchUnconditional WAIT_MS))"

definition goto_fetching :: "fsm_context \<Rightarrow> instant \<Rightarrow> effect list \<Rightarrow> fsm \<times> effect list" where
  "goto_fetching c now effects =
     (let (c', fetch) = push_fetch c now in (\<lparr>state = Fetching, ctx = c'\<rparr>, effects @ [fetch]))"

text \<open>The arm that schedules a backoff timer.\<close>

definition goto_backoff :: "u128 \<Rightarrow> fsm_context \<Rightarrow> fsm \<times> effect list" where
  "goto_backoff rnd c =
     (let delay = backoff_delay rnd (backoff_attempt c)
      in (\<lparr>state = BackoffSleeping,
           ctx = c\<lparr>backoff_attempt := saturating_add (backoff_attempt c) 1\<rparr>\<rparr>,
          [ScheduleTimer delay]))"

fun on_response :: "u128 \<Rightarrow> fsm_context \<Rightarrow> response \<Rightarrow> instant \<Rightarrow> fsm \<times> effect list" where
  "on_response rnd c (NewArtifact etag version sz bytes) now =
     (if last_rejected_etag c = Some etag
         \<and> (case last_rejected_until c of Some until \<Rightarrow> now < until | None \<Rightarrow> False)
      then goto_fetching (c\<lparr>backoff_attempt := 0\<rparr>) now []
      else
        (\<lparr>state = Verifying \<lparr>vd_etag = etag, vd_version = version, vd_size = sz, vd_bytes = bytes\<rparr>,
          ctx = c\<rparr>,
         [Verify etag version sz bytes]))"
| "on_response rnd c NoUpdate now = goto_fetching (c\<lparr>backoff_attempt := 0\<rparr>) now []"
| "on_response rnd c NeedResync now =
     (\<lparr>state = Fetching, ctx = (clear_conditional_state c)\<lparr>backoff_attempt := 0\<rparr>\<rparr>,
      [FetchUnconditional WAIT_MS])"
| "on_response rnd c TransientUnavailable now = goto_backoff rnd c"

definition tick :: "u128 \<Rightarrow> fsm \<Rightarrow> event \<Rightarrow> fsm \<times> effect list" where
  "tick rnd f e =
     (case state f of
        Idle \<Rightarrow>
          (case e of
             Start now \<Rightarrow>
               (\<lparr>state = Fetching, ctx = clear_rejected_if_expired (ctx f) now\<rparr>,
                [FetchUnconditional WAIT_MS])
           | TimerFired now \<Rightarrow> goto_fetching (clear_rejected_if_expired (ctx f) now) now []
           | Shutdown \<Rightarrow> (f\<lparr>state := Stopped\<rparr>, [])
           | _ \<Rightarrow> (f, []))
      | Stopped \<Rightarrow> (f, [])
      | Fetching \<Rightarrow>
          (case e of
             Response response now \<Rightarrow>
               on_response rnd (clear_rejected_if_expired (ctx f) now) response now
           | Shutdown \<Rightarrow> (f\<lparr>state := Stopped\<rparr>, [])
           | _ \<Rightarrow> (f, []))
      | Verifying vd \<Rightarrow>
          (case e of
             VerifyOk update now \<Rightarrow>
               (let c = clear_rejected_if_expired (ctx f) now in
                if last_applied_etag c = Some (vu_etag update)
                then goto_fetching (c\<lparr>backoff_attempt := 0\<rparr>) now [DiscardTemp (vu_tmp_path update)]
                else (\<lparr>state = Applying update, ctx = c\<rparr>, [Apply update]))
           | VerifyFail etag now \<Rightarrow> goto_backoff rnd (set_rejected (ctx f) etag now)
           | Shutdown \<Rightarrow> (f\<lparr>state := Stopped\<rparr>, [])
           | _ \<Rightarrow> (f, []))
      | Applying vu \<Rightarrow>
          (case e of
             ApplyOk etag version now \<Rightarrow>
               (let c = (if force_unconditional_count (ctx f) = 0
                         then (ctx f)\<lparr>last_applied_etag := Some etag\<rparr> else ctx f)
                in goto_fetching
                     (c\<lparr>last_rejected_etag := None, last_rejected_until := None,
                        backoff_attempt := 0, observed_version := version\<rparr>) now [])
           | ApplyFail etag now \<Rightarrow> goto_backoff rnd (set_rejected (ctx f) etag now)
           | Shutdown \<Rightarrow> (f\<lparr>state := Stopped\<rparr>, [])
           | _ \<Rightarrow> (f, []))
      | BackoffSleeping \<Rightarrow>
          (case e of
             TimerFired now \<Rightarrow> goto_fetching (clear_rejected_if_expired (ctx f) now) now []
           | Shutdown \<Rightarrow> (f\<lparr>state := Stopped\<rparr>, [])
           | _ \<Rightarrow> (f, [])))"

text \<open>\<open>drain_effects\<close> over a queue of events, each with the random number its tick draws.\<close>

fun drain_effects :: "fsm \<Rightarrow> (u128 \<times> event) list \<Rightarrow> fsm \<times> effect list" where
  "drain_effects f [] = (f, [])"
| "drain_effects f ((rnd, e) # es) =
     (let (f', effs) = tick rnd f e; (f'', rest) = drain_effects f' es in (f'', effs @ rest))"

record state_summary =
  ss_state :: string
  ss_last_applied_etag :: "string option"
  ss_last_rejected_etag :: "string option"
  ss_backoff_attempt :: u32
  ss_observed_version :: "u64 option"

definition current_state :: "fsm \<Rightarrow> state_summary" where
  "current_state f =
     \<lparr>ss_state = (case state f of Idle \<Rightarrow> ''Idle'' | Fetching \<Rightarrow> ''Fetching''
        | Verifying _ \<Rightarrow> ''Verifying'' | Applying _ \<Rightarrow> ''Applying''
        | BackoffSleeping \<Rightarrow> ''BackoffSleeping'' | Stopped \<Rightarrow> ''Stopped''),
      ss_last_applied_etag = last_applied_etag (ctx f),
      ss_last_rejected_etag = last_rejected_etag (ctx f),
      ss_backoff_attempt = backoff_attempt (ctx f),
      ss_observed_version = observed_version (ctx f)\<rparr>"

section \<open>Backoff delay\<close>

text \<open>
  The nominal delay of the protocol document: \<open>min cap (base * 2 ^ attempt)\<close> milliseconds, with
  base 250 and cap 5000.
\<close>

definition nominal_backoff_ms :: "u32 \<Rightarrow> nat" where
  "nominal_backoff_ms attempt = min 5000 (250 * 2 ^ unat attempt)"

lemma unat_two_power: "k < 32 \<Longrightarrow> unat ((2 :: u32) ^ k) = 2 ^ k"
  using power_strict_increasing [of k 32 "2::nat"] by (simp add: unat_power)

lemma backoff_capped_eq: "backoff_capped attempt = from_millis (nominal_backoff_ms attempt)"
proof -
  let ?k = "unat (min attempt 10)"
  have k: "?k = min (unat attempt) 10"
    by (auto simp: min_def word_le_nat_alt)
  have "?k \<le> 10" by (simp add: k)
  then have small: "(2::nat) ^ ?k \<le> 1024"
    using power_increasing [of ?k 10 "2::nat"] by simp
  have exp: "duration_saturating_mul BACKOFF_BASE (unat ((2 :: u32) ^ ?k))
      = from_millis (250 * 2 ^ ?k)"
    using small k
    by (simp add: push_bit_eq_mult unat_two_power duration_saturating_mul_def BACKOFF_BASE_def from_millis_def
        duration_max_def)
  have "min (5000::nat) (250 * 2 ^ ?k) = min 5000 (250 * 2 ^ unat attempt)"
  proof (cases "unat attempt \<le> 10")
    case False
    then have "(2::nat) ^ 10 \<le> 2 ^ unat attempt" by (intro power_increasing) auto
    with False k show ?thesis by simp
  qed (simp add: k)
  then show ?thesis
    by (auto simp: backoff_capped_def Let_def exp BACKOFF_CAP_def nominal_backoff_ms_def)
qed

lemma nominal_backoff_bounds:
  "250 \<le> nominal_backoff_ms attempt" "nominal_backoff_ms attempt \<le> 5000"
  by (simp_all add: nominal_backoff_ms_def min_le_iff_disj)

lemma signed_offset_ms:
  assumes "j \<le> n"
  shows "(if 0 \<le> int ofs - int j then from_millis n + from_millis (nat (int ofs - int j))
          else from_millis n - from_millis (nat (- (int ofs - int j)))) = from_millis (n - j + ofs)"
proof (cases "j \<le> ofs")
  case True
  then have "nat (int ofs - int j) = ofs - j" by simp
  with True assms show ?thesis by (simp add: from_millis_def flip: distrib_right)
next
  case False
  then have "nat (- (int ofs - int j)) = j - ofs" by simp
  with False assms show ?thesis by (simp add: from_millis_def flip: diff_mult_distrib)
qed

lemma backoff_delay_ms:
  fixes attempt :: u32
  defines "n \<equiv> nominal_backoff_ms attempt"
  shows "backoff_delay rnd attempt = from_millis (n - n div 10 + unat rnd mod (2 * (n div 10) + 1))"
proof -
  have j: "as_millis (backoff_capped attempt) * BACKOFF_JITTER_PCT div 100 = n div 10"
    by (simp add: backoff_capped_eq BACKOFF_JITTER_PCT_def n_def)
  have "n div 10 \<noteq> 0" using nominal_backoff_bounds(1) [of attempt] by (simp add: n_def)
  then have "backoff_delay rnd attempt =
      (let ofs = unat rnd mod (2 * (n div 10) + 1) in
       if 0 \<le> int ofs - int (n div 10) then from_millis n + from_millis (nat (int ofs - int (n div 10)))
       else from_millis n - from_millis (nat (- (int ofs - int (n div 10)))))"
    unfolding backoff_delay_def Let_def j by (simp add: backoff_capped_eq n_def)
  then show ?thesis
    unfolding Let_def by (subst (asm) signed_offset_ms) simp_all
qed

section \<open>Effects of a tick\<close>

fun is_fetch :: "effect \<Rightarrow> bool" where
  "is_fetch (FetchConditional w etag) = True"
| "is_fetch (FetchUnconditional w) = True"
| "is_fetch _ = False"

lemma push_fetch_is_fetch: "push_fetch c now = (c', eff) \<Longrightarrow> is_fetch eff"
  by (auto simp: push_fetch_def split: prod.splits option.splits)

lemma goto_fetching_eq:
  "goto_fetching c now effs = (f', effs') \<Longrightarrow>
     state f' = Fetching \<and> (\<exists>eff. is_fetch eff \<and> effs' = effs @ [eff])"
  by (auto simp: goto_fetching_def Let_def split: prod.splits dest: push_fetch_is_fetch)

lemma goto_backoff_eq:
  "goto_backoff rnd c = (f', effs') \<Longrightarrow>
     state f' = BackoffSleeping \<and> ctx f' = c\<lparr>backoff_attempt := saturating_add (backoff_attempt c) 1\<rparr>
     \<and> effs' = [ScheduleTimer (backoff_delay rnd (backoff_attempt c))]"
  by (auto simp: goto_backoff_def Let_def)

lemma goto_fetching_fields:
  "goto_fetching c now effs = (f', effs') \<Longrightarrow>
     last_applied_etag (ctx f') = last_applied_etag c
     \<and> observed_version (ctx f') = observed_version c
     \<and> backoff_attempt (ctx f') = backoff_attempt c"
  by (auto simp: goto_fetching_def push_fetch_def conditional_etag_def clear_rejected_if_expired_def
      Let_def split: prod.splits option.splits if_splits)

lemma clear_rejected_fields [simp]:
  "last_applied_etag (clear_rejected_if_expired c now) = last_applied_etag c"
  "backoff_attempt (clear_rejected_if_expired c now) = backoff_attempt c"
  "observed_version (clear_rejected_if_expired c now) = observed_version c"
  "force_unconditional_count (clear_rejected_if_expired c now) = force_unconditional_count c"
  by (auto simp: clear_rejected_if_expired_def split: option.splits)

lemmas tick_case_splits =
  fsm_state.splits event.splits response.splits if_splits option.splits

lemma on_response_cases:
  "on_response rnd c resp now = (f', effs) \<Longrightarrow>
     (state f' = Fetching \<and> (\<exists>eff. is_fetch eff \<and> effs = [eff]))
   \<or> (\<exists>vd. state f' = Verifying vd \<and> ctx f' = c
        \<and> effs = [Verify (vd_etag vd) (vd_version vd) (vd_size vd) (vd_bytes vd)])
   \<or> (\<exists>d. state f' = BackoffSleeping \<and> effs = [ScheduleTimer d])"
  by (cases resp) (auto dest!: goto_fetching_eq goto_backoff_eq split: if_splits)

text \<open>
  A tick either leaves the state alone (or stops) and asks for nothing, or enters a state together
  with the one effect that will bring the next event: a fetch, a verification, an application or a
  timer. Only a deduplicated update adds a second effect, the removal of its temporary file.
\<close>

lemma tick_cases:
  assumes "tick rnd f e = (f', effs)"
  shows "(effs = [] \<and> (f' = f \<or> e = Shutdown \<and> f' = f\<lparr>state := Stopped\<rparr>))
   \<or> (state f' = Fetching \<and> (\<exists>eff. is_fetch eff \<and> (effs = [eff] \<or> (\<exists>p. effs = [DiscardTemp p, eff]))))
   \<or> (\<exists>vd. state f' = Verifying vd
        \<and> effs = [Verify (vd_etag vd) (vd_version vd) (vd_size vd) (vd_bytes vd)])
   \<or> (\<exists>u. state f' = Applying u \<and> effs = [Apply u])
   \<or> (\<exists>d. state f' = BackoffSleeping \<and> effs = [ScheduleTimer d])"
  using assms unfolding tick_def Let_def
  by (auto dest!: goto_fetching_eq goto_backoff_eq on_response_cases split: tick_case_splits)

text \<open>Where an application comes from, and what a tick does to the last applied etag.\<close>

lemma tick_apply:
  assumes "tick rnd f e = (f', effs)" "Apply u \<in> set effs"
  shows "(\<exists>vd now. state f = Verifying vd \<and> e = VerifyOk u now)
    \<and> last_applied_etag (ctx f) \<noteq> Some (vu_etag u) \<and> state f' = Applying u \<and> effs = [Apply u]"
  using assms unfolding tick_def Let_def
  by (auto dest!: goto_fetching_eq goto_backoff_eq on_response_cases split: tick_case_splits)

lemma on_response_last_applied:
  "on_response rnd c resp now = (f', effs) \<Longrightarrow> resp \<noteq> NeedResync \<Longrightarrow>
     last_applied_etag (ctx f') = last_applied_etag c"
  by (cases resp) (auto dest: goto_fetching_fields goto_backoff_eq split: if_splits)

text \<open>Events that neither resynchronise nor report an application.\<close>

fun keeps_applied :: "event \<Rightarrow> bool" where
  "keeps_applied (Response NeedResync now) = False"
| "keeps_applied (ApplyOk etag version now) = False"
| "keeps_applied _ = True"

lemma keeps_applied_Response [simp]: "keeps_applied (Response resp now) \<longleftrightarrow> resp \<noteq> NeedResync"
  by (cases resp) auto

lemma tick_last_applied:
  assumes "tick rnd f e = (f', effs)" "keeps_applied e"
  shows "last_applied_etag (ctx f') = last_applied_etag (ctx f)"
  using assms unfolding tick_def Let_def
  by (auto dest: goto_fetching_fields goto_backoff_eq on_response_last_applied
      simp: set_rejected_def split: tick_case_splits)

section \<open>Invariants of runs\<close>

text \<open>
  What several contracts of the machine share: a predicate on the machine that every tick on an
  allowed event keeps, together with a bound on the effects of that tick. It then holds along every
  run, and bounds every effect of the run.
\<close>

locale run_contract =
  fixes inv :: "fsm \<Rightarrow> bool"
    and allowed :: "event \<Rightarrow> bool"
    and good :: "effect \<Rightarrow> bool"
  assumes tick_keeps: "inv f \<Longrightarrow> allowed e \<Longrightarrow> tick rnd f e = (f', effs) \<Longrightarrow> inv f'"
    and tick_good: "inv f \<Longrightarrow> allowed e \<Longrightarrow> tick rnd f e = (f', effs) \<Longrightarrow> x \<in> set effs \<Longrightarrow> good x"
begin

lemma drain_keeps:
  "inv f \<Longrightarrow> (\<And>rnd e. (rnd, e) \<in> set es \<Longrightarrow> allowed e) \<Longrightarrow> drain_effects f es = (f', effs) \<Longrightarrow>
     inv f' \<and> (\<forall>x\<in>set effs. good x)"
proof (induction es arbitrary: f f' effs)
  case Nil
  then show ?case by simp
next
  case (Cons p es)
  obtain rnd e where p: "p = (rnd, e)" by (cases p)
  obtain f1 effs1 where t: "tick rnd f e = (f1, effs1)" by (cases "tick rnd f e")
  obtain f2 effs2 where d: "drain_effects f1 es = (f2, effs2)" by (cases "drain_effects f1 es")
  have "allowed e" using Cons.prems(2) [of rnd e] by (simp add: p)
  with Cons.prems(1) t have "inv f1" "\<forall>x\<in>set effs1. good x"
    by (auto intro: tick_keeps tick_good)
  moreover have "inv f2 \<and> (\<forall>x\<in>set effs2. good x)"
    using Cons.IH [OF \<open>inv f1\<close> _ d] Cons.prems(2) by auto
  ultimately show ?case using Cons.prems(3) by (auto simp: p t d)
qed

end

text \<open>The machine that has applied an etag.\<close>

definition has_applied :: "string \<Rightarrow> fsm \<Rightarrow> bool" where
  "has_applied etag f \<longleftrightarrow> last_applied_etag (ctx f) = Some etag"

interpretation applied: run_contract "has_applied etag" keeps_applied
  "\<lambda>eff. \<forall>u. eff = Apply u \<longrightarrow> vu_etag u \<noteq> etag" for etag
proof
  fix f e rnd f' effs
  assume inv: "has_applied etag f" and ok: "keeps_applied e" and t: "tick rnd f e = (f', effs)"
  from inv ok t show "has_applied etag f'"
    by (simp add: has_applied_def tick_last_applied)
  show "\<forall>u. x = Apply u \<longrightarrow> vu_etag u \<noteq> etag" if "x \<in> set effs" for x
    using that inv tick_apply [OF t] by (auto simp: has_applied_def)
qed

text \<open>The machine that has stopped.\<close>

interpretation stopped: run_contract "\<lambda>f. f = g \<and> state g = Stopped" "\<lambda>_. True" "\<lambda>_. False" for g
  by unfold_locales (auto simp: tick_def)

text \<open>
  The machine that rejected an etag until some time, on events before that time that neither
  resynchronise, nor succeed, nor reject anything else.
\<close>

fun before :: "instant \<Rightarrow> event \<Rightarrow> bool" where
  "before t (Start now) = (now < t)"
| "before t (Response resp now) = (now < t \<and> resp \<noteq> NeedResync)"
| "before t (VerifyOk u now) = (now < t)"
| "before t (VerifyFail etag now) = False"
| "before t (ApplyOk etag version now) = False"
| "before t (ApplyFail etag now) = False"
| "before t (TimerFired now) = (now < t)"
| "before t Shutdown = True"

definition has_rejected :: "string \<Rightarrow> instant \<Rightarrow> fsm \<Rightarrow> bool" where
  "has_rejected etag t f \<longleftrightarrow>
     last_rejected_etag (ctx f) = Some etag \<and> last_rejected_until (ctx f) = Some t"

lemma goto_fetching_rejected:
  "goto_fetching c now effs = (f', effs') \<Longrightarrow> last_rejected_until c = Some t \<Longrightarrow> now < t \<Longrightarrow>
     last_rejected_etag (ctx f') = last_rejected_etag c \<and> last_rejected_until (ctx f') = Some t"
  by (auto simp: goto_fetching_def push_fetch_def conditional_etag_def clear_rejected_if_expired_def
      Let_def split: prod.splits option.splits if_splits)

lemma goto_fetching_no_verify:
  "goto_fetching c now effs = (f', effs') \<Longrightarrow> Verify a v n b \<in> set effs' \<Longrightarrow> Verify a v n b \<in> set effs"
  by (drule goto_fetching_eq) auto

lemma clear_rejected_before:
  "last_rejected_until c = Some t \<Longrightarrow> now < t \<Longrightarrow> clear_rejected_if_expired c now = c"
  by (simp add: clear_rejected_if_expired_def)

lemma on_response_rejected:
  assumes "on_response rnd c resp now = (f', effs)" "resp \<noteq> NeedResync" "now < t"
    and "last_rejected_etag c = Some etag" "last_rejected_until c = Some t"
  shows "has_rejected etag t f' \<and> (\<forall>v n b. Verify etag v n b \<notin> set effs)"
  using assms
  by (cases resp)
    (auto simp: has_rejected_def split: if_splits
      dest: goto_fetching_rejected goto_backoff_eq goto_fetching_no_verify)

interpretation rejected: run_contract "has_rejected etag t" "before t"
  "\<lambda>eff. \<forall>v n b. eff \<noteq> Verify etag v n b" for etag t
proof
  fix f e rnd f' effs
  assume inv: "has_rejected etag t f" and ok: "before t e" and tk: "tick rnd f e = (f', effs)"
  have "has_rejected etag t f' \<and> (\<forall>v n b. Verify etag v n b \<notin> set effs)"
    using inv ok tk unfolding tick_def Let_def has_rejected_def
    by (auto simp: clear_rejected_before split: tick_case_splits
        dest: goto_fetching_rejected goto_fetching_no_verify
        on_response_rejected [unfolded has_rejected_def])
  then show "has_rejected etag t f'" "x \<in> set effs \<Longrightarrow> \<forall>v n b. x \<noteq> Verify etag v n b" for x
    by auto
qed

section \<open>Properties\<close>

text \<open>
  C32: the delay before the next attempt after a failure is exponential in the number of consecutive
  failures, starting at 250 ms and capped at 5 s, with a jitter of plus or minus ten percent; every
  whole millisecond of that range, and no other delay, is drawn by some random number.
\<close>

theorem backoff_delay_range:
  "range (\<lambda>rnd. backoff_delay rnd attempt) =
     (let n = min 5000 (250 * 2 ^ unat attempt)
      in from_millis ` {n - n div 10 .. n + n div 10})"
proof -
  define n where "n = nominal_backoff_ms attempt"
  have n: "n = min 5000 (250 * 2 ^ unat attempt)"
    by (simp add: n_def nominal_backoff_ms_def)
  have "range (\<lambda>rnd :: u128. unat rnd mod (2 * (n div 10) + 1)) = {0 .. 2 * (n div 10)}"
  proof (intro equalityI subsetI)
    fix k assume "k \<in> {0 .. 2 * (n div 10)}"
    moreover have "n \<le> 5000" by (simp add: n)
    ultimately have "k < 2 ^ 128" and "k < 2 * (n div 10) + 1" by auto
    then have "k = unat (of_nat k :: u128) mod (2 * (n div 10) + 1)"
      by (simp add: unat_of_nat)
    then show "k \<in> range (\<lambda>rnd :: u128. unat rnd mod (2 * (n div 10) + 1))" by blast
  qed (auto simp: less_Suc_eq_le [symmetric])
  moreover have "range (\<lambda>rnd. backoff_delay rnd attempt) =
      (\<lambda>k. from_millis (n - n div 10 + k)) ` range (\<lambda>rnd :: u128. unat rnd mod (2 * (n div 10) + 1))"
    by (simp only: backoff_delay_ms n_def image_image)
  ultimately have "range (\<lambda>rnd. backoff_delay rnd attempt) =
      (\<lambda>k. from_millis (n - n div 10 + k)) ` {0 .. 2 * (n div 10)}"
    by simp
  also have "\<dots> = from_millis ` ((+) (n - n div 10)) ` {0 .. 2 * (n div 10)}"
    by (simp add: image_image)
  also have "((+) (n - n div 10)) ` {0 .. 2 * (n div 10)} =
      {0 + (n - n div 10) .. 2 * (n div 10) + (n - n div 10)}"
    by (rule image_add_atLeastAtMost)
  also have "2 * (n div 10) + (n - n div 10) = n + n div 10" by linarith
  finally show ?thesis by (simp add: n Let_def)
qed

text \<open>
  C2: an artifact is applied only right after its own verification succeeded, and only when its etag
  is not the one applied last; the machine is then waiting for that application and asks for
  nothing else.
\<close>

theorem apply_only_verified:
  assumes "tick rnd f e = (f', effs)" and "Apply u \<in> set effs"
  shows "(\<exists>vd now. state f = Verifying vd \<and> e = VerifyOk u now)
    \<and> last_applied_etag (ctx f) \<noteq> Some (vu_etag u) \<and> state f' = Applying u \<and> effs = [Apply u]"
  using assms by (rule tick_apply)

definition example_update :: verified_update where
  "example_update = \<lparr>vu_etag = ''sha256:aa'', vu_version = Some 7, vu_size = None,
     vu_tmp_path = ''/lkg.tmp.pvs''\<rparr>"

definition example_verifying :: fsm where
  "example_verifying = \<lparr>state = Verifying \<lparr>vd_etag = ''sha256:aa'', vd_version = Some 7,
     vd_size = None, vd_bytes = []\<rparr>, ctx = context_new\<lparr>last_applied_etag := Some ''sha256:bb''\<rparr>\<rparr>"

theorem apply_only_verified_witness:
  "snd (tick 0 example_verifying (VerifyOk example_update 5)) = [Apply example_update]
   \<and> last_applied_etag (ctx example_verifying) \<noteq> Some (vu_etag example_update)"
proof -
  obtain f' effs where t: "tick 0 example_verifying (VerifyOk example_update 5) = (f', effs)"
    by (cases "tick 0 example_verifying (VerifyOk example_update 5)")
  have "Apply example_update \<in> set effs"
    using t by (auto simp: tick_def example_verifying_def example_update_def context_new_def
        clear_rejected_if_expired_def)
  from apply_only_verified [OF t this] show ?thesis by (simp add: t)
qed

text \<open>
  C3: once an etag is recorded as applied, no run applies an artifact with that etag again until a
  resynchronisation or another application; the record stays.
\<close>

theorem no_reapply:
  assumes "last_applied_etag (ctx f) = Some etag"
    and "\<forall>(rnd, e)\<in>set es. keeps_applied e"
    and "drain_effects f es = (f', effs)"
  shows "last_applied_etag (ctx f') = Some etag \<and> (\<forall>u. Apply u \<in> set effs \<longrightarrow> vu_etag u \<noteq> etag)"
  using applied.drain_keeps [of etag f es f' effs] assms by (auto simp: has_applied_def)

theorem no_reapply_witness:
  "snd (drain_effects \<lparr>state = Fetching, ctx = context_new\<lparr>last_applied_etag := Some ''sha256:aa''\<rparr>\<rparr>
     [(0, Response (NewArtifact ''sha256:aa'' None None []) 1), (0, VerifyOk example_update 2)])
   = [Verify ''sha256:aa'' None None [], DiscardTemp ''/lkg.tmp.pvs'', FetchConditional WAIT_MS ''sha256:aa'']
   \<and> \<not> (\<exists>u. Apply u \<in> set (snd (drain_effects
        \<lparr>state = Fetching, ctx = context_new\<lparr>last_applied_etag := Some ''sha256:aa''\<rparr>\<rparr>
        [(0, Response (NewArtifact ''sha256:aa'' None None []) 1), (0, VerifyOk example_update 2)]))
      \<and> vu_etag u = ''sha256:aa'')"
proof -
  let ?f = "\<lparr>state = Fetching, ctx = context_new\<lparr>last_applied_etag := Some ''sha256:aa''\<rparr>\<rparr>"
  let ?es = "[(0, Response (NewArtifact ''sha256:aa'' None None []) 1), (0, VerifyOk example_update 2)]"
  obtain f' effs where d: "drain_effects ?f ?es = (f', effs)" by (cases "drain_effects ?f ?es")
  have "effs = [Verify ''sha256:aa'' None None [], DiscardTemp ''/lkg.tmp.pvs'',
      FetchConditional WAIT_MS ''sha256:aa'']"
    using d by (auto simp: tick_def context_new_def clear_rejected_if_expired_def example_update_def
        goto_fetching_def push_fetch_def conditional_etag_def Let_def)
  moreover have "\<forall>u. Apply u \<in> set effs \<longrightarrow> vu_etag u \<noteq> ''sha256:aa''"
    using no_reapply [OF _ _ d, of "''sha256:aa''"] by simp
  ultimately show ?thesis unfolding d by auto
qed

text \<open>
  C22: while a rejection lasts and nothing replaces it, the rejected etag is not verified again: on every run
  whose events come before the expiry and are neither a resynchronisation, nor a successful application, nor a
  failure of a verification or an application, no verification of that etag is requested and the rejection
  stays. Each of the excluded events may replace or clear the rejection; a successful application clears it
  whatever its etag.
\<close>

theorem rejected_not_retried:
  assumes "last_rejected_etag (ctx f) = Some etag" and "last_rejected_until (ctx f) = Some t"
    and "\<forall>(rnd, e)\<in>set es. before t e"
    and "drain_effects f es = (f', effs)"
  shows "last_rejected_etag (ctx f') = Some etag \<and> last_rejected_until (ctx f') = Some t
    \<and> (\<forall>v n b. Verify etag v n b \<notin> set effs)"
  using rejected.drain_keeps [of etag t f es f' effs] assms by (auto simp: has_rejected_def)

theorem rejected_not_retried_witness:
  "\<forall>v n b. Verify ''sha256:aa'' v n b \<notin> set (snd (drain_effects
     (fst (tick 0 example_verifying (VerifyFail ''sha256:aa'' 5)))
     [(0, TimerFired 6), (0, Response (NewArtifact ''sha256:aa'' None None []) 7)]))"
proof -
  let ?f = "fst (tick 0 example_verifying (VerifyFail ''sha256:aa'' 5))"
  let ?es = "[(0, TimerFired 6), (0, Response (NewArtifact ''sha256:aa'' None None []) 7)]"
  obtain f' effs where d: "drain_effects ?f ?es = (f', effs)" by (cases "drain_effects ?f ?es")
  have r: "last_rejected_etag (ctx ?f) = Some ''sha256:aa''"
    "last_rejected_until (ctx ?f) = Some (5 + REJECT_TTL)"
    by (auto simp: tick_def example_verifying_def goto_backoff_def set_rejected_def Let_def)
  have b: "\<forall>(rnd, e)\<in>set ?es. before (5 + REJECT_TTL) e"
    by (simp add: REJECT_TTL_def from_secs_def)
  from rejected_not_retried [OF r b d] show ?thesis unfolding d by simp
qed

text \<open>
  A stopped machine is final: it keeps its context and asks for nothing, whatever events follow,
  and \<open>Shutdown\<close> stops it from every state.
\<close>

theorem shutdown_is_final:
  "drain_effects f ((rnd, Shutdown) # es) = (f\<lparr>state := Stopped\<rparr>, [])"
proof -
  have t: "tick rnd f Shutdown = (f\<lparr>state := Stopped\<rparr>, [])"
    by (cases f) (auto simp: tick_def split: fsm_state.splits)
  obtain f' effs where d: "drain_effects (f\<lparr>state := Stopped\<rparr>) es = (f', effs)"
    by (cases "drain_effects (f\<lparr>state := Stopped\<rparr>) es")
  have "f' = f\<lparr>state := Stopped\<rparr> \<and> effs = []"
    using stopped.drain_keeps [of "f\<lparr>state := Stopped\<rparr>" "f\<lparr>state := Stopped\<rparr>" es f' effs] d
    by (cases effs) auto
  then show ?thesis by (simp add: t d)
qed

text \<open>One round in which the relay serves an artifact and it is verified and applied.\<close>

definition serve_round :: "verified_update \<Rightarrow> bytes \<Rightarrow> instant \<Rightarrow> (u128 \<times> event) list" where
  "serve_round u b t =
     [(0, Response (NewArtifact (vu_etag u) None None b) t), (0, VerifyOk u t),
      (0, ApplyOk (vu_etag u) None t)]"

text \<open>
  After a resynchronisation (HTTP 410) the machine fetches unconditionally three times and does
  not record what it applies in the first two rounds, so a relay that keeps serving one artifact
  has it applied three times before it is recognised as already applied, whatever was recorded
  before. The protocol document forbids applying an artifact with the same checksum twice.
\<close>

theorem resync_reapplies:
  "filter (\<lambda>x. is_fetch x \<or> x = Apply u \<or> x = DiscardTemp (vu_tmp_path u))
           (snd (drain_effects \<lparr>state = Fetching, ctx = c\<rparr>
              ((0, Response NeedResync t0) # serve_round u b t1 @ serve_round u b t2 @ serve_round u b t3 @
               [(0, Response (NewArtifact (vu_etag u) None None b) t4), (0, VerifyOk u t4)])))
         = [FetchUnconditional WAIT_MS, Apply u, FetchUnconditional WAIT_MS, Apply u,
            FetchUnconditional WAIT_MS, Apply u, FetchConditional WAIT_MS (vu_etag u),
            DiscardTemp (vu_tmp_path u), FetchConditional WAIT_MS (vu_etag u)]"
proof -
  have tick_resync: "tick 0 \<lparr>state = Fetching, ctx = d\<rparr> (Response NeedResync t) =
      (\<lparr>state = Fetching, ctx = d\<lparr>last_applied_etag := None, last_rejected_etag := None,
         last_rejected_until := None, force_unconditional_count := 2, backoff_attempt := 0\<rparr>\<rparr>,
       [FetchUnconditional WAIT_MS])" for d t
    by (auto simp: tick_def clear_conditional_state_def clear_rejected_if_expired_def
        split: option.splits)
  show ?thesis
    by (simp add: serve_round_def tick_resync)
      (simp add: tick_def Let_def goto_fetching_def push_fetch_def conditional_etag_def
        clear_rejected_if_expired_def saturating_sub_def)
qed

end
