(* ===== verification/Agent_Driver.thy ===== *)
theory Agent_Driver
  imports Agent_Fsm
begin

text \<open>
  The agent's event loop, \<open>run_loop\<close> of \<^verbatim>\<open>crates/pavis/src/agent/driver.rs\<close>, as a step relation
  around \<open>tick\<close>. A step handles the event at the head of the queue and carries out its effects, or
  is one branch of the \<open>select!\<close> the loop waits in while the queue is empty. Verification,
  application and the relay's answers are choices of the environment: every verdict and every
  response is possible at every time. What \<open>verify_update\<close> and \<open>apply_update\<close> pass on (the etag and
  the version) is as in the source.

  The \<open>select!\<close> branch of the fetch is an \<open>async\<close> block that takes the join handle out of
  \<open>pending_fetch\<close> when it is first polled. The model makes that poll a step of its own: the handle
  moves from \<open>pending_fetch\<close> to \<open>select_handle\<close>, which another branch drops when it wins, and a
  dropped handle detaches its task. \<open>in_flight\<close> counts the fetch tasks that run.
\<close>

section \<open>State\<close>

record fetch_request =
  fr_etag :: "string option"
  fr_wait_ms :: u64

record driver =
  d_fsm :: fsm
  event_queue :: "event list"
  pending_fetch :: "fetch_request option"
  select_handle :: "fetch_request option"
  pending_timer :: "duration option"
  in_flight :: nat
  loop_ended :: bool

section \<open>Effects\<close>

definition spawn_fetch :: "driver \<Rightarrow> string option \<Rightarrow> u64 \<Rightarrow> driver" where
  "spawn_fetch d etag wait_ms =
     (if pending_fetch d = None
      then d\<lparr>pending_fetch := Some \<lparr>fr_etag = etag, fr_wait_ms = wait_ms\<rparr>, in_flight := in_flight d + 1\<rparr>
      else d)"

definition push_back :: "driver \<Rightarrow> event \<Rightarrow> driver" where
  "push_back d e = d\<lparr>event_queue := event_queue d @ [e]\<rparr>"

inductive exec_effect :: "driver \<Rightarrow> effect \<Rightarrow> driver \<Rightarrow> bool" where
  fetch_conditional: "exec_effect d (FetchConditional w etag) (spawn_fetch d (Some etag) w)"
| fetch_unconditional: "exec_effect d (FetchUnconditional w) (spawn_fetch d None w)"
| verify_ok: "vu_etag u = etag \<Longrightarrow> vu_version u = v \<Longrightarrow> vu_size u = n \<Longrightarrow>
    exec_effect d (Verify etag v n b) (push_back d (VerifyOk u now))"
| verify_fail: "exec_effect d (Verify etag v n b) (push_back d (VerifyFail etag now))"
| apply_ok: "exec_effect d (Apply u) (push_back d (ApplyOk (vu_etag u) (vu_version u) now))"
| apply_fail: "exec_effect d (Apply u) (push_back d (ApplyFail (vu_etag u) now))"
| schedule_timer: "exec_effect d (ScheduleTimer dur) (d\<lparr>pending_timer := Some dur\<rparr>)"
| discard_temp: "exec_effect d (DiscardTemp p) d"

inductive_cases exec_effect_elims [elim!]:
  "exec_effect d (FetchConditional w etag) d'"
  "exec_effect d (FetchUnconditional w) d'"
  "exec_effect d (Verify etag v n b) d'"
  "exec_effect d (Apply u) d'"
  "exec_effect d (ScheduleTimer dur) d'"
  "exec_effect d (DiscardTemp p) d'"

inductive exec_effects :: "driver \<Rightarrow> effect list \<Rightarrow> driver \<Rightarrow> bool" where
  exec_nil: "exec_effects d [] d"
| exec_cons: "exec_effect d x d' \<Longrightarrow> exec_effects d' xs d'' \<Longrightarrow> exec_effects d (x # xs) d''"

inductive_simps exec_effects_simps [simp]:
  "exec_effects d [] d'"
  "exec_effects d (x # xs) d'"

section \<open>The loop\<close>

inductive driver_step :: "driver \<Rightarrow> driver \<Rightarrow> bool" where
  handle_event: "\<not> loop_ended d \<Longrightarrow> event_queue d = e # q \<Longrightarrow> tick rnd (d_fsm d) e = (f', effs) \<Longrightarrow>
    exec_effects (d\<lparr>event_queue := q, d_fsm := f'\<rparr>) effs d' \<Longrightarrow> driver_step d d'"
| poll_fetch: "\<not> loop_ended d \<Longrightarrow> event_queue d = [] \<Longrightarrow> pending_fetch d = Some h \<Longrightarrow>
    driver_step d (d\<lparr>pending_fetch := None, select_handle := Some h\<rparr>)"
| fetch_done: "\<not> loop_ended d \<Longrightarrow> event_queue d = [] \<Longrightarrow> select_handle d = Some h \<Longrightarrow>
    driver_step d (d\<lparr>select_handle := None, in_flight := in_flight d - 1,
      event_queue := [Response resp now]\<rparr>)"
| timer_fired: "\<not> loop_ended d \<Longrightarrow> event_queue d = [] \<Longrightarrow> pending_timer d = Some dur \<Longrightarrow>
    driver_step d (d\<lparr>pending_timer := None, select_handle := None, event_queue := [TimerFired now]\<rparr>)"
| shutdown: "\<not> loop_ended d \<Longrightarrow> event_queue d = [] \<Longrightarrow>
    driver_step d (d\<lparr>d_fsm := fst (tick rnd (d_fsm d) Shutdown), select_handle := None,
      in_flight := (if pending_fetch d = None then in_flight d else in_flight d - 1),
      pending_fetch := None, pending_timer := None, loop_ended := True\<rparr>)"

text \<open>
  \<open>start_service\<close> queues \<open>Start\<close> after \<open>bootstrap_from_lkg\<close>, which may have set the last applied
  etag to that of the local artifact.
\<close>

definition driver_start :: "string \<Rightarrow> string option \<Rightarrow> instant \<Rightarrow> driver" where
  "driver_start lkg_path lkg_etag now =
     \<lparr>d_fsm = \<lparr>state = state (new_with_lkg_path lkg_path),
                ctx = (ctx (new_with_lkg_path lkg_path))\<lparr>last_applied_etag := lkg_etag\<rparr>\<rparr>,
      event_queue = [Start now], pending_fetch = None, select_handle = None, pending_timer = None,
      in_flight = 0, loop_ended = False\<rparr>"

inductive reachable :: "driver \<Rightarrow> bool" where
  reach_start: "reachable (driver_start lkg_path lkg_etag now)"
| reach_step: "reachable d \<Longrightarrow> driver_step d d' \<Longrightarrow> reachable d'"

section \<open>Invariant\<close>

text \<open>The event that the machine waits for in each state.\<close>

fun expected :: "fsm_state \<Rightarrow> event \<Rightarrow> bool" where
  "expected Idle (Start now) = True"
| "expected Fetching (Response resp now) = True"
| "expected (Verifying vd) (VerifyOk u now) =
     (vu_etag u = vd_etag vd \<and> vu_version u = vd_version vd \<and> vu_size u = vd_size vd)"
| "expected (Verifying vd) (VerifyFail etag now) = (etag = vd_etag vd)"
| "expected (Applying u) (ApplyOk etag v now) = (etag = vu_etag u \<and> v = vu_version u)"
| "expected (Applying u) (ApplyFail etag now) = (etag = vu_etag u)"
| "expected BackoffSleeping (TimerFired now) = True"
| "expected _ _ = False"

definition no_fetch :: "driver \<Rightarrow> bool" where
  "no_fetch d \<longleftrightarrow> pending_fetch d = None \<and> select_handle d = None \<and> in_flight d = 0"

definition one_fetch :: "driver \<Rightarrow> bool" where
  "one_fetch d \<longleftrightarrow> (pending_fetch d = None) \<noteq> (select_handle d = None) \<and> in_flight d = 1"

definition loop_inv :: "driver \<Rightarrow> bool" where
  "loop_inv d \<longleftrightarrow>
     (case event_queue d of
        [] \<Rightarrow> state (d_fsm d) = Fetching \<and> one_fetch d \<and> pending_timer d = None
            \<or> state (d_fsm d) = BackoffSleeping \<and> no_fetch d \<and> pending_timer d \<noteq> None
      | [e] \<Rightarrow> expected (state (d_fsm d)) e \<and> no_fetch d \<and> pending_timer d = None
      | _ \<Rightarrow> False)"

lemma loop_inv_Nil: "event_queue d = [] \<Longrightarrow> loop_inv d \<longleftrightarrow>
     state (d_fsm d) = Fetching \<and> one_fetch d \<and> pending_timer d = None
   \<or> state (d_fsm d) = BackoffSleeping \<and> no_fetch d \<and> pending_timer d \<noteq> None"
  by (simp add: loop_inv_def)

lemma loop_inv_Cons: "event_queue d = e # q \<Longrightarrow> loop_inv d \<longleftrightarrow>
     q = [] \<and> expected (state (d_fsm d)) e \<and> no_fetch d \<and> pending_timer d = None"
  by (cases q) (auto simp: loop_inv_def)

lemmas loop_inv_simps = loop_inv_Nil loop_inv_Cons

lemma loop_inv_start: "loop_inv (driver_start p etag now)"
  by (simp add: loop_inv_def driver_start_def new_with_lkg_path_def no_fetch_def)

text \<open>An expected event is never ignored: it leads on to a state with its effect.\<close>

lemma tick_expected:
  assumes "tick rnd f e = (f', effs)" "expected (state f) e"
  shows "(state f' = Fetching \<and> (\<exists>eff. is_fetch eff \<and> (effs = [eff] \<or> (\<exists>p. effs = [DiscardTemp p, eff]))))
   \<or> (\<exists>vd. state f' = Verifying vd
        \<and> effs = [Verify (vd_etag vd) (vd_version vd) (vd_size vd) (vd_bytes vd)])
   \<or> (\<exists>u. state f' = Applying u \<and> effs = [Apply u])
   \<or> (\<exists>d. state f' = BackoffSleeping \<and> effs = [ScheduleTimer d])"
proof -
  have "effs \<noteq> []"
    using assms unfolding tick_def Let_def
    by (auto dest!: goto_fetching_eq goto_backoff_eq on_response_cases split: tick_case_splits)
  with tick_cases [OF assms(1)] show ?thesis by blast
qed

lemma loop_inv_handle:
  assumes "loop_inv d" "event_queue d = e # q" "tick rnd (d_fsm d) e = (f', effs)"
    and "exec_effects (d\<lparr>event_queue := q, d_fsm := f'\<rparr>) effs d'"
  shows "loop_inv d'"
proof -
  from assms(1,2) have q: "q = []" and ex: "expected (state (d_fsm d)) e"
    and nf: "no_fetch d" "pending_timer d = None"
    by (auto simp: loop_inv_def split: list.splits)
  have fetch: "loop_inv d''"
    if "is_fetch eff" "state f' = Fetching" "exec_effect (d\<lparr>event_queue := [], d_fsm := f'\<rparr>) eff d''" for eff d''
    using that nf
    by (cases eff) (auto simp: loop_inv_def spawn_fetch_def no_fetch_def one_fetch_def)
  from tick_expected [OF assms(3) ex] assms(4) show ?thesis
    unfolding q
    by (elim disjE exE conjE)
      (use nf in \<open>auto intro: fetch simp: loop_inv_simps push_back_def no_fetch_def\<close>)
qed

lemma driver_step_inv: "driver_step d d' \<Longrightarrow> loop_inv d \<Longrightarrow> loop_inv d' \<or> loop_ended d'"
proof (induction rule: driver_step.induct)
  case (handle_event d e q rnd f' effs d')
  then show ?case by (auto intro: loop_inv_handle)
qed (auto simp: loop_inv_def no_fetch_def one_fetch_def)

lemma reachable_inv: "reachable d \<Longrightarrow> loop_inv d \<or> loop_ended d"
proof (induction rule: reachable.induct)
  case (reach_step d d')
  then have "\<not> loop_ended d" by (auto elim: driver_step.cases)
  with reach_step show ?case by (auto dest: driver_step_inv)
qed (simp add: loop_inv_start)

lemma exec_effects_total: "\<exists>d'. exec_effects d effs d' \<and> loop_ended d' = loop_ended d"
proof (induction effs arbitrary: d)
  case (Cons x xs)
  have "\<exists>d1. exec_effect d x d1 \<and> loop_ended d1 = loop_ended d"
    by (cases x) (auto intro!: exI exec_effect.intros(1,2,4,5,7,8)
        simp: spawn_fetch_def push_back_def split: if_splits)
  with Cons.IH show ?case by simp metis
qed simp

section \<open>Properties\<close>

text \<open>
  C23: in every reachable state of the running loop at most one fetch is in flight, never together
  with a backoff timer, and the queue holds at most one event, which is the one the machine's state
  waits for (a verdict on the artifact being verified, the outcome of the update being applied, and
  so on). So \<open>tick\<close> never ignores an event of its own loop.
\<close>

theorem one_fetch_at_a_time:
  assumes "reachable d" and "\<not> loop_ended d"
  shows "in_flight d \<le> 1 \<and> (in_flight d = 0 \<or> pending_timer d = None) \<and>
    (event_queue d = [] \<or> (\<exists>e. event_queue d = [e] \<and> expected (state (d_fsm d)) e \<and> in_flight d = 0))"
  using reachable_inv [OF assms(1)] assms(2)
  by (cases "event_queue d") (auto simp: loop_inv_simps one_fetch_def no_fetch_def)

theorem one_fetch_at_a_time_witness:
  "in_flight (driver_start ''/lkg.pvs'' None 0) \<le> 1
   \<and> (\<exists>e. event_queue (driver_start ''/lkg.pvs'' None 0) = [e])"
  using one_fetch_at_a_time [OF reach_start [of "''/lkg.pvs''" None 0]]
  by (auto simp: driver_start_def)

text \<open>
  C24: the loop never gets stuck. In every reachable state of the running loop a step other than
  \<open>shutdown\<close> is enabled: an event to handle, a fetch to wait for or a timer that will fire.
\<close>

theorem loop_never_stuck:
  assumes "reachable d" and "\<not> loop_ended d"
  shows "\<exists>d'. driver_step d d' \<and> \<not> loop_ended d'"
proof (cases "event_queue d")
  case Nil
  from reachable_inv [OF assms(1)] assms(2) Nil consider
      h where "pending_fetch d = Some h" | h where "select_handle d = Some h"
    | t where "pending_timer d = Some t"
    by (auto simp: loop_inv_simps one_fetch_def)
  then show ?thesis
    using assms(2) Nil
    by cases (fastforce intro: driver_step.poll_fetch, fastforce intro: driver_step.fetch_done,
        fastforce intro: driver_step.timer_fired)
next
  case (Cons e q)
  obtain f' effs where t: "tick 0 (d_fsm d) e = (f', effs)" by (cases "tick 0 (d_fsm d) e")
  obtain d' where "exec_effects (d\<lparr>event_queue := q, d_fsm := f'\<rparr>) effs d'" "\<not> loop_ended d'"
    using exec_effects_total [of "d\<lparr>event_queue := q, d_fsm := f'\<rparr>" effs] assms(2) by auto
  with t Cons assms(2) show ?thesis by (blast intro: driver_step.handle_event)
qed

theorem loop_never_stuck_witness:
  "\<exists>d'. driver_step (driver_start ''/lkg.pvs'' None 0) d' \<and> \<not> loop_ended d'"
  using loop_never_stuck [OF reach_start [of "''/lkg.pvs''" None 0]] by (simp add: driver_start_def)

text \<open>
  Shutting down does not cancel the fetch the loop is waiting for. Once the \<open>select!\<close> has polled
  its fetch branch, the join handle is no longer in \<open>pending_fetch\<close>, so the shutdown branch finds
  nothing to abort: the loop ends with one fetch task still running. The state machine document
  requires that a shutdown cancels the fetch in flight.
\<close>

theorem shutdown_leaves_fetch:
  "\<exists>d d'. reachable d \<and> \<not> loop_ended d \<and> driver_step d d' \<and> loop_ended d'
     \<and> state (d_fsm d') = Stopped \<and> in_flight d' = 1"
proof -
  define c where "c = context_new"
  define d0 where "d0 = driver_start ''/lkg.pvs'' None 0"
  define d1 where "d1 = spawn_fetch (d0\<lparr>event_queue := [], d_fsm := \<lparr>state = Fetching, ctx = c\<rparr>\<rparr>) None WAIT_MS"
  define d2 where "d2 = d1\<lparr>pending_fetch := None, select_handle := pending_fetch d1\<rparr>"
  define d3 where "d3 = d2\<lparr>d_fsm := fst (tick 0 (d_fsm d2) Shutdown), select_handle := None,
      in_flight := (if pending_fetch d2 = None then in_flight d2 else in_flight d2 - 1),
      pending_fetch := None, pending_timer := None, loop_ended := True\<rparr>"
  note defs = d0_def d1_def d2_def d3_def c_def driver_start_def new_with_lkg_path_def spawn_fetch_def
    context_new_def
  have "tick 0 (d_fsm d0) (Start 0) = (\<lparr>state = Fetching, ctx = c\<rparr>, [FetchUnconditional WAIT_MS])"
    by (simp add: tick_def defs clear_rejected_if_expired_def)
  then have "driver_step d0 d1"
    by (rule driver_step.handle_event [rotated 2, where q = "[]"])
      (auto simp: d1_def intro: exec_effect.intros, simp_all add: d0_def driver_start_def)
  then have r1: "reachable d1" using reach_start [of "''/lkg.pvs''" None 0] reach_step by (simp add: d0_def)
  have "driver_step d1 d2"
    using driver_step.poll_fetch [of d1] by (simp add: defs)
  with r1 have r2: "reachable d2" by (rule reach_step)
  have s3: "driver_step d2 d3"
    unfolding d3_def by (rule driver_step.shutdown) (simp_all add: defs)
  have "loop_ended d3 \<and> state (d_fsm d3) = Stopped \<and> in_flight d3 = 1 \<and> \<not> loop_ended d2"
    by (simp add: defs tick_def)
  with r2 s3 show ?thesis by blast
qed

end
