(* ===== verification/Pvs.thy ===== *)
theory Pvs
  imports Prelude
begin

text \<open>
  The artifact format of crates/pavis-pvs: a 64-byte header (magic, version, hash algorithm,
  checksum, reserved bytes) followed by the serialized configuration. It models \<open>encode\<close> and
  \<open>write\<close> (write.rs), \<open>parse_header\<close> and \<open>read_header\<close> (read.rs), the in-memory checks
  \<open>inspect\<close> and \<open>verify\<close>, and the streaming reader behind \<open>load\<close>, \<open>read_from_path\<close> and
  \<open>verify_file\<close> (verify.rs).

  The hash and the serializer are third-party code and therefore parameters: \<open>sha256\<close>, and the three
  rkyv calls of the record \<open>rkyv\<close>. The type of configurations \<open>'c\<close> and of archived views \<open>'v\<close>
  is left open. An open file is what the operating system returns for it: the length of
  \<open>metadata()\<close>, the outcome of \<open>read_exact\<close> for the header, the length asked for again after an
  unexpected end, and the results of the successive calls of \<open>read\<close>; so a file that changes or
  fails while it is read is covered. Text of error messages made from bytes by \<open>from_utf8_lossy\<close>
  is kept as those bytes.
\<close>

section \<open>Header\<close>

type_synonym io_error = string

record PvsHeader =
  magic :: bytes
  hdr_version :: u32
  algorithm :: u32
  hdr_checksum :: bytes
  reserved :: bytes

definition PAVIS_MAGIC :: bytes where
  "PAVIS_MAGIC = [0x50, 0x41, 0x56, 0x53]"

definition PAVIS_VERSION :: u32 where
  "PAVIS_VERSION = 0"

definition PAVIS_HASH_ALGORITHM_SHA256 :: u32 where
  "PAVIS_HASH_ALGORITHM_SHA256 = 1"

definition HEADER_SIZE :: nat where
  "HEADER_SIZE = 64"

definition MAX_PAYLOAD_SIZE :: nat where
  "MAX_PAYLOAD_SIZE = 100 * 1024 * 1024"

definition header_default :: PvsHeader where
  "header_default = \<lparr>magic = PAVIS_MAGIC, hdr_version = PAVIS_VERSION,
     algorithm = PAVIS_HASH_ALGORITHM_SHA256, hdr_checksum = replicate 32 0, reserved = replicate 20 0\<rparr>"

definition checksum_hex :: "PvsHeader \<Rightarrow> string" where
  "checksum_hex h = to_hex (hdr_checksum h)"

definition algorithm_label :: "PvsHeader \<Rightarrow> string" where
  "algorithm_label h =
     (if algorithm h = PAVIS_HASH_ALGORITHM_SHA256 then ''sha256'' else to_dec (unat (algorithm h)))"

datatype PvsError =
    Io io_error
  | TooSmall nat nat
  | InvalidMagic bytes bytes
  | VersionMismatch u32 u32
  | UnsupportedAlgorithm u32
  | NonZeroReservedBytes u32
  | ChecksumMismatch string string
  | CorruptArchive string
  | Serialization string
  | InvalidExtension string
  | HeaderTooShort nat nat
  | PayloadTooLarge nat nat

text \<open>\<open>u32::to_le_bytes\<close> and \<open>u32::from_le_bytes\<close>.\<close>

definition to_le_bytes :: "u32 \<Rightarrow> bytes" where
  "to_le_bytes w = [ucast w, ucast (drop_bit 8 w), ucast (drop_bit 16 w), ucast (drop_bit 24 w)]"

definition from_le_bytes :: "bytes \<Rightarrow> u32" where
  "from_le_bytes bs = foldr (\<lambda>b acc. ucast b + 256 * acc) bs 0"

definition slice :: "bytes \<Rightarrow> nat \<Rightarrow> nat \<Rightarrow> bytes" where
  "slice bs i j = take (j - i) (drop i bs)"

definition parse_header :: "bytes \<Rightarrow> PvsError + PvsHeader" where
  "parse_header buf =
     (if length buf < HEADER_SIZE then Inl (HeaderTooShort HEADER_SIZE (length buf))
      else Inr \<lparr>magic = slice buf 0 4, hdr_version = from_le_bytes (slice buf 4 8),
                algorithm = from_le_bytes (slice buf 8 12), hdr_checksum = slice buf 12 44,
                reserved = slice buf 44 64\<rparr>)"

definition validate_header :: "PvsHeader \<Rightarrow> PvsError + unit" where
  "validate_header h =
     (if magic h \<noteq> PAVIS_MAGIC then Inl (InvalidMagic PAVIS_MAGIC (magic h))
      else if hdr_version h \<noteq> PAVIS_VERSION then Inl (VersionMismatch (hdr_version h) PAVIS_VERSION)
      else if list_ex (\<lambda>b. b \<noteq> 0) (reserved h) then Inl (NonZeroReservedBytes (hdr_version h))
      else if algorithm h \<noteq> PAVIS_HASH_ALGORITHM_SHA256 then Inl (UnsupportedAlgorithm (algorithm h))
      else Inr ())"

section \<open>Writing\<close>

record ('c, 'v) rkyv =
  rkyv_to_bytes :: "'c \<Rightarrow> string + bytes"
  rkyv_access :: "bytes \<Rightarrow> string + 'v"
  rkyv_deserialize :: "'v \<Rightarrow> string + 'c"

text \<open>The five \<open>extend_from_slice\<close> calls that put the header in front of the payload.\<close>

definition header_bytes :: "PvsHeader \<Rightarrow> bytes" where
  "header_bytes h = magic h @ to_le_bytes (hdr_version h) @ to_le_bytes (algorithm h)
     @ hdr_checksum h @ reserved h"

definition encode :: "(bytes \<Rightarrow> bytes) \<Rightarrow> ('c, 'v) rkyv \<Rightarrow> 'c \<Rightarrow> PvsError + bytes" where
  "encode sha256 rk config =
     and_then (map_err Serialization (rkyv_to_bytes rk config)) (\<lambda>rkyv_bytes.
       let h = \<lparr>magic = PAVIS_MAGIC, hdr_version = PAVIS_VERSION,
                algorithm = PAVIS_HASH_ALGORITHM_SHA256, hdr_checksum = sha256 rkyv_bytes,
                reserved = replicate 20 0\<rparr>
       in Inr (header_bytes h @ rkyv_bytes))"

text \<open>
  \<open>fs::write\<close> replaces the contents of the file, or fails with the error \<open>err\<close> of the operating
  system. The disk maps paths to contents.
\<close>

type_synonym disk = "string \<rightharpoonup> bytes"

definition fs_write :: "io_error option \<Rightarrow> disk \<Rightarrow> string \<Rightarrow> bytes \<Rightarrow> io_error + disk" where
  "fs_write err disk path bs = (case err of Some e \<Rightarrow> Inl e | None \<Rightarrow> Inr (disk(path \<mapsto> bs)))"

definition write_pvs ::
  "(bytes \<Rightarrow> bytes) \<Rightarrow> ('c, 'v) rkyv \<Rightarrow> io_error option \<Rightarrow> disk \<Rightarrow> string \<Rightarrow> 'c \<Rightarrow> PvsError + disk" where
  "write_pvs sha256 rk err disk path config =
     and_then (encode sha256 rk config) (\<lambda>final_bytes.
       map_err Io (fs_write err disk path final_bytes))"

section \<open>Verifying bytes in memory\<close>

definition verify_bytes :: "(bytes \<Rightarrow> bytes) \<Rightarrow> bytes \<Rightarrow> PvsError + (PvsHeader \<times> bytes)" where
  "verify_bytes sha256 bs =
     (if length bs < HEADER_SIZE then Inl (TooSmall HEADER_SIZE (length bs))
      else if length bs > HEADER_SIZE + MAX_PAYLOAD_SIZE
        then Inl (PayloadTooLarge MAX_PAYLOAD_SIZE (length bs - HEADER_SIZE))
      else and_then (parse_header (take HEADER_SIZE bs)) (\<lambda>h.
        and_then (validate_header h) (\<lambda>_.
          let payload = drop HEADER_SIZE bs; computed = sha256 payload in
          if computed \<noteq> hdr_checksum h
            then Inl (ChecksumMismatch (to_hex (hdr_checksum h)) (to_hex computed))
          else Inr (h, payload))))"

record VerifiedPvs =
  pvs_header :: PvsHeader
  pvs_bytes :: bytes

definition inspect :: "(bytes \<Rightarrow> bytes) \<Rightarrow> bytes \<Rightarrow> PvsError + PvsHeader" where
  "inspect sha256 bs = and_then (verify_bytes sha256 bs) (\<lambda>(h, _). Inr h)"

definition verify_owned ::
  "(bytes \<Rightarrow> bytes) \<Rightarrow> ('c, 'v) rkyv \<Rightarrow> bytes \<Rightarrow> PvsError + VerifiedPvs" where
  "verify_owned sha256 rk bs =
     and_then (verify_bytes sha256 bs) (\<lambda>(h, payload).
       and_then (map_err CorruptArchive (rkyv_access rk payload)) (\<lambda>_.
         Inr \<lparr>pvs_header = h, pvs_bytes = bs\<rparr>))"

section \<open>Reading files\<close>

datatype read_exact_result = Filled bytes | UnexpectedEof | ReadFailed io_error

record open_file =
  metadata_len :: "io_error + u64"
  header_read :: read_exact_result
  metadata_len_again :: "io_error + u64"
  reads :: "(io_error + bytes) list"

text \<open>
  A header read that ends early asks for the length of the file again and reports it.
\<close>

definition header_read_error :: "open_file \<Rightarrow> PvsError + bytes" where
  "header_read_error f =
     (case header_read f of
        Filled buf \<Rightarrow> Inr buf
      | UnexpectedEof \<Rightarrow> and_then (map_err Io (metadata_len_again f)) (\<lambda>actual.
          Inl (TooSmall HEADER_SIZE (unat actual)))
      | ReadFailed e \<Rightarrow> Inl (Io e))"

definition read_header :: "io_error + open_file \<Rightarrow> PvsError + PvsHeader" where
  "read_header opened =
     and_then (map_err Io opened) (\<lambda>f. and_then (header_read_error f) parse_header)"

text \<open>
  The loop over the payload: \<open>acc\<close> is what it has appended to \<open>bytes\<close> and given to the hasher. A
  read of no bytes ends it; a list of reads that is used up is a file at its end.
\<close>

fun read_payload :: "(io_error + bytes) list \<Rightarrow> nat \<Rightarrow> bytes \<Rightarrow> PvsError + bytes" where
  "read_payload [] payload_len acc = Inr acc"
| "read_payload (Inl e # rs) payload_len acc = Inl (Io e)"
| "read_payload (Inr chunk # rs) payload_len acc =
     (if chunk = [] then Inr acc
      else let payload_len' = min (payload_len + length chunk) (2 ^ 64 - 1) in
        if payload_len' > MAX_PAYLOAD_SIZE then Inl (PayloadTooLarge MAX_PAYLOAD_SIZE payload_len')
        else read_payload rs payload_len' (acc @ chunk))"

definition read_verified_file ::
  "(bytes \<Rightarrow> bytes) \<Rightarrow> io_error + open_file \<Rightarrow> PvsError + (PvsHeader \<times> bytes)" where
  "read_verified_file sha256 opened =
     and_then (map_err Io opened) (\<lambda>f.
     and_then (map_err Io (metadata_len f)) (\<lambda>len. let file_len = unat len in
       if file_len < HEADER_SIZE then Inl (TooSmall HEADER_SIZE file_len)
       else if file_len > HEADER_SIZE + MAX_PAYLOAD_SIZE
         then Inl (PayloadTooLarge MAX_PAYLOAD_SIZE (file_len - HEADER_SIZE))
       else and_then (header_read_error f) (\<lambda>header_buf.
         and_then (parse_header header_buf) (\<lambda>h.
         and_then (validate_header h) (\<lambda>_.
         and_then (read_payload (reads f) 0 []) (\<lambda>payload.
           let computed = sha256 payload in
           if computed \<noteq> hdr_checksum h
             then Inl (ChecksumMismatch (to_hex (hdr_checksum h)) (to_hex computed))
           else Inr (h, header_buf @ payload)))))))"

definition read_from_path ::
  "(bytes \<Rightarrow> bytes) \<Rightarrow> ('c, 'v) rkyv \<Rightarrow> io_error + open_file \<Rightarrow> PvsError + VerifiedPvs" where
  "read_from_path sha256 rk opened =
     and_then (read_verified_file sha256 opened) (\<lambda>(h, bs).
       and_then (map_err CorruptArchive (rkyv_access rk (drop HEADER_SIZE bs))) (\<lambda>_.
         Inr \<lparr>pvs_header = h, pvs_bytes = bs\<rparr>))"

definition verify_file ::
  "(bytes \<Rightarrow> bytes) \<Rightarrow> ('c, 'v) rkyv \<Rightarrow> io_error + open_file \<Rightarrow> PvsError + unit" where
  "verify_file sha256 rk opened =
     and_then (read_verified_file sha256 opened) (\<lambda>(h, bs).
       and_then (map_err CorruptArchive (rkyv_access rk (drop HEADER_SIZE bs))) (\<lambda>_. Inr ()))"

definition load ::
  "(bytes \<Rightarrow> bytes) \<Rightarrow> ('c, 'v) rkyv \<Rightarrow> io_error + open_file \<Rightarrow> PvsError + 'c" where
  "load sha256 rk opened =
     and_then (read_verified_file sha256 opened) (\<lambda>(h, bs).
       and_then (map_err CorruptArchive (rkyv_access rk (drop HEADER_SIZE bs))) (\<lambda>archived.
         map_err (\<lambda>e. CorruptArchive (''Deserialization error: '' @ e)) (rkyv_deserialize rk archived)))"

text \<open>
  A file of the disk that does not change while it is read, and whose reads return its payload
  in the pieces \<open>chunks\<close>.
\<close>

definition quiet_file :: "bytes \<Rightarrow> bytes list \<Rightarrow> open_file" where
  "quiet_file bs chunks =
     \<lparr>metadata_len = Inr (of_nat (length bs)),
      header_read = (if length bs < HEADER_SIZE then UnexpectedEof else Filled (take HEADER_SIZE bs)),
      metadata_len_again = Inr (of_nat (length bs)), reads = map Inr chunks\<rparr>"

definition open_path :: "disk \<Rightarrow> string \<Rightarrow> bytes list \<Rightarrow> io_error + open_file" where
  "open_path disk path chunks =
     (case disk path of None \<Rightarrow> Inl ''NotFound'' | Some bs \<Rightarrow> Inr (quiet_file bs chunks))"

section \<open>Little-endian words and the header\<close>

lemma length_to_le_bytes [simp]: "length (to_le_bytes w) = 4"
  by (simp add: to_le_bytes_def)

lemma unat_byte_of: "unat (ucast (drop_bit k w :: u32) :: u8) = unat w div 2 ^ k mod 256"
proof -
  have "unat (ucast (drop_bit k w) :: u8) = unat (drop_bit k w) mod 256"
    by (simp only: unsigned_ucast_eq take_bit_eq_mod) simp
  also have "unat (drop_bit k w) = unat w div 2 ^ k"
    by (simp only: unsigned_drop_bit_eq drop_bit_eq_div [where 'a = nat])
      (use unat_less_exp [of w] in \<open>simp add: take_bit_nat_eq_self\<close>)
  finally show ?thesis .
qed

lemma from_to_le_bytes [simp]: "from_le_bytes (to_le_bytes w) = w"
proof (rule iffD2 [OF word_unat_eq_iff])
  define n where "n = unat w"
  define a b c where "a = n div 256" "b = a div 256" "c = b div 256"
  note abc = this
  have "n < 2 ^ 32" using unat_less_exp [of w] by (simp add: n_def)
  moreover have "n div 65536 = b" "n div 16777216 = c"
    by (simp_all add: abc flip: div_mult2_eq)
  moreover have "n = n mod 256 + 256 * a" "a = a mod 256 + 256 * b" "b = b mod 256 + 256 * c"
    by (simp_all add: abc)
  ultimately show "unat (from_le_bytes (to_le_bytes w)) = unat w"
    using unat_byte_of [of 0 w] unat_byte_of [of 8 w] unat_byte_of [of 16 w] unat_byte_of [of 24 w]
    by (simp add: from_le_bytes_def to_le_bytes_def unat_word_ariths unsigned_ucast_eq take_bit_eq_mod
        flip: n_def abc)
qed

lemma to_from_le_bytes: "length bs = 4 \<Longrightarrow> to_le_bytes (from_le_bytes bs) = bs"
proof -
  assume "length bs = 4"
  then obtain a b c d where bs: "bs = [a, b, c, d]"
    by (auto simp: numeral_eq_Suc length_Suc_conv)
  define x y z t where "x = unat a" "y = unat b" "z = unat c" "t = unat d"
  note xs = this
  have bounds: "x < 256" "y < 256" "z < 256" "t < 256"
    using unat_u8_less by (auto simp: xs)
  then have val: "unat (from_le_bytes bs) = x + 256 * (y + 256 * (z + 256 * t))"
    by (simp add: bs from_le_bytes_def unat_word_ariths unsigned_ucast_eq take_bit_eq_mod flip: xs)
  have byte: "ucast (drop_bit k (from_le_bytes bs)) = e"
    if "unat e = (x + 256 * (y + 256 * (z + 256 * t))) div 2 ^ k mod 256" for e :: u8 and k
    using that by (intro iffD2 [OF word_unat_eq_iff]) (simp only: unat_byte_of val)
  have low: "(u + 256 * v) mod 256 = u" "(u + 256 * v) div 256 = v" if "u < 256" for u v :: nat
    using that by simp_all
  have "ucast (from_le_bytes bs) = a"
    using byte [of a 0] bounds by (simp only: power_0 div_by_1 low xs drop_bit_0 id_apply)
  moreover have "ucast (drop_bit 8 (from_le_bytes bs)) = b" "ucast (drop_bit 16 (from_le_bytes bs)) = c"
    "ucast (drop_bit 24 (from_le_bytes bs)) = d"
  proof -
    have pows: "(2::nat) ^ 8 = 256" "(2::nat) ^ 16 = 256 * 256" "(2::nat) ^ 24 = 256 * 256 * 256" by simp_all
    show "ucast (drop_bit 8 (from_le_bytes bs)) = b" "ucast (drop_bit 16 (from_le_bytes bs)) = c"
      "ucast (drop_bit 24 (from_le_bytes bs)) = d"
      using bounds by (auto intro!: byte simp only: pows div_mult2_eq low xs [symmetric] mod_less)
  qed
  ultimately show "to_le_bytes (from_le_bytes bs) = bs"
    by (simp add: to_le_bytes_def bs)
qed

lemma append_slices: "i \<le> j \<Longrightarrow> slice bs i j @ drop j bs = drop i bs"
  by (simp add: slice_def) (metis append_take_drop_id drop_drop le_add_diff_inverse2)

lemma length_slice [simp]: "length (slice bs i j) = min (j - i) (length bs - i)"
  by (simp add: slice_def)

definition header_wf :: "PvsHeader \<Rightarrow> bool" where
  "header_wf h \<longleftrightarrow> length (magic h) = 4 \<and> length (hdr_checksum h) = 32 \<and> length (reserved h) = 20"

lemma length_header_bytes: "header_wf h \<Longrightarrow> length (header_bytes h) = HEADER_SIZE"
  by (simp add: header_wf_def header_bytes_def HEADER_SIZE_def)

lemma parse_header_bytes:
  assumes "header_wf h"
  shows "parse_header (header_bytes h) = Inr h"
proof -
  have "slice (header_bytes h) 0 4 = magic h" "slice (header_bytes h) 4 8 = to_le_bytes (hdr_version h)"
    "slice (header_bytes h) 8 12 = to_le_bytes (algorithm h)" "slice (header_bytes h) 12 44 = hdr_checksum h"
    "slice (header_bytes h) 44 64 = reserved h"
    using assms by (auto simp: slice_def header_wf_def header_bytes_def)
  with assms show ?thesis by (simp add: parse_header_def length_header_bytes)
qed

lemma parse_header_Inr:
  assumes "parse_header buf = Inr h"
  shows "header_wf h \<and> header_bytes h = take HEADER_SIZE buf"
proof -
  have len: "HEADER_SIZE \<le> length buf"
    and h: "h = \<lparr>magic = slice buf 0 4, hdr_version = from_le_bytes (slice buf 4 8),
                algorithm = from_le_bytes (slice buf 8 12), hdr_checksum = slice buf 12 44,
                reserved = slice buf 44 64\<rparr>"
    using assms by (auto simp: parse_header_def split: if_splits)
  have "header_bytes h @ drop 64 buf
      = slice buf 0 4 @ slice buf 4 8 @ slice buf 8 12 @ slice buf 12 44 @ slice buf 44 64 @ drop 64 buf"
    using len by (simp add: h header_bytes_def to_from_le_bytes HEADER_SIZE_def)
  also have "\<dots> = buf" by (simp add: append_slices)
  finally have eq: "header_bytes h @ drop 64 buf = buf" .
  have wf: "header_wf h" using len by (simp add: h header_wf_def HEADER_SIZE_def)
  have "take HEADER_SIZE (header_bytes h @ drop 64 buf) = header_bytes h"
    by (simp add: length_header_bytes [OF wf])
  with eq wf show ?thesis by simp
qed

lemma parse_header_take: "HEADER_SIZE \<le> length bs \<Longrightarrow> \<exists>h. parse_header (take HEADER_SIZE bs) = Inr h"
  by (simp add: parse_header_def)

lemma validate_header_Inr:
  assumes "header_wf h"
  shows "validate_header h = Inr u \<longleftrightarrow> h = header_default\<lparr>hdr_checksum := hdr_checksum h\<rparr>"
proof -
  have "list_ex (\<lambda>b. b \<noteq> 0) (reserved h) \<longleftrightarrow> reserved h \<noteq> replicate 20 0"
    using assms by (auto simp: header_wf_def list_ex_iff intro: replicate_eqI)
  then show ?thesis
    by (cases h) (auto simp: validate_header_def header_default_def)
qed

section \<open>Acceptance in memory\<close>

lemma header_wf_default: "header_wf (header_default\<lparr>hdr_checksum := c\<rparr>) \<longleftrightarrow> length c = 32"
  by (simp add: header_wf_def header_default_def PAVIS_MAGIC_def)

lemma encode_eq:
  "encode sha256 rk c = and_then (map_err Serialization (rkyv_to_bytes rk c)) (\<lambda>p.
     Inr (header_bytes (header_default\<lparr>hdr_checksum := sha256 p\<rparr>) @ p))"
  by (simp add: encode_def header_default_def)

lemma verify_bytes_canonical:
  "verify_bytes sha256 bs = Inr (h, p) \<longleftrightarrow>
     h = header_default\<lparr>hdr_checksum := sha256 p\<rparr> \<and> bs = header_bytes h @ p
     \<and> length (sha256 p) = 32 \<and> length p \<le> MAX_PAYLOAD_SIZE" (is "?l \<longleftrightarrow> ?r")
proof
  assume l: ?l
  then have p: "p = drop HEADER_SIZE bs" and len: "HEADER_SIZE \<le> length bs" "length p \<le> MAX_PAYLOAD_SIZE"
    and h: "parse_header (take HEADER_SIZE bs) = Inr h" "validate_header h = Inr ()"
      "sha256 p = hdr_checksum h"
    by (auto simp: verify_bytes_def result_simps Let_def split: if_splits)
  from parse_header_Inr [OF h(1)] have wf: "header_wf h" "header_bytes h = take HEADER_SIZE bs"
    by simp_all
  then show ?r using validate_header_Inr [OF wf(1), of "()"] h len p
    by (auto simp: header_wf_def)
next
  assume r: ?r
  then have wf: "header_wf h" by (simp add: header_wf_default)
  with r show ?l
    using length_header_bytes [OF wf] parse_header_bytes [OF wf] validate_header_Inr [OF wf, of "()"]
    by (auto simp: verify_bytes_def header_default_def)
qed

text \<open>
  C1: \<open>verify_bytes\<close> accepts exactly the canonical artifacts. It returns a header and a payload if
  and only if the input is that header printed in front of that payload, the header is the default
  one with the SHA-256 of the payload as checksum, and the payload has at most 100 MB. So no two
  different inputs are accepted with the same payload, and a change of any byte of the header is
  rejected.
\<close>

theorem verify_bytes_iff:
  "verify_bytes sha256 bs = Inr (h, p) \<longleftrightarrow>
     h = header_default\<lparr>hdr_checksum := sha256 p\<rparr> \<and> bs = header_bytes h @ p
     \<and> length (sha256 p) = 32 \<and> length p \<le> MAX_PAYLOAD_SIZE"
  by (rule verify_bytes_canonical)

section \<open>The streaming reader\<close>

lemma read_payload_chunks:
  assumes "[] \<notin> set chunks" and "length acc + length (concat chunks) \<le> MAX_PAYLOAD_SIZE"
  shows "read_payload (map Inr chunks) (length acc) acc = Inr (acc @ concat chunks)"
  using assms
proof (induction chunks arbitrary: acc)
  case (Cons c cs)
  then have "min (length acc + length c) (2 ^ 64 - 1) = length (acc @ c)" "length (acc @ c) \<le> MAX_PAYLOAD_SIZE"
    by (auto simp: MAX_PAYLOAD_SIZE_def)
  moreover have "c \<noteq> []" using Cons.prems(1) by auto
  ultimately show ?case
    using Cons.IH [of "acc @ c"] Cons.prems by (simp add: Let_def)
qed simp

lemmas file_sizes = HEADER_SIZE_def MAX_PAYLOAD_SIZE_def

lemma quiet_file_stream:
  assumes "[] \<notin> set chunks" "concat chunks = drop HEADER_SIZE bs" "length bs < 2 ^ 64"
  shows "read_verified_file sha256 (Inr (quiet_file bs chunks))
    = and_then (verify_bytes sha256 bs) (\<lambda>(h, p). Inr (h, bs))"
proof (cases "length bs < HEADER_SIZE \<or> length bs > HEADER_SIZE + MAX_PAYLOAD_SIZE")
  case True
  with assms(3) show ?thesis
    by (auto simp: read_verified_file_def verify_bytes_def quiet_file_def unat_of_nat)
next
  case False
  then have "length (concat chunks) \<le> MAX_PAYLOAD_SIZE"
    unfolding assms(2) by auto
  with read_payload_chunks [OF assms(1), of "[]"]
  have pay: "read_payload (map Inr chunks) 0 [] = Inr (drop HEADER_SIZE bs)"
    using assms(2) by simp
  obtain h where h: "parse_header (take HEADER_SIZE bs) = Inr h"
    using parse_header_take False by (meson not_less)
  show ?thesis
    using False assms(3) h pay
    by (cases "validate_header h")
      (auto simp: read_verified_file_def verify_bytes_def quiet_file_def header_read_error_def
        unat_of_nat Let_def)
qed

text \<open>
  C20: the streaming reader is the in-memory check. For a file that does not change while it is read
  and any non-empty pieces in which the operating system returns its payload,
  \<open>read_from_path\<close> gives the result of \<open>verify\<close> on the whole contents, the errors included.
\<close>

theorem read_from_path_eq_verify:
  assumes "[] \<notin> set chunks" "concat chunks = drop HEADER_SIZE bs" "length bs < 2 ^ 64"
  shows "read_from_path sha256 rk (Inr (quiet_file bs chunks)) = verify_owned sha256 rk bs"
proof (cases "verify_bytes sha256 bs")
  case (Inl e)
  then show ?thesis
    by (simp add: read_from_path_def verify_owned_def quiet_file_stream [OF assms])
next
  case (Inr hp)
  then obtain h p where hp: "verify_bytes sha256 bs = Inr (h, p)" by (cases hp) auto
  then have "drop HEADER_SIZE bs = p"
    by (auto simp: verify_bytes_def result_simps Let_def split: if_splits)
  with hp show ?thesis
    by (simp add: read_from_path_def verify_owned_def quiet_file_stream [OF assms])
qed

theorem read_from_path_eq_verify_witness:
  "read_from_path (\<lambda>_. replicate 32 7) \<lparr>rkyv_to_bytes = Inr, rkyv_access = Inr, rkyv_deserialize = Inr\<rparr>
     (Inr (quiet_file (header_bytes (header_default\<lparr>hdr_checksum := replicate 32 7\<rparr>) @ [1, 2, 3]) [[1, 2], [3]]))
   = verify_owned (\<lambda>_. replicate 32 7) \<lparr>rkyv_to_bytes = Inr, rkyv_access = Inr, rkyv_deserialize = Inr\<rparr>
     (header_bytes (header_default\<lparr>hdr_checksum := replicate 32 7\<rparr>) @ [1, 2, 3])"
  by (rule read_from_path_eq_verify)
    (simp_all add: length_header_bytes header_wf_default HEADER_SIZE_def)

lemma verify_bytes_large: "HEADER_SIZE + MAX_PAYLOAD_SIZE < length bs \<Longrightarrow> \<exists>e. verify_bytes sha256 bs = Inl e"
  by (auto simp: verify_bytes_def Let_def)

text \<open>
  C21: what \<open>write\<close> puts on the disk, \<open>load\<close> reads back exactly when it is not too large. If the serializer returns a payload
  that its own \<open>access\<close> and \<open>deserialize\<close> decode to the configuration, and the hash
  returns 32 bytes, then the file is written, whatever its size, and loading it gives the configuration if and only if the payload has at
  most 100 MB, in whatever pieces it is read.
\<close>

theorem write_load_roundtrip:
  assumes "rkyv_to_bytes rk c = Inr p" "rkyv_access rk p = Inr v" "rkyv_deserialize rk v = Inr c"
    and "length p + HEADER_SIZE < 2 ^ 64" "length (sha256 p) = 32"
    and "[] \<notin> set chunks" "concat chunks = p"
  shows "\<exists>disk'. write_pvs sha256 rk None disk path c = Inr disk'
    \<and> (load sha256 rk (open_path disk' path chunks) = Inr c \<longleftrightarrow> length p \<le> MAX_PAYLOAD_SIZE)"
proof -
  define h where "h = header_default\<lparr>hdr_checksum := sha256 p\<rparr>"
  define bs where "bs = header_bytes h @ p"
  have len: "length (header_bytes h) = HEADER_SIZE"
    using assms(5) by (simp add: h_def length_header_bytes header_wf_default)
  have w: "write_pvs sha256 rk None disk path c = Inr (disk(path \<mapsto> bs))"
    using assms(1) by (simp add: write_pvs_def encode_eq fs_write_def bs_def h_def)
  have "concat chunks = drop HEADER_SIZE bs" "length bs < 2 ^ 64"
    using assms(4,7) len by (simp_all add: bs_def)
  note stream = quiet_file_stream [OF assms(6) this]
  have "load sha256 rk (open_path (disk(path \<mapsto> bs)) path chunks) = Inr c \<longleftrightarrow> length p \<le> MAX_PAYLOAD_SIZE"
  proof (cases "length p \<le> MAX_PAYLOAD_SIZE")
    case True
    then have "verify_bytes sha256 bs = Inr (h, p)"
      using assms(5) by (simp add: verify_bytes_canonical h_def bs_def)
    moreover have "drop HEADER_SIZE bs = p" using len by (simp add: bs_def)
    ultimately show ?thesis using True assms(2,3) by (simp add: load_def open_path_def stream)
  next
    case False
    then obtain e where "verify_bytes sha256 bs = Inl e" using verify_bytes_large [of bs] len by (auto simp: bs_def)
    with False show ?thesis by (simp add: load_def open_path_def stream)
  qed
  with w show ?thesis by blast
qed

theorem write_load_roundtrip_witness:
  "\<exists>disk'. write_pvs (\<lambda>_. replicate 32 7)
       \<lparr>rkyv_to_bytes = Inr, rkyv_access = Inr, rkyv_deserialize = Inr\<rparr> None Map.empty ''cfg.pvs'' [1, 2, 3] = Inr disk'
     \<and> load (\<lambda>_. replicate 32 7) \<lparr>rkyv_to_bytes = Inr, rkyv_access = Inr, rkyv_deserialize = Inr\<rparr>
         (open_path disk' ''cfg.pvs'' [[1], [2, 3]]) = Inr [1, 2, 3]"
  using write_load_roundtrip [of "\<lparr>rkyv_to_bytes = Inr, rkyv_access = Inr, rkyv_deserialize = Inr\<rparr>" "[1, 2, 3]" "[1, 2, 3]" "[1, 2, 3]"
      "\<lambda>_. replicate 32 7" "[[1], [2, 3]]" Map.empty "''cfg.pvs''"]
  by (simp add: MAX_PAYLOAD_SIZE_def HEADER_SIZE_def)

end
