(* ===== verification/Core_Types.thy ===== *)
theory Core_Types
  imports Prelude
begin

text \<open>
  The runtime configuration of crates/pavis-core/src/runtime: the types of types.rs, routing.rs,
  upstream.rs, retry.rs, listener.rs, telemetry.rs and policy.rs, the root \<open>RuntimeConfig\<close> of
  runtime.rs, and the three builders of builder.rs.

  A newtype is a synonym of the type it wraps. Rust enums share constructor names such as
  \<open>Disabled\<close> and \<open>Enabled\<close>; here a constructor carries the name of its enum. Fields carry a short
  prefix of their struct. The \<open>NonZero\<close> integers of the sources are words; what needs them to be
  nonzero says so.
\<close>

section \<open>Newtypes (types.rs)\<close>

type_synonym Duration = u32 \<comment> \<open>milliseconds, not zero\<close>
type_synonym ConsecutiveErrors = u32
type_synonym MaxConnections = u32
type_synonym MaxPendingRequests = u32
type_synonym Hostname = string
type_synonym Host = string
type_synonym Path = string
type_synonym SpiffeId = string
type_synonym ServiceName = string
type_synonym HeaderName = string
type_synonym HeaderValue = string
type_synonym UpstreamName = string
type_synonym UpstreamId = u16
type_synonym ListenerName = string
type_synonym Port = u16
type_synonym Weight = u16
type_synonym ConfigVersion = u64
type_synonym SampleRate = u32

datatype Timeout = Timeout_Disabled | Timeout_Enabled Duration

datatype ConnectTimeout = ConnectTimeout_Disabled | ConnectTimeout_Enabled Duration

datatype IdleTimeout = IdleTimeout_Disabled | IdleTimeout_Enabled Duration

datatype TryTimeout = TryTimeout_Inherit | TryTimeout_Disabled | TryTimeout_Enabled Duration

text \<open>The addresses of \<open>std::net\<close>, without the flow information and the scope of IPv6 sockets.\<close>

datatype IpAddr = V4 u32 | V6 u128

record SocketAddr =
  sa_ip :: IpAddr
  sa_port :: u16

section \<open>Retry policy (retry.rs)\<close>

datatype BackoffStrategy =
    Backoff_Fixed u64
  | Backoff_Linear u64
  | Backoff_Exponential u64 u64

definition backoff_default :: BackoffStrategy where
  "backoff_default = Backoff_Exponential 100 5000"

datatype RetryReason =
    Reason_StatusCode | Reason_ConnectTimeout | Reason_ReadTimeout | Reason_PerTryTimeout
  | Reason_PoolFull | Reason_ConnectError

type_synonym RetryableStatusCodes = "u16 list"

definition retryable_codes_default :: RetryableStatusCodes where
  "retryable_codes_default = [502, 503, 504]"

record RetryConfig =
  rp_max_attempts :: u16
  rp_per_try :: TryTimeout
  rp_retryable_reasons :: "RetryReason list"
  rp_retryable_status_codes :: "RetryableStatusCodes option"
  rp_backoff :: BackoffStrategy
  rp_retry_non_idempotent :: bool
  rp_fail_on_non_replayable_retry :: bool
  rp_max_request_body_buffer_bytes :: u64

datatype RetryPolicy = Retry_Disabled | Retry_Enabled RetryConfig

datatype HttpMethod = GET | POST | PUT | DELETE | PATCH | HEAD | OPTIONS | CONNECT | TRACE

fun method_as_str :: "HttpMethod \<Rightarrow> string" where
  "method_as_str GET = ''GET''"
| "method_as_str POST = ''POST''"
| "method_as_str PUT = ''PUT''"
| "method_as_str DELETE = ''DELETE''"
| "method_as_str PATCH = ''PATCH''"
| "method_as_str HEAD = ''HEAD''"
| "method_as_str OPTIONS = ''OPTIONS''"
| "method_as_str CONNECT = ''CONNECT''"
| "method_as_str TRACE = ''TRACE''"

datatype MethodIdempotency = Idempotent | NonIdempotent

fun from_method :: "HttpMethod \<Rightarrow> MethodIdempotency" where
  "from_method GET = Idempotent"
| "from_method HEAD = Idempotent"
| "from_method OPTIONS = Idempotent"
| "from_method TRACE = Idempotent"
| "from_method POST = NonIdempotent"
| "from_method PUT = NonIdempotent"
| "from_method PATCH = NonIdempotent"
| "from_method DELETE = NonIdempotent"
| "from_method CONNECT = NonIdempotent"

datatype BodyReplayability = Body_Buffered | Body_Streaming | Body_Empty

section \<open>Policies (policy.rs)\<close>

record Headers =
  set_headers :: "(HeaderName \<times> HeaderValue) list"
  append_headers :: "(HeaderName \<times> HeaderValue) list"
  add_headers :: "(HeaderName \<times> HeaderValue) list"
  remove_headers :: "HeaderName list"

datatype HeadersPolicy = Headers_Disabled | Headers_Enabled Headers

datatype ReadTimeout = ReadTimeout_Disabled | ReadTimeout_Enabled Duration

definition read_timeout_default :: ReadTimeout where
  "read_timeout_default = ReadTimeout_Enabled 30000"

datatype ShutdownPolicy = Shutdown_Disabled | Shutdown_Enabled Duration

datatype AdminConfig = Admin_Disabled | Admin_Enabled SocketAddr

record RegexLimits =
  pattern_max_bytes :: u32
  size_limit_bytes :: u64
  input_max_bytes :: u32
  max_regex_per_route :: u32
  max_regex_per_config :: u32

definition regex_limits_default :: RegexLimits where
  "regex_limits_default = \<lparr>pattern_max_bytes = 256, size_limit_bytes = 10 * 1024 * 1024,
     input_max_bytes = 4096, max_regex_per_route = 10, max_regex_per_config = 100\<rparr>"

record RoutingFeatures =
  advanced_matchers :: bool
  regex_limits :: RegexLimits

definition routing_features_default :: RoutingFeatures where
  "routing_features_default = \<lparr>advanced_matchers = False, regex_limits = regex_limits_default\<rparr>"

section \<open>Routing (routing.rs)\<close>

datatype PathMatch = Path_Prefix Path | Path_Exact Path | Path_Regex Path

datatype MethodPredicate = Method_Any | Method_Specific HttpMethod | Method_List "HttpMethod list"

datatype HeaderMatch =
    Match_Present | Match_Exact string | Match_Prefix string | Match_Regex string | Match_Absent

record HeaderPredicate =
  hp_name :: string
  hp_matcher :: HeaderMatch

datatype HeaderPredicates = Predicates_None | Predicates_Some "HeaderPredicate list"

record RouteMatcher =
  rm_path :: PathMatch
  rm_method :: MethodPredicate
  rm_headers :: HeaderPredicates

datatype Principal =
    Principal_Any
  | Principal_Authenticated SpiffeId
  | Principal_Prefix string

record Destination =
  dest_upstream :: UpstreamName
  dest_weight :: Weight

datatype RouteAction =
    Action_Forward "Destination list"
  | Action_Redirect u16 string
  | Action_Direct u16 string

datatype RewritePath = RewritePath_Disabled | RewritePath_Prefix Path Path

datatype RewriteHost = RewriteHost_Disabled | RewriteHost_Literal Hostname

record Rewrite =
  rw_path :: RewritePath
  rw_host :: RewriteHost

record Route =
  r_matcher :: RouteMatcher
  r_timeout :: Timeout
  r_retry :: RetryPolicy
  r_request_headers :: HeadersPolicy
  r_response_headers :: HeadersPolicy
  r_rewrite :: Rewrite
  r_action :: RouteAction
  r_principal :: Principal

record VirtualHost =
  vh_host :: Host
  vh_paths :: "Route list"

section \<open>Upstreams (upstream.rs)\<close>

datatype Discovery = Discovery_Static | Discovery_Strict u32 | Discovery_Logical

datatype LoadBalancer = RoundRobin | Random | LeastRequest

datatype HttpVersion = H1 | H2 | H2H1

type_synonym ConnectionLimit = u32

record PoolQueue =
  pq_capacity :: u32
  pq_timeout_ms :: u32

record Pool =
  pool_idle :: IdleTimeout
  pool_connect :: ConnectTimeout
  pool_max :: ConnectionLimit
  pool_queue :: PoolQueue
  pool_tcp_keepalive :: "Duration option"
  pool_tcp_nodelay :: "bool option"
  pool_recv_buffer_size :: "u32 option"

definition DEFAULT_POOL_MAX :: u32 where
  "DEFAULT_POOL_MAX = 128"

definition pool_default :: Pool where
  "pool_default = \<lparr>pool_idle = IdleTimeout_Disabled, pool_connect = ConnectTimeout_Disabled,
     pool_max = DEFAULT_POOL_MAX, pool_queue = \<lparr>pq_capacity = 0, pq_timeout_ms = 0\<rparr>,
     pool_tcp_keepalive = None, pool_tcp_nodelay = None, pool_recv_buffer_size = None\<rparr>"

datatype OutlierDetectionPolicy =
    Outlier_Disabled
  | Outlier_Enabled ConsecutiveErrors Duration

datatype CircuitBreakerPolicy =
    Breaker_Disabled
  | Breaker_Enabled MaxConnections MaxPendingRequests

datatype ActiveHealthCheck =
    Health_Disabled
  | Health_Enabled (hc_path: Path) (hc_interval: Duration) (hc_timeout: Duration)

datatype TlsVerify = Verify_Disabled | Verify_CaOnly | Verify_Full

datatype SniName = Sni_Auto | Sni_Name Hostname | Sni_Disabled

datatype CanonicalSni = CanonicalSni_Disabled | CanonicalSni_Enabled Hostname

datatype ReuseAcrossSni = Reuse_Disabled | Reuse_Enabled

datatype ClientCertChain = Chain_None | Chain_Embedded | Chain_File Path

datatype ClientCert = ClientCert_Disabled | ClientCert_Enabled Path Path ClientCertChain

datatype UpstreamCa = Ca_System | Ca_File Path

record TlsSettings =
  tls_verify :: TlsVerify
  tls_sni :: SniName
  tls_canonical_sni :: CanonicalSni
  tls_reuse_across_sni :: ReuseAcrossSni
  tls_cert :: ClientCert
  tls_ca :: UpstreamCa

datatype TlsPolicy = TlsPolicy_Disabled | TlsPolicy_Enabled TlsSettings

datatype EndpointAddr = Endpoint_Ip IpAddr Port | Endpoint_Dns Hostname Port

record Endpoint =
  ep_address :: EndpointAddr
  ep_weight :: Weight

record Upstream =
  u_id :: UpstreamId
  u_name :: UpstreamName
  u_discovery :: Discovery
  u_balancer :: LoadBalancer
  u_protocol :: HttpVersion
  u_pool :: Pool
  u_outlier_detection :: OutlierDetectionPolicy
  u_circuit_breaker :: CircuitBreakerPolicy
  u_health_check :: ActiveHealthCheck
  u_tls :: TlsPolicy
  u_endpoints :: "Endpoint list"

section \<open>Listeners and telemetry (listener.rs, telemetry.rs)\<close>

datatype WorkerCount = Workers_Auto | Workers_Count u16

datatype ClientAuth = ClientAuth_Disabled | ClientAuth_Optional Path | ClientAuth_Required Path

datatype TlsConfig = TlsConfig_Disabled | TlsConfig_Enabled Path Path ClientAuth

record Listener =
  l_name :: ListenerName
  l_address :: SocketAddr
  l_workers :: WorkerCount
  l_tls :: TlsConfig

datatype LogLevel = Log_Error | Log_Warn | Log_Info | Log_Debug | Log_Trace

datatype AccessLogPolicy = AccessLog_Disabled | AccessLog_Stdout | AccessLog_File Path

datatype TracingProvider = Otlp | Jaeger | Zipkin

datatype TracingPolicy = Tracing_Disabled | Tracing_Enabled TracingProvider SampleRate string

datatype Metrics = Metrics_Disabled | Metrics_Enabled SocketAddr

record Telemetry =
  t_level :: LogLevel
  t_pingora :: LogLevel
  t_service_name :: ServiceName
  t_metrics :: Metrics
  t_access_log :: AccessLogPolicy
  t_tracing :: TracingPolicy

section \<open>Runtime configuration (runtime.rs)\<close>

record RuntimeConfig =
  listeners :: "Listener list"
  telemetry :: Telemetry
  upstreams :: "Upstream list"
  routes :: "VirtualHost list"
  shutdown :: ShutdownPolicy
  admin :: AdminConfig
  features :: RoutingFeatures
  required_capabilities :: "string list"

section \<open>Builders (builder.rs)\<close>

datatype BuilderError =
    MissingTelemetry | MissingListeners | MissingListenerAddress | MissingListenerName
  | MissingUpstreamName | MissingUpstreamId

record RuntimeConfigBuilder =
  cb_listeners :: "Listener list"
  cb_telemetry :: "Telemetry option"
  cb_upstreams :: "Upstream list"
  cb_routes :: "VirtualHost list"
  cb_shutdown :: "ShutdownPolicy option"
  cb_admin :: "AdminConfig option"
  cb_features :: "RoutingFeatures option"
  cb_required_capabilities :: "string list"

definition config_builder_new :: RuntimeConfigBuilder where
  "config_builder_new = \<lparr>cb_listeners = [], cb_telemetry = None, cb_upstreams = [], cb_routes = [],
     cb_shutdown = None, cb_admin = None, cb_features = None, cb_required_capabilities = []\<rparr>"

text \<open>The calls on the builder between \<open>new\<close> and \<open>build\<close>.\<close>

datatype config_call =
    With_telemetry Telemetry
  | Add_listener Listener
  | Add_upstream Upstream
  | Add_route VirtualHost
  | With_shutdown ShutdownPolicy
  | With_admin AdminConfig
  | With_features RoutingFeatures
  | Add_required_capability string

fun config_builder_call :: "config_call \<Rightarrow> RuntimeConfigBuilder \<Rightarrow> RuntimeConfigBuilder" where
  "config_builder_call (With_telemetry t) b = b\<lparr>cb_telemetry := Some t\<rparr>"
| "config_builder_call (Add_listener l) b = b\<lparr>cb_listeners := cb_listeners b @ [l]\<rparr>"
| "config_builder_call (Add_upstream u) b = b\<lparr>cb_upstreams := cb_upstreams b @ [u]\<rparr>"
| "config_builder_call (Add_route r) b = b\<lparr>cb_routes := cb_routes b @ [r]\<rparr>"
| "config_builder_call (With_shutdown s) b = b\<lparr>cb_shutdown := Some s\<rparr>"
| "config_builder_call (With_admin a) b = b\<lparr>cb_admin := Some a\<rparr>"
| "config_builder_call (With_features f) b = b\<lparr>cb_features := Some f\<rparr>"
| "config_builder_call (Add_required_capability c) b =
     b\<lparr>cb_required_capabilities := cb_required_capabilities b @ [c]\<rparr>"

definition unwrap_or :: "'a option \<Rightarrow> 'a \<Rightarrow> 'a" where
  "unwrap_or x d = (case x of None \<Rightarrow> d | Some a \<Rightarrow> a)"

definition config_build :: "RuntimeConfigBuilder \<Rightarrow> BuilderError + RuntimeConfig" where
  "config_build b =
     (if cb_listeners b = [] then Inl MissingListeners
      else and_then (ok_or (cb_telemetry b) MissingTelemetry) (\<lambda>t.
        Inr \<lparr>listeners = cb_listeners b, telemetry = t, upstreams = cb_upstreams b, routes = cb_routes b,
             shutdown = unwrap_or (cb_shutdown b) Shutdown_Disabled,
             admin = unwrap_or (cb_admin b) Admin_Disabled,
             features = unwrap_or (cb_features b) routing_features_default,
             required_capabilities = cb_required_capabilities b\<rparr>))"

record ListenerBuilder =
  lb_name :: "ListenerName option"
  lb_address :: "SocketAddr option"
  lb_workers :: WorkerCount
  lb_tls :: TlsConfig

definition listener_builder_new :: ListenerBuilder where
  "listener_builder_new = \<lparr>lb_name = None, lb_address = None, lb_workers = Workers_Auto,
     lb_tls = TlsConfig_Disabled\<rparr>"

datatype listener_call =
    Listener_name ListenerName | Listener_address SocketAddr | Listener_workers WorkerCount
  | Listener_tls TlsConfig

fun listener_builder_call :: "listener_call \<Rightarrow> ListenerBuilder \<Rightarrow> ListenerBuilder" where
  "listener_builder_call (Listener_name n) b = b\<lparr>lb_name := Some n\<rparr>"
| "listener_builder_call (Listener_address a) b = b\<lparr>lb_address := Some a\<rparr>"
| "listener_builder_call (Listener_workers w) b = b\<lparr>lb_workers := w\<rparr>"
| "listener_builder_call (Listener_tls t) b = b\<lparr>lb_tls := t\<rparr>"

definition listener_build :: "ListenerBuilder \<Rightarrow> BuilderError + Listener" where
  "listener_build b =
     and_then (ok_or (lb_name b) MissingListenerName) (\<lambda>name.
     and_then (ok_or (lb_address b) MissingListenerAddress) (\<lambda>address.
       Inr \<lparr>l_name = name, l_address = address, l_workers = lb_workers b, l_tls = lb_tls b\<rparr>))"

record UpstreamBuilder =
  ub_id :: "UpstreamId option"
  ub_name :: "UpstreamName option"
  ub_discovery :: Discovery
  ub_balancer :: LoadBalancer
  ub_protocol :: HttpVersion
  ub_pool :: Pool
  ub_outlier_detection :: OutlierDetectionPolicy
  ub_circuit_breaker :: CircuitBreakerPolicy
  ub_health_check :: ActiveHealthCheck
  ub_tls :: TlsPolicy
  ub_endpoints :: "Endpoint list"

definition upstream_builder_new :: UpstreamBuilder where
  "upstream_builder_new = \<lparr>ub_id = None, ub_name = None, ub_discovery = Discovery_Static,
     ub_balancer = RoundRobin, ub_protocol = H1, ub_pool = pool_default,
     ub_outlier_detection = Outlier_Disabled, ub_circuit_breaker = Breaker_Disabled,
     ub_health_check = Health_Disabled, ub_tls = TlsPolicy_Disabled, ub_endpoints = []\<rparr>"

datatype upstream_call =
    Upstream_id UpstreamId | Upstream_name UpstreamName | Upstream_discovery Discovery
  | Upstream_balancer LoadBalancer | Upstream_protocol HttpVersion | Upstream_pool Pool
  | Upstream_outlier_detection OutlierDetectionPolicy | Upstream_circuit_breaker CircuitBreakerPolicy
  | Upstream_health_check ActiveHealthCheck | Upstream_tls TlsPolicy | Upstream_add_endpoint Endpoint

fun upstream_builder_call :: "upstream_call \<Rightarrow> UpstreamBuilder \<Rightarrow> UpstreamBuilder" where
  "upstream_builder_call (Upstream_id i) b = b\<lparr>ub_id := Some i\<rparr>"
| "upstream_builder_call (Upstream_name n) b = b\<lparr>ub_name := Some n\<rparr>"
| "upstream_builder_call (Upstream_discovery d) b = b\<lparr>ub_discovery := d\<rparr>"
| "upstream_builder_call (Upstream_balancer l) b = b\<lparr>ub_balancer := l\<rparr>"
| "upstream_builder_call (Upstream_protocol v) b = b\<lparr>ub_protocol := v\<rparr>"
| "upstream_builder_call (Upstream_pool p) b = b\<lparr>ub_pool := p\<rparr>"
| "upstream_builder_call (Upstream_outlier_detection p) b = b\<lparr>ub_outlier_detection := p\<rparr>"
| "upstream_builder_call (Upstream_circuit_breaker p) b = b\<lparr>ub_circuit_breaker := p\<rparr>"
| "upstream_builder_call (Upstream_health_check h) b = b\<lparr>ub_health_check := h\<rparr>"
| "upstream_builder_call (Upstream_tls t) b = b\<lparr>ub_tls := t\<rparr>"
| "upstream_builder_call (Upstream_add_endpoint e) b = b\<lparr>ub_endpoints := ub_endpoints b @ [e]\<rparr>"

definition upstream_build :: "UpstreamBuilder \<Rightarrow> BuilderError + Upstream" where
  "upstream_build b =
     and_then (ok_or (ub_id b) MissingUpstreamId) (\<lambda>i.
     and_then (ok_or (ub_name b) MissingUpstreamName) (\<lambda>name.
       Inr \<lparr>u_id = i, u_name = name, u_discovery = ub_discovery b, u_balancer = ub_balancer b,
            u_protocol = ub_protocol b, u_pool = ub_pool b, u_outlier_detection = ub_outlier_detection b,
            u_circuit_breaker = ub_circuit_breaker b, u_health_check = ub_health_check b,
            u_tls = ub_tls b, u_endpoints = ub_endpoints b\<rparr>))"

section \<open>What the configuration builder builds\<close>

definition builder_calls :: "config_call list \<Rightarrow> RuntimeConfigBuilder" where
  "builder_calls calls = fold config_builder_call calls config_builder_new"

lemma builder_calls_listeners:
  "cb_listeners (builder_calls calls) = concat (map (\<lambda>c. case c of Add_listener l \<Rightarrow> [l] | _ \<Rightarrow> []) calls)"
  unfolding builder_calls_def
  by (induction calls rule: rev_induct)
    (auto simp: config_builder_new_def split: config_call.splits)

lemma builder_calls_telemetry:
  "cb_telemetry (builder_calls calls) = None \<longleftrightarrow> (\<forall>t. With_telemetry t \<notin> set calls)"
  unfolding builder_calls_def
proof (induction calls rule: rev_induct)
  case (snoc c cs)
  then show ?case by (cases c) auto
qed (simp add: config_builder_new_def)

end
