(* ===== verification/Core_Predicate.thy ===== *)
theory Core_Predicate
  imports Core_Types
begin

text \<open>
  The predicate trees of crates/pavis-core/src/runtime/matcher.rs: their cost estimate, the
  normalisation of \<open>PredicateNode::normalize\<close> and its normal forms. The meaning of a tree is the
  one its constructors document, over any interpretation of the method and header matchers.
\<close>

section \<open>Matchers and their cost\<close>

datatype MethodMatcher = MM_Exact HttpMethod | MM_AnyOf "HttpMethod list"

definition method_cost :: "MethodMatcher \<Rightarrow> u8" where
  "method_cost m = 1"

datatype HeaderMatcher =
    HM_Exact string string
  | HM_Prefix string string
  | HM_Regex string string
  | HM_Present string

fun header_cost :: "HeaderMatcher \<Rightarrow> u8" where
  "header_cost (HM_Exact n v) = 1"
| "header_cost (HM_Present n) = 1"
| "header_cost (HM_Prefix n p) = 2"
| "header_cost (HM_Regex n p) = 10"

datatype PredicateNode =
    PTrue
  | PFalse
  | PMethod MethodMatcher
  | PHeader HeaderMatcher
  | PAnd "PredicateNode list"
  | POr "PredicateNode list"
  | PNot PredicateNode

text \<open>
  The sum of the costs of the children is a \<open>u16\<close>, which wraps in a release build, and is capped
  at 255.
\<close>

fun cost :: "PredicateNode \<Rightarrow> u8" where
  "cost PTrue = 0"
| "cost PFalse = 0"
| "cost (PMethod m) = method_cost m"
| "cost (PHeader h) = header_cost h"
| "cost (PAnd cs) = ucast (min (\<Sum>c\<leftarrow>cs. ucast (cost c)) (255 :: u16))"
| "cost (POr cs) = ucast (min (\<Sum>c\<leftarrow>cs. ucast (cost c)) (255 :: u16))"
| "cost (PNot c) = cost c"

section \<open>Normalisation\<close>

fun and_children :: "PredicateNode \<Rightarrow> PredicateNode list" where
  "and_children (PAnd inner) = inner"
| "and_children p = [p]"

fun or_children :: "PredicateNode \<Rightarrow> PredicateNode list" where
  "or_children (POr inner) = inner"
| "or_children p = [p]"

text \<open>
  Steps 2 to 7 of \<open>normalize_and\<close> and \<open>normalize_or\<close>, on the normalised children. \<open>sort_key\<close> is
  stable like \<open>sort_by_key\<close>, and \<open>remdups_adj\<close> is \<open>Vec::dedup\<close>.
\<close>

definition normalize_and :: "PredicateNode list \<Rightarrow> PredicateNode" where
  "normalize_and normalized =
     (let flattened = concat (map and_children normalized) in
      if PFalse \<in> set flattened then PFalse
      else let deduped = remdups_adj (sort_key cost (filter (\<lambda>n. n \<noteq> PTrue) flattened)) in
        case deduped of [] \<Rightarrow> PTrue | [n] \<Rightarrow> n | _ \<Rightarrow> PAnd deduped)"

definition normalize_or :: "PredicateNode list \<Rightarrow> PredicateNode" where
  "normalize_or normalized =
     (let flattened = concat (map or_children normalized) in
      if PTrue \<in> set flattened then PTrue
      else let deduped = remdups_adj (sort_key cost (filter (\<lambda>n. n \<noteq> PFalse) flattened)) in
        case deduped of [] \<Rightarrow> PFalse | [n] \<Rightarrow> n | _ \<Rightarrow> POr deduped)"

fun normalize_not :: "PredicateNode \<Rightarrow> PredicateNode" where
  "normalize_not PTrue = PFalse"
| "normalize_not PFalse = PTrue"
| "normalize_not (PNot inner) = inner"
| "normalize_not other = PNot other"

fun normalize :: "PredicateNode \<Rightarrow> PredicateNode" where
  "normalize (PAnd cs) = normalize_and (map normalize cs)"
| "normalize (POr cs) = normalize_or (map normalize cs)"
| "normalize (PNot c) = normalize_not (normalize c)"
| "normalize p = p"

section \<open>Meaning\<close>

fun eval_node :: "(MethodMatcher \<Rightarrow> bool) \<Rightarrow> (HeaderMatcher \<Rightarrow> bool) \<Rightarrow> PredicateNode \<Rightarrow> bool" where
  "eval_node m h PTrue = True"
| "eval_node m h PFalse = False"
| "eval_node m h (PMethod mm) = m mm"
| "eval_node m h (PHeader hm) = h hm"
| "eval_node m h (PAnd cs) = list_all (eval_node m h) cs"
| "eval_node m h (POr cs) = list_ex (eval_node m h) cs"
| "eval_node m h (PNot c) = (\<not> eval_node m h c)"

lemma eval_and_children: "(\<forall>q\<in>set (and_children p). eval_node m h q) \<longleftrightarrow> eval_node m h p"
  by (cases p) (auto simp: list_all_iff)

lemma eval_or_children: "(\<exists>q\<in>set (or_children p). eval_node m h q) \<longleftrightarrow> eval_node m h p"
  by (cases p) (auto simp: list_ex_iff)

text \<open>Collapsing a list of no or one child does not change its meaning.\<close>

lemma eval_collapse_and:
  "eval_node m h (case cs of [] \<Rightarrow> PTrue | [n] \<Rightarrow> n | _ \<Rightarrow> PAnd cs) \<longleftrightarrow> (\<forall>c\<in>set cs. eval_node m h c)"
  by (auto simp: list_all_iff split: list.splits)

lemma eval_collapse_or:
  "eval_node m h (case cs of [] \<Rightarrow> PFalse | [n] \<Rightarrow> n | _ \<Rightarrow> POr cs) \<longleftrightarrow> (\<exists>c\<in>set cs. eval_node m h c)"
  by (auto simp: list_ex_iff split: list.splits)

lemma eval_normalize_and:
  "eval_node m h (normalize_and cs) \<longleftrightarrow> (\<forall>c\<in>set cs. eval_node m h c)"
proof -
  define fl where "fl = concat (map and_children cs)"
  have "(\<forall>c\<in>set cs. eval_node m h c) \<longleftrightarrow> (\<forall>c\<in>set fl. eval_node m h c)"
    by (simp add: fl_def eval_and_children)
  moreover have "eval_node m h (normalize_and cs) \<longleftrightarrow> (\<forall>c\<in>set fl. eval_node m h c)"
    by (auto simp: normalize_and_def Let_def eval_collapse_and simp flip: fl_def intro: bexI [of _ PFalse])
  ultimately show ?thesis by simp
qed

lemma eval_normalize_or:
  "eval_node m h (normalize_or cs) \<longleftrightarrow> (\<exists>c\<in>set cs. eval_node m h c)"
proof -
  define fl where "fl = concat (map or_children cs)"
  have "(\<exists>c\<in>set cs. eval_node m h c) \<longleftrightarrow> (\<exists>c\<in>set fl. eval_node m h c)"
    by (simp add: fl_def eval_or_children)
  moreover have "eval_node m h (normalize_or cs) \<longleftrightarrow> (\<exists>c\<in>set fl. eval_node m h c)"
    by (auto simp: normalize_or_def Let_def eval_collapse_or simp flip: fl_def intro: bexI [of _ PTrue])
  ultimately show ?thesis by simp
qed

lemma eval_normalize_not: "eval_node m h (normalize_not c) \<longleftrightarrow> \<not> eval_node m h c"
  by (cases c rule: normalize_not.cases) auto

lemma eval_normalize: "eval_node m h (normalize p) \<longleftrightarrow> eval_node m h p"
  by (induction p)
    (auto simp: eval_normalize_and eval_normalize_or eval_normalize_not list_all_iff list_ex_iff)

text \<open>
  C30: normalising a predicate does not change which requests it matches, whatever the method and
  header matchers mean.
\<close>

theorem normalize_preserves_meaning: "eval_node m h (normalize p) \<longleftrightarrow> eval_node m h p"
  by (rule eval_normalize)

section \<open>Normal forms\<close>

definition is_and :: "PredicateNode \<Rightarrow> bool" where
  "is_and p \<longleftrightarrow> (case p of PAnd _ \<Rightarrow> True | _ \<Rightarrow> False)"

definition is_or :: "PredicateNode \<Rightarrow> bool" where
  "is_or p \<longleftrightarrow> (case p of POr _ \<Rightarrow> True | _ \<Rightarrow> False)"

definition is_leaf_const :: "PredicateNode \<Rightarrow> bool" where
  "is_leaf_const p \<longleftrightarrow> p = PTrue \<or> p = PFalse"

definition canonical_children :: "PredicateNode list \<Rightarrow> bool" where
  "canonical_children cs \<longleftrightarrow> sorted (map cost cs) \<and> remdups_adj cs = cs \<and> (\<forall>c\<in>set cs. \<not> is_leaf_const c)"

fun normal_form :: "PredicateNode \<Rightarrow> bool" where
  "normal_form (PAnd cs) = (2 \<le> length cs \<and> canonical_children cs \<and> list_all (\<lambda>c. \<not> is_and c) cs
     \<and> list_all normal_form cs)"
| "normal_form (POr cs) = (2 \<le> length cs \<and> canonical_children cs \<and> list_all (\<lambda>c. \<not> is_or c) cs
     \<and> list_all normal_form cs)"
| "normal_form (PNot c) = (\<not> is_leaf_const c \<and> (\<forall>d. c \<noteq> PNot d) \<and> normal_form c)"
| "normal_form p = True"


lemma sorted_map_remdups_adj: "sorted (map f xs) \<Longrightarrow> sorted (map f (remdups_adj xs))"
  by (induction xs rule: remdups_adj.induct) auto

lemma remdups_adj_id: "distinct_adj xs \<Longrightarrow> remdups_adj xs = xs"
  by (induction xs rule: remdups_adj.induct) auto

text \<open>The flattened, filtered, sorted and deduplicated children are canonical.\<close>

lemma canonical_childrenI:
  assumes "\<forall>c\<in>set cs. \<not> is_leaf_const c"
  shows "canonical_children (remdups_adj (sort_key cost cs))"
proof -
  have "sorted (map cost (remdups_adj (sort_key cost cs)))"
    by (rule sorted_map_remdups_adj) simp
  with assms show ?thesis
    by (simp add: canonical_children_def distinct_adj_remdups_adj remdups_adj_id)
qed

lemma canonical_fix:
  "canonical_children cs \<Longrightarrow> remdups_adj (sort_key cost cs) = cs"
  by (simp add: canonical_children_def sort_key_id_if_sorted)

lemma normal_form_and_children:
  "normal_form p \<Longrightarrow> q \<in> set (and_children p) \<Longrightarrow>
     normal_form q \<and> \<not> is_and q \<and> (is_leaf_const q \<longrightarrow> p = q)"
  by (cases p) (auto simp: canonical_children_def list_all_iff is_and_def is_leaf_const_def)

lemma normal_form_or_children:
  "normal_form p \<Longrightarrow> q \<in> set (or_children p) \<Longrightarrow>
     normal_form q \<and> \<not> is_or q \<and> (is_leaf_const q \<longrightarrow> p = q)"
  by (cases p) (auto simp: canonical_children_def list_all_iff is_or_def is_leaf_const_def)

lemma normal_form_normalize_and:
  assumes "\<forall>c\<in>set cs. normal_form c"
  shows "normal_form (normalize_and cs)"
proof -
  define fl where "fl = concat (map and_children cs)"
  define ds where "ds = remdups_adj (sort_key cost (filter (\<lambda>n. n \<noteq> PTrue) fl))"
  have fl: "normal_form q \<and> \<not> is_and q" if "q \<in> set fl" for q
    using that assms normal_form_and_children by (fastforce simp: fl_def)
  show ?thesis
  proof (cases "PFalse \<in> set fl")
    case True
    then show ?thesis by (simp add: normalize_and_def flip: fl_def)
  next
    case False
    then have "canonical_children ds"
      unfolding ds_def by (intro canonical_childrenI) (auto simp: is_leaf_const_def)
    moreover have "normal_form q \<and> \<not> is_and q" if "q \<in> set ds" for q
      using that fl by (simp add: ds_def)
    ultimately show ?thesis
      using False by (auto simp: normalize_and_def Let_def list_all_iff simp flip: fl_def ds_def
          split: list.splits)
  qed
qed

lemma normal_form_normalize_or:
  assumes "\<forall>c\<in>set cs. normal_form c"
  shows "normal_form (normalize_or cs)"
proof -
  define fl where "fl = concat (map or_children cs)"
  define ds where "ds = remdups_adj (sort_key cost (filter (\<lambda>n. n \<noteq> PFalse) fl))"
  have fl: "normal_form q \<and> \<not> is_or q" if "q \<in> set fl" for q
    using that assms normal_form_or_children by (fastforce simp: fl_def)
  show ?thesis
  proof (cases "PTrue \<in> set fl")
    case True
    then show ?thesis by (simp add: normalize_or_def flip: fl_def)
  next
    case False
    then have "canonical_children ds"
      unfolding ds_def by (intro canonical_childrenI) (auto simp: is_leaf_const_def)
    moreover have "normal_form q \<and> \<not> is_or q" if "q \<in> set ds" for q
      using that fl by (simp add: ds_def)
    ultimately show ?thesis
      using False by (auto simp: normalize_or_def Let_def list_all_iff simp flip: fl_def ds_def
          split: list.splits)
  qed
qed

lemma normal_form_normalize_not: "normal_form c \<Longrightarrow> normal_form (normalize_not c)"
  by (cases c rule: normalize_not.cases) (auto simp: is_leaf_const_def)

lemma normal_form_normalize: "normal_form (normalize p)"
  by (induction p)
    (auto intro!: normal_form_normalize_and normal_form_normalize_or normal_form_normalize_not)

lemma and_children_flat: "\<forall>c\<in>set cs. \<not> is_and c \<Longrightarrow> concat (map and_children cs) = cs"
proof (induction cs)
  case (Cons c cs)
  then show ?case by (cases c) (auto simp: is_and_def)
qed simp

lemma or_children_flat: "\<forall>c\<in>set cs. \<not> is_or c \<Longrightarrow> concat (map or_children cs) = cs"
proof (induction cs)
  case (Cons c cs)
  then show ?case by (cases c) (auto simp: is_or_def)
qed simp

lemma collapse_two: "2 \<le> length cs \<Longrightarrow> (case cs of [] \<Rightarrow> a | [n] \<Rightarrow> n | _ \<Rightarrow> b) = b"
  by (auto split: list.splits)

lemma normalize_and_fix: "normal_form (PAnd cs) \<Longrightarrow> normalize_and cs = PAnd cs"
proof -
  assume nf: "normal_form (PAnd cs)"
  then have "PFalse \<notin> set cs" "filter (\<lambda>n. n \<noteq> PTrue) cs = cs" "concat (map and_children cs) = cs"
    by (auto simp: canonical_children_def is_leaf_const_def list_all_iff filter_id_conv
        intro!: and_children_flat)
  with nf show ?thesis by (simp add: normalize_and_def canonical_fix collapse_two)
qed

lemma normalize_or_fix: "normal_form (POr cs) \<Longrightarrow> normalize_or cs = POr cs"
proof -
  assume nf: "normal_form (POr cs)"
  then have "PTrue \<notin> set cs" "filter (\<lambda>n. n \<noteq> PFalse) cs = cs" "concat (map or_children cs) = cs"
    by (auto simp: canonical_children_def is_leaf_const_def list_all_iff filter_id_conv
        intro!: or_children_flat)
  with nf show ?thesis by (simp add: normalize_or_def canonical_fix collapse_two)
qed

lemma normalize_fix: "normal_form p \<Longrightarrow> normalize p = p"
proof (induction p)
  case (PAnd cs)
  then have "map normalize cs = cs" by (auto simp: list_all_iff intro: map_idI)
  with PAnd.prems show ?case by (simp only: normalize.simps normalize_and_fix)
next
  case (POr cs)
  then have "map normalize cs = cs" by (auto simp: list_all_iff intro: map_idI)
  with POr.prems show ?case by (simp only: normalize.simps normalize_or_fix)
next
  case (PNot c)
  then show ?case by (cases c rule: normalize_not.cases) (auto simp: is_leaf_const_def)
qed auto

text \<open>
  \<open>normalize\<close> returns a normal form (no nested conjunction or disjunction, no constant under a
  connective, at least two children, sorted by cost, no two equal neighbours, no double negation),
  it leaves normal forms as they are, and so it is idempotent.
\<close>

theorem normalize_idempotent:
  "normal_form (normalize p) \<and> normalize (normalize p) = normalize p
   \<and> (normal_form p \<longleftrightarrow> normalize p = p)"
  using normal_form_normalize normalize_fix by metis

text \<open>
  The normal form is not canonical. A duplicate that is not next to its copy after the stable
  sort survives, and two orders of the same conjunction have different normal forms, so structural
  equality of normal forms is finer than equality up to the documented rules.
\<close>

theorem normalize_keeps_distant_duplicate:
  "a \<noteq> b \<Longrightarrow> normalize (PAnd [PMethod a, PMethod b, PMethod a]) = PAnd [PMethod a, PMethod b, PMethod a]
   \<and> normalize (PAnd [PMethod a, PMethod b]) \<noteq> normalize (PAnd [PMethod b, PMethod a])"
  by (simp add: normalize_and_def method_cost_def)

theorem normalize_keeps_distant_duplicate_witness:
  "normalize (PAnd [PMethod (MM_Exact GET), PMethod (MM_Exact POST), PMethod (MM_Exact GET)])
     = PAnd [PMethod (MM_Exact GET), PMethod (MM_Exact POST), PMethod (MM_Exact GET)]"
  using normalize_keeps_distant_duplicate [of "MM_Exact GET" "MM_Exact POST"] by simp

end
