(* ===== verification/Core_Validate.thy ===== *)
theory Core_Validate
  imports Core_Types "HOL-Library.AList"
begin

text \<open>
  The canonical validation of a runtime configuration, crates/pavis-core/src/validate.rs with
  validate/routes.rs, validate/upstreams.rs and validate/admin.rs.

  The header name and value parsers of the http crate and the regex compiler are parameters, in the
  record \<open>externs\<close>, with the order in which a \<open>HashMap\<close> is iterated. The static regex cache is a
  state that is passed through; \<open>interfere\<close> is what other threads may do to it while the lock is
  released during a compilation.
\<close>

section \<open>Errors and the outside\<close>

datatype CoreValidationError =
    DuplicateUpstream string
  | DuplicateListener string
  | DuplicateVirtualHost string
  | EmptyUpstreamName
  | EndpointWeightZero string
  | UnknownDestination string string string
  | DestinationWeightZero string string string
  | MissingTlsFiles
  | UpstreamTlsSniDisabled string
  | UpstreamTlsReuseAcrossSniRequiresVerify string
  | UpstreamTlsAutoSniRequiresDns string
  | PortConflict u16 string string
  | InvalidHealthCheckPath string
  | HealthCheckTimeoutExceedsInterval string
  | InvalidRegex string string string
  | EmptyHeaderName string
  | InvalidHeaderName string string
  | InvalidHeaderValue string string
  | DuplicateRoute string string string
  | ForwardHasNoDestinations string string
  | RewriteRegexConflict string string
  | PathNotNormalized string
  | RegexTooLong string
  | RegexCachePoisoned
  | UnsupportedCapability string

type_synonym verdict = "CoreValidationError + unit"

record regex_cache =
  cached :: "string list"
  poisoned :: bool

record OverrideState =
  referenced :: bool
  missing_rewrite :: bool

record externs =
  header_name_ok :: "string \<Rightarrow> bool"
  header_value_ok :: "string \<Rightarrow> bool"
  regex_compile :: "string \<Rightarrow> string + unit"
  interfere :: "regex_cache \<Rightarrow> regex_cache"
  hash_order :: "(string \<times> OverrideState) list \<Rightarrow> (string \<times> OverrideState) list"

definition quoted :: "string \<Rightarrow> string" where
  "quoted s = CHR 0x27 # s @ [CHR 0x27]"

section \<open>Upstreams (validate/upstreams.rs)\<close>

fun tls_sni_disabled :: "TlsPolicy \<Rightarrow> bool" where
  "tls_sni_disabled (TlsPolicy_Enabled t) \<longleftrightarrow> tls_verify t = Verify_Full \<and> tls_sni t = Sni_Disabled"
| "tls_sni_disabled TlsPolicy_Disabled \<longleftrightarrow> False"

fun tls_reuse_unverified :: "TlsPolicy \<Rightarrow> bool" where
  "tls_reuse_unverified (TlsPolicy_Enabled t) \<longleftrightarrow>
     tls_verify t = Verify_Disabled \<and> tls_reuse_across_sni t = Reuse_Enabled"
| "tls_reuse_unverified TlsPolicy_Disabled \<longleftrightarrow> False"

definition bad_health_path :: "string \<Rightarrow> bool" where
  "bad_health_path p \<longleftrightarrow> p = [] \<or> \<not> starts_with p ''/'' \<or> CHR '' '' \<in> set p"

definition validate_upstream :: "string set \<Rightarrow> Upstream \<Rightarrow> CoreValidationError + string set" where
  "validate_upstream names u =
     (if u_name u = [] then Inl EmptyUpstreamName
      else if u_name u \<in> names then Inl (DuplicateUpstream (u_name u))
      else if tls_sni_disabled (u_tls u) then Inl (UpstreamTlsSniDisabled (u_name u))
      else if tls_reuse_unverified (u_tls u) then Inl (UpstreamTlsReuseAcrossSniRequiresVerify (u_name u))
      else case u_health_check u of
        Health_Disabled \<Rightarrow> Inr (insert (u_name u) names)
      | Health_Enabled path interval timeout \<Rightarrow>
          if bad_health_path path then Inl (InvalidHealthCheckPath (u_name u))
          else if timeout > interval then Inl (HealthCheckTimeoutExceedsInterval (u_name u))
          else Inr (insert (u_name u) names))"

definition validate_upstreams :: "Upstream list \<Rightarrow> verdict" where
  "validate_upstreams us = and_then (try_fold validate_upstream {} us) (\<lambda>_. Inr ())"

section \<open>Routes (validate/routes.rs)\<close>

definition validate_name :: "externs \<Rightarrow> string \<Rightarrow> HeaderName \<Rightarrow> verdict" where
  "validate_name ext cxt name =
     (if name = [] then Inl (EmptyHeaderName cxt)
      else if \<not> header_name_ok ext name then Inl (InvalidHeaderName cxt name)
      else Inr ())"

definition validate_pair :: "externs \<Rightarrow> string \<Rightarrow> HeaderName \<times> HeaderValue \<Rightarrow> verdict" where
  "validate_pair ext cxt nv =
     and_then (validate_name ext cxt (fst nv)) (\<lambda>_.
       if \<not> header_value_ok ext (snd nv) then Inl (InvalidHeaderValue cxt (fst nv)) else Inr ())"

fun validate_headers :: "externs \<Rightarrow> HeadersPolicy \<Rightarrow> string \<Rightarrow> verdict" where
  "validate_headers ext Headers_Disabled cxt = Inr ()"
| "validate_headers ext (Headers_Enabled rules) cxt =
     and_then (try_each (validate_pair ext cxt) (set_headers rules)) (\<lambda>_.
     and_then (try_each (validate_pair ext cxt) (append_headers rules)) (\<lambda>_.
     and_then (try_each (validate_pair ext cxt) (add_headers rules)) (\<lambda>_.
       try_each (validate_name ext cxt) (remove_headers rules))))"

fun match_type :: "PathMatch \<Rightarrow> string" where
  "match_type (Path_Prefix p) = ''prefix''"
| "match_type (Path_Exact p) = ''exact''"
| "match_type (Path_Regex p) = ''regex''"

fun match_path :: "PathMatch \<Rightarrow> string" where
  "match_path (Path_Prefix p) = p"
| "match_path (Path_Exact p) = p"
| "match_path (Path_Regex p) = p"

definition route_path :: "Route \<Rightarrow> string" where
  "route_path r = match_path (rm_path (r_matcher r))"

definition validate_regex_with_cache ::
  "externs \<Rightarrow> regex_cache \<Rightarrow> string \<Rightarrow> string \<Rightarrow> verdict \<times> regex_cache" where
  "validate_regex_with_cache ext cache path host =
     (if poisoned cache then (Inl RegexCachePoisoned, cache\<lparr>poisoned := False\<rparr>)
      else if path \<in> set (cached cache) then (Inr (), cache)
      else case regex_compile ext path of
        Inl e \<Rightarrow> (Inl (InvalidRegex host path e), interfere ext cache)
      | Inr _ \<Rightarrow>
          let cache' = interfere ext cache in
          if poisoned cache' then (Inl RegexCachePoisoned, cache'\<lparr>poisoned := False\<rparr>)
          else (Inr (), cache'\<lparr>cached := List.insert path (cached cache')\<rparr>))"

fun validate_action :: "RouteAction \<Rightarrow> Route \<Rightarrow> VirtualHost \<Rightarrow> string set \<Rightarrow> verdict" where
  "validate_action (Action_Forward destinations) route vhost upstream_names =
     (if destinations = [] then Inl (ForwardHasNoDestinations (route_path route) (vh_host vhost))
      else try_each (\<lambda>dest.
        if dest_upstream dest \<notin> upstream_names
        then Inl (UnknownDestination (route_path route) (vh_host vhost) (dest_upstream dest))
        else Inr ()) destinations)"
| "validate_action (Action_Redirect st loc) route vhost upstream_names = Inr ()"
| "validate_action (Action_Direct st body) route vhost upstream_names = Inr ()"

definition path_not_normalized :: "string \<Rightarrow> bool" where
  "path_not_normalized p \<longleftrightarrow> \<not> starts_with p ''/'' \<or> length p > 1 \<and> ends_with p ''/''"

text \<open>The checks of a route after its regex: the headers and the action.\<close>

definition validate_route_rest :: "externs \<Rightarrow> string set \<Rightarrow> VirtualHost \<Rightarrow> Route \<Rightarrow> verdict" where
  "validate_route_rest ext upstream_names vhost route =
     and_then (validate_headers ext (r_request_headers route)
       (''Route '' @ quoted (route_path route) @ '' request headers'')) (\<lambda>_.
     and_then (validate_headers ext (r_response_headers route)
       (''Route '' @ quoted (route_path route) @ '' response headers'')) (\<lambda>_.
       validate_action (r_action route) route vhost upstream_names))"

text \<open>
  One iteration of the loop over the routes of a virtual host; the state is \<open>seen_routes\<close>.
\<close>

definition validate_route ::
  "externs \<Rightarrow> string set \<Rightarrow> VirtualHost \<Rightarrow> (string \<times> string) set \<Rightarrow> regex_cache \<Rightarrow> Route
   \<Rightarrow> (CoreValidationError + (string \<times> string) set) \<times> regex_cache" where
  "validate_route ext upstream_names vhost seen_routes cache route =
     (let m = rm_path (r_matcher route); path = match_path m; key = (match_type m, path);
          rest = and_then (validate_route_rest ext upstream_names vhost route)
                   (\<lambda>_. Inr (insert key seen_routes)) in
      if match_type m \<noteq> ''regex'' \<and> path_not_normalized path then (Inl (PathNotNormalized path), cache)
      else if key \<in> seen_routes then (Inl (DuplicateRoute (vh_host vhost) path (match_type m)), cache)
      else if match_type m = ''regex'' then
        if length path > 2048 then (Inl (RegexTooLong path), cache)
        else case validate_regex_with_cache ext cache path (vh_host vhost) of
          (Inl e, cache') \<Rightarrow> (Inl e, cache')
        | (Inr _, cache') \<Rightarrow>
            if rw_path (r_rewrite route) \<noteq> RewritePath_Disabled
            then (Inl (RewriteRegexConflict path (vh_host vhost)), cache')
            else (rest, cache')
      else (rest, cache))"

definition validate_vhost ::
  "externs \<Rightarrow> string set \<Rightarrow> unit \<Rightarrow> regex_cache \<Rightarrow> VirtualHost \<Rightarrow> verdict \<times> regex_cache" where
  "validate_vhost ext upstream_names u cache vhost =
     (case try_fold_st (validate_route ext upstream_names vhost) {} cache (vh_paths vhost) of
        (Inl e, cache') \<Rightarrow> (Inl e, cache')
      | (Inr _, cache') \<Rightarrow> (Inr (), cache'))"

definition validate_routes ::
  "externs \<Rightarrow> regex_cache \<Rightarrow> VirtualHost list \<Rightarrow> Upstream list \<Rightarrow> verdict \<times> regex_cache" where
  "validate_routes ext cache vhosts us =
     try_fold_st (validate_vhost ext (u_name ` set us)) () cache vhosts"

section \<open>The checks of validate.rs and admin.rs\<close>

fun validate_listener_tls :: "TlsConfig \<Rightarrow> verdict" where
  "validate_listener_tls TlsConfig_Disabled = Inr ()"
| "validate_listener_tls (TlsConfig_Enabled cert_path key_path client_auth) =
     (if cert_path = [] \<or> key_path = [] then Inl MissingTlsFiles
      else case client_auth of
        ClientAuth_Disabled \<Rightarrow> Inr ()
      | ClientAuth_Optional ca_path \<Rightarrow> fail_if (ca_path = []) MissingTlsFiles
      | ClientAuth_Required ca_path \<Rightarrow> fail_if (ca_path = []) MissingTlsFiles)"

definition validate_listener :: "string set \<Rightarrow> Listener \<Rightarrow> CoreValidationError + string set" where
  "validate_listener names l =
     (if l_name l \<in> names then Inl (DuplicateListener (l_name l))
      else and_then (validate_listener_tls (l_tls l)) (\<lambda>_. Inr (insert (l_name l) names)))"

text \<open>
  \<open>validate_sni_auto_requires_dns_or_rewrite\<close>: the first loop collects in \<open>needs_override\<close> the
  upstreams whose SNI can only come from a host rewrite, the second marks them along the routes.
\<close>

definition has_dns :: "Upstream \<Rightarrow> bool" where
  "has_dns u \<longleftrightarrow> list_ex (\<lambda>ep. case ep_address ep of Endpoint_Dns h p \<Rightarrow> True | Endpoint_Ip a p \<Rightarrow> False)
     (u_endpoints u)"

definition collect_override ::
  "(string \<times> OverrideState) list \<Rightarrow> Upstream \<Rightarrow> CoreValidationError + (string \<times> OverrideState) list" where
  "collect_override needs u =
     (case u_tls u of
        TlsPolicy_Disabled \<Rightarrow> Inr needs
      | TlsPolicy_Enabled t \<Rightarrow>
          if \<not> (tls_verify t = Verify_Full \<and> tls_sni t = Sni_Auto) then Inr needs
          else if tls_canonical_sni t \<noteq> CanonicalSni_Disabled then Inr needs
          else if tls_reuse_across_sni t = Reuse_Enabled
            then if has_dns u then Inr needs else Inl (UpstreamTlsAutoSniRequiresDns (u_name u))
          else if has_dns u then Inr needs
          else Inr (AList.update (u_name u) \<lparr>referenced = False, missing_rewrite = False\<rparr> needs))"

definition mark_destination ::
  "bool \<Rightarrow> Destination \<Rightarrow> (string \<times> OverrideState) list \<Rightarrow> (string \<times> OverrideState) list" where
  "mark_destination rewrite_host dest needs =
     AList.map_entry (dest_upstream dest)
       (\<lambda>s. \<lparr>referenced = True, missing_rewrite = missing_rewrite s \<or> \<not> rewrite_host\<rparr>) needs"

definition mark_route ::
  "Route \<Rightarrow> (string \<times> OverrideState) list \<Rightarrow> (string \<times> OverrideState) list" where
  "mark_route route needs =
     (case r_action route of
        Action_Forward dests \<Rightarrow>
          fold (mark_destination (rw_host (r_rewrite route) \<noteq> RewriteHost_Disabled)) dests needs
      | _ \<Rightarrow> needs)"

definition validate_sni_auto_requires_dns_or_rewrite ::
  "externs \<Rightarrow> VirtualHost list \<Rightarrow> Upstream list \<Rightarrow> verdict" where
  "validate_sni_auto_requires_dns_or_rewrite ext vhosts us =
     and_then (try_fold collect_override [] us) (\<lambda>needs.
       if needs = [] then Inr ()
       else let marked = fold (\<lambda>vhost. fold mark_route (vh_paths vhost)) vhosts needs in
         try_each (\<lambda>(name, s). fail_if (referenced s \<and> missing_rewrite s) (UpstreamTlsAutoSniRequiresDns name))
           (hash_order ext marked))"

text \<open>\<open>seen.insert(port, label)\<close> reports the label that was there.\<close>

definition claim_port ::
  "(u16 \<rightharpoonup> string) \<Rightarrow> u16 \<times> string \<Rightarrow> CoreValidationError + (u16 \<rightharpoonup> string)" where
  "claim_port seen pl =
     (case seen (fst pl) of
        Some existing \<Rightarrow> Inl (PortConflict (fst pl) existing (snd pl))
      | None \<Rightarrow> Inr (seen(fst pl \<mapsto> snd pl)))"

definition listener_label :: "Listener \<Rightarrow> u16 \<times> string" where
  "listener_label l = (sa_port (l_address l), ''listener '' @ quoted (l_name l))"

definition validate_port_conflicts :: "RuntimeConfig \<Rightarrow> verdict" where
  "validate_port_conflicts config =
     and_then (try_fold claim_port Map.empty (map listener_label (listeners config))) (\<lambda>seen.
     and_then (case admin config of
         Admin_Enabled addr \<Rightarrow> claim_port seen (sa_port addr, ''admin'') | Admin_Disabled \<Rightarrow> Inr seen) (\<lambda>seen.
     and_then (case t_metrics (telemetry config) of
         Metrics_Enabled addr \<Rightarrow> claim_port seen (sa_port addr, ''metrics'') | Metrics_Disabled \<Rightarrow> Inr seen) (\<lambda>_.
       Inr ())))"

definition validate_shutdown :: "ShutdownPolicy \<Rightarrow> verdict" where
  "validate_shutdown p = (case p of Shutdown_Disabled \<Rightarrow> Inr () | Shutdown_Enabled drain_timeout \<Rightarrow> Inr ())"

definition validate_admin :: "AdminConfig \<Rightarrow> verdict" where
  "validate_admin c = (case c of Admin_Disabled \<Rightarrow> Inr () | Admin_Enabled addr \<Rightarrow> Inr ())"

definition SUPPORTED_CAPABILITIES :: "string list" where
  "SUPPORTED_CAPABILITIES = [''advanced_matchers'']"

definition validate_required_capabilities :: "string list \<Rightarrow> verdict" where
  "validate_required_capabilities caps =
     try_each (\<lambda>c. fail_if (c \<notin> set SUPPORTED_CAPABILITIES) (UnsupportedCapability c)) caps"

text \<open>
  \<open>validate_runtime\<close>; the \<open>ValidatedRuntimeConfig\<close> it returns wraps the configuration it is given.
\<close>

definition validate_runtime ::
  "externs \<Rightarrow> regex_cache \<Rightarrow> RuntimeConfig \<Rightarrow> (CoreValidationError + RuntimeConfig) \<times> regex_cache" where
  "validate_runtime ext cache config =
     (case and_then (try_fold validate_listener {} (listeners config)) (\<lambda>_.
           and_then (try_distinct vh_host (\<lambda>v. DuplicateVirtualHost (vh_host v)) {} (routes config)) (\<lambda>_.
             validate_upstreams (upstreams config))) of
        Inl e \<Rightarrow> (Inl e, cache)
      | Inr _ \<Rightarrow>
          case validate_routes ext cache (routes config) (upstreams config) of
            (Inl e, cache') \<Rightarrow> (Inl e, cache')
          | (Inr _, cache') \<Rightarrow>
              (and_then (validate_sni_auto_requires_dns_or_rewrite ext (routes config) (upstreams config)) (\<lambda>_.
               and_then (validate_port_conflicts config) (\<lambda>_.
               and_then (validate_shutdown (shutdown config)) (\<lambda>_.
               and_then (validate_admin (admin config)) (\<lambda>_.
               and_then (validate_required_capabilities (required_capabilities config)) (\<lambda>_.
                 Inr config))))), cache'))"

section \<open>What an accepted configuration satisfies\<close>

fun health_ok :: "ActiveHealthCheck \<Rightarrow> bool" where
  "health_ok Health_Disabled \<longleftrightarrow> True"
| "health_ok (Health_Enabled p interval timeout) \<longleftrightarrow>
     starts_with p ''/'' \<and> CHR '' '' \<notin> set p \<and> timeout \<le> interval"

definition upstream_ok :: "Upstream \<Rightarrow> bool" where
  "upstream_ok u \<longleftrightarrow> u_name u \<noteq> [] \<and> health_ok (u_health_check u) \<and>
     (\<forall>t. u_tls u = TlsPolicy_Enabled t \<longrightarrow>
        (tls_verify t = Verify_Full \<longrightarrow> tls_sni t \<noteq> Sni_Disabled) \<and>
        (tls_verify t = Verify_Disabled \<longrightarrow> tls_reuse_across_sni t = Reuse_Disabled))"

definition listener_ok :: "Listener \<Rightarrow> bool" where
  "listener_ok l \<longleftrightarrow> (\<forall>c k a. l_tls l = TlsConfig_Enabled c k a \<longrightarrow>
     c \<noteq> [] \<and> k \<noteq> [] \<and> a \<noteq> ClientAuth_Optional [] \<and> a \<noteq> ClientAuth_Required [])"

definition name_ok :: "externs \<Rightarrow> string \<Rightarrow> bool" where
  "name_ok ext n \<longleftrightarrow> n \<noteq> [] \<and> header_name_ok ext n"

definition headers_ok :: "externs \<Rightarrow> HeadersPolicy \<Rightarrow> bool" where
  "headers_ok ext p \<longleftrightarrow> (\<forall>rules. p = Headers_Enabled rules \<longrightarrow>
     (\<forall>(n, v)\<in>set (set_headers rules @ append_headers rules @ add_headers rules).
        name_ok ext n \<and> header_value_ok ext v) \<and>
     (\<forall>n\<in>set (remove_headers rules). name_ok ext n))"

definition action_ok :: "string set \<Rightarrow> RouteAction \<Rightarrow> bool" where
  "action_ok names a \<longleftrightarrow> (\<forall>dests. a = Action_Forward dests \<longrightarrow>
     dests \<noteq> [] \<and> dest_upstream ` set dests \<subseteq> names)"

definition normal_path :: "string \<Rightarrow> bool" where
  "normal_path p \<longleftrightarrow> p = ''/'' \<or> (\<exists>q c. p = ''/'' @ q @ [c] \<and> c \<noteq> CHR ''/'')"

fun path_ok :: "externs \<Rightarrow> RewritePath \<Rightarrow> PathMatch \<Rightarrow> bool" where
  "path_ok ext rw (Path_Regex p) \<longleftrightarrow>
     length p \<le> 2048 \<and> regex_compile ext p = Inr () \<and> rw = RewritePath_Disabled"
| "path_ok ext rw (Path_Prefix p) \<longleftrightarrow> normal_path p"
| "path_ok ext rw (Path_Exact p) \<longleftrightarrow> normal_path p"

definition route_ok :: "externs \<Rightarrow> string set \<Rightarrow> Route \<Rightarrow> bool" where
  "route_ok ext names r \<longleftrightarrow>
     path_ok ext (rw_path (r_rewrite r)) (rm_path (r_matcher r)) \<and> headers_ok ext (r_request_headers r)
     \<and> headers_ok ext (r_response_headers r) \<and> action_ok names (r_action r)"

definition vhost_ok :: "externs \<Rightarrow> string set \<Rightarrow> VirtualHost \<Rightarrow> bool" where
  "vhost_ok ext names v \<longleftrightarrow> distinct (map (\<lambda>r. rm_path (r_matcher r)) (vh_paths v))
     \<and> (\<forall>r\<in>set (vh_paths v). route_ok ext names r)"

text \<open>
  An upstream with full verification and automatic SNI needs a name to verify: a canonical SNI, a
  DNS endpoint, or, when connections are not reused across SNI, a host rewrite on every route that
  forwards to it.
\<close>

definition forwards_to :: "Route \<Rightarrow> string \<Rightarrow> bool" where
  "forwards_to r n \<longleftrightarrow> (\<exists>dests. r_action r = Action_Forward dests \<and> n \<in> dest_upstream ` set dests)"

definition sni_ok :: "VirtualHost list \<Rightarrow> Upstream \<Rightarrow> bool" where
  "sni_ok vhosts u \<longleftrightarrow> (\<forall>t. u_tls u = TlsPolicy_Enabled t \<and> tls_verify t = Verify_Full \<and> tls_sni t = Sni_Auto
     \<and> tls_canonical_sni t = CanonicalSni_Disabled
     \<and> \<not> (\<exists>ep\<in>set (u_endpoints u). \<exists>h p. ep_address ep = Endpoint_Dns h p) \<longrightarrow>
       tls_reuse_across_sni t = Reuse_Disabled \<and>
       (\<forall>v\<in>set vhosts. \<forall>r\<in>set (vh_paths v). forwards_to r (u_name u) \<longrightarrow> rw_host (r_rewrite r) \<noteq> RewriteHost_Disabled))"

definition bound_ports :: "RuntimeConfig \<Rightarrow> u16 list" where
  "bound_ports config = map (\<lambda>l. sa_port (l_address l)) (listeners config)
     @ (case admin config of Admin_Enabled a \<Rightarrow> [sa_port a] | Admin_Disabled \<Rightarrow> [])
     @ (case t_metrics (telemetry config) of Metrics_Enabled a \<Rightarrow> [sa_port a] | Metrics_Disabled \<Rightarrow> [])"

definition config_ok :: "externs \<Rightarrow> RuntimeConfig \<Rightarrow> bool" where
  "config_ok ext config \<longleftrightarrow>
     distinct (map l_name (listeners config)) \<and> (\<forall>l\<in>set (listeners config). listener_ok l)
   \<and> distinct (map vh_host (routes config))
   \<and> distinct (map u_name (upstreams config)) \<and> (\<forall>u\<in>set (upstreams config). upstream_ok u)
   \<and> (\<forall>v\<in>set (routes config). vhost_ok ext (u_name ` set (upstreams config)) v)
   \<and> (\<forall>u\<in>set (upstreams config). sni_ok (routes config) u)
   \<and> distinct (bound_ports config)
   \<and> set (required_capabilities config) \<subseteq> {''advanced_matchers''}"

section \<open>The loops with a set of seen keys\<close>

lemma has_dns_iff: "has_dns u \<longleftrightarrow> (\<exists>ep\<in>set (u_endpoints u). \<exists>h p. ep_address ep = Endpoint_Dns h p)"
proof -
  have "(case a of Endpoint_Dns h p \<Rightarrow> True | Endpoint_Ip i p \<Rightarrow> False) \<longleftrightarrow> (\<exists>h p. a = Endpoint_Dns h p)" for a
    by (cases a) auto
  then show ?thesis by (simp add: has_dns_def list_ex_iff)
qed

lemma normal_path_iff: "normal_path p \<longleftrightarrow> \<not> path_not_normalized p"
proof (cases p)
  case (Cons a s)
  then show ?thesis
    by (cases s rule: rev_cases) (auto simp: normal_path_def path_not_normalized_def suffix_def)
qed (simp add: normal_path_def path_not_normalized_def)

lemma health_ok_iff:
  "health_ok h \<longleftrightarrow> (case h of Health_Disabled \<Rightarrow> True
     | Health_Enabled p i t \<Rightarrow> \<not> bad_health_path p \<and> \<not> t > i)"
  by (cases h) (auto simp: bad_health_path_def)

lemma tls_ok_iff:
  "(\<forall>t. p = TlsPolicy_Enabled t \<longrightarrow>
      (tls_verify t = Verify_Full \<longrightarrow> tls_sni t \<noteq> Sni_Disabled) \<and>
      (tls_verify t = Verify_Disabled \<longrightarrow> tls_reuse_across_sni t = Reuse_Disabled))
   \<longleftrightarrow> \<not> tls_sni_disabled p \<and> \<not> tls_reuse_unverified p"
  by (cases p) (auto intro: ReuseAcrossSni.exhaust)

lemma validate_upstream_Inr:
  "validate_upstream names u = Inr s \<longleftrightarrow> u_name u \<notin> names \<and> upstream_ok u \<and> s = insert (u_name u) names"
  unfolding upstream_ok_def tls_ok_iff health_ok_iff validate_upstream_def
  by (auto split: ActiveHealthCheck.splits)

interpretation upstream_loop: seen_loop validate_upstream u_name upstream_ok "\<lambda>s. s"
  by unfold_locales (auto simp: validate_upstream_Inr)

lemma validate_listener_tls_Inr:
  "validate_listener_tls (l_tls l) = Inr x \<longleftrightarrow> listener_ok l"
  by (cases "l_tls l") (auto simp: listener_ok_def fail_if_eq_Inr split: ClientAuth.splits)

interpretation listener_loop: seen_loop validate_listener l_name listener_ok "\<lambda>s. s"
  by unfold_locales (auto simp: validate_listener_def result_simps validate_listener_tls_Inr
      split: if_splits)

interpretation port_loop: seen_loop claim_port fst "\<lambda>_. True" dom
  by unfold_locales (auto simp: claim_port_def split: option.splits)

section \<open>Routes without the cache\<close>

text \<open>
  A cache is sound when its lock is not poisoned and it holds only patterns that compile. Other
  threads run the same code, so their interference keeps it sound.
\<close>

definition cache_sound :: "externs \<Rightarrow> regex_cache \<Rightarrow> bool" where
  "cache_sound ext c \<longleftrightarrow> \<not> poisoned c \<and> (\<forall>p\<in>set (cached c). regex_compile ext p = Inr ())"

definition externs_ok :: "externs \<Rightarrow> bool" where
  "externs_ok ext \<longleftrightarrow> (\<forall>c. cache_sound ext c \<longrightarrow> cache_sound ext (interfere ext c))
     \<and> (\<forall>xs. set (hash_order ext xs) = set xs)"

definition validate_regex :: "externs \<Rightarrow> string \<Rightarrow> string \<Rightarrow> verdict" where
  "validate_regex ext path host = map_err (InvalidRegex host path) (regex_compile ext path)"

lemma validate_regex_cached:
  assumes "externs_ok ext" "cache_sound ext c"
  shows "fst (validate_regex_with_cache ext c path host) = validate_regex ext path host
    \<and> cache_sound ext (snd (validate_regex_with_cache ext c path host))"
proof -
  have "cache_sound ext (interfere ext c)" using assms by (simp add: externs_ok_def)
  with assms(2) show ?thesis
    by (cases "regex_compile ext path")
      (auto simp: validate_regex_with_cache_def validate_regex_def cache_sound_def Let_def)
qed

text \<open>The loop body with the regex compiled every time.\<close>

definition check_route ::
  "externs \<Rightarrow> string set \<Rightarrow> VirtualHost \<Rightarrow> (string \<times> string) set \<Rightarrow> Route
   \<Rightarrow> CoreValidationError + (string \<times> string) set" where
  "check_route ext names vhost seen route =
     (let m = rm_path (r_matcher route); path = match_path m; key = (match_type m, path) in
      if match_type m \<noteq> ''regex'' \<and> path_not_normalized path then Inl (PathNotNormalized path)
      else if key \<in> seen then Inl (DuplicateRoute (vh_host vhost) path (match_type m))
      else and_then (if match_type m = ''regex''
          then if length path > 2048 then Inl (RegexTooLong path)
            else and_then (validate_regex ext path (vh_host vhost)) (\<lambda>_.
              fail_if (rw_path (r_rewrite route) \<noteq> RewritePath_Disabled)
                (RewriteRegexConflict path (vh_host vhost)))
          else Inr ()) (\<lambda>_.
        and_then (validate_route_rest ext names vhost route) (\<lambda>_. Inr (insert key seen))))"

lemma validate_route_check:
  assumes "externs_ok ext" "cache_sound ext c"
  shows "fst (validate_route ext names v seen c r) = check_route ext names v seen r
    \<and> cache_sound ext (snd (validate_route ext names v seen c r))"
proof -
  obtain x c' where x: "validate_regex_with_cache ext c (match_path (rm_path (r_matcher r))) (vh_host v) = (x, c')"
    by fastforce
  with validate_regex_cached [OF assms, of "match_path (rm_path (r_matcher r))" "vh_host v"]
  have "validate_regex ext (match_path (rm_path (r_matcher r))) (vh_host v) = x" "cache_sound ext c'"
    by simp_all
  with x assms(2) show ?thesis
    by (cases x) (simp_all add: validate_route_def check_route_def Let_def fail_if_def)
qed

definition check_vhost :: "externs \<Rightarrow> string set \<Rightarrow> VirtualHost \<Rightarrow> verdict" where
  "check_vhost ext names v =
     and_then (try_fold (check_route ext names v) {} (vh_paths v)) (\<lambda>_. Inr ())"

lemma validate_vhost_check:
  assumes "externs_ok ext" "cache_sound ext c"
  shows "fst (validate_vhost ext names u c v) = check_vhost ext names v
    \<and> cache_sound ext (snd (validate_vhost ext names u c v))"
proof -
  obtain x c' where x: "try_fold_st (validate_route ext names v) {} c (vh_paths v) = (x, c')"
    by fastforce
  have "fst (try_fold_st (validate_route ext names v) {} c (vh_paths v))
      = try_fold (check_route ext names v) {} (vh_paths v)
      \<and> cache_sound ext (snd (try_fold_st (validate_route ext names v) {} c (vh_paths v)))"
    by (rule try_fold_st_pure) (use assms in \<open>simp_all add: validate_route_check\<close>)
  then have "try_fold (check_route ext names v) {} (vh_paths v) = x" "cache_sound ext c'"
    by (simp_all add: x)
  with x show ?thesis by (cases x) (simp_all add: validate_vhost_def check_vhost_def)
qed

lemma try_fold_unit: "try_fold (\<lambda>u. f) () xs = try_each f xs"
  by (induction xs) auto

lemma validate_routes_check:
  assumes "externs_ok ext" "cache_sound ext c"
  shows "fst (validate_routes ext c vhosts us) = try_each (check_vhost ext (u_name ` set us)) vhosts
    \<and> cache_sound ext (snd (validate_routes ext c vhosts us))"
proof -
  have "fst (try_fold_st (validate_vhost ext (u_name ` set us)) () c vhosts)
      = try_fold (\<lambda>_. check_vhost ext (u_name ` set us)) () vhosts
      \<and> cache_sound ext (snd (try_fold_st (validate_vhost ext (u_name ` set us)) () c vhosts))"
    by (rule try_fold_st_pure) (use assms in \<open>simp_all add: validate_vhost_check\<close>)
  then show ?thesis by (simp add: validate_routes_def try_fold_unit)
qed

subsection \<open>Accepted routes\<close>

lemma validate_name_Inr: "validate_name ext cxt n = Inr u \<longleftrightarrow> name_ok ext n"
  by (simp add: validate_name_def name_ok_def)

lemma validate_pair_Inr:
  "validate_pair ext cxt nv = Inr u \<longleftrightarrow> name_ok ext (fst nv) \<and> header_value_ok ext (snd nv)"
  by (simp add: validate_pair_def result_simps validate_name_Inr)

lemma validate_headers_Inr: "validate_headers ext p cxt = Inr u \<longleftrightarrow> headers_ok ext p"
  by (cases p)
    (auto simp: headers_ok_def result_simps validate_name_Inr validate_pair_Inr split_beta ball_Un)

lemma validate_action_Inr: "validate_action a r v names = Inr u \<longleftrightarrow> action_ok names a"
  by (cases a) (auto simp: action_ok_def result_simps)

lemma validate_route_rest_Inr:
  "validate_route_rest ext names v r = Inr u \<longleftrightarrow>
     headers_ok ext (r_request_headers r) \<and> headers_ok ext (r_response_headers r) \<and> action_ok names (r_action r)"
  by (simp add: validate_route_rest_def result_simps validate_headers_Inr validate_action_Inr)

definition route_key :: "Route \<Rightarrow> string \<times> string" where
  "route_key r = (match_type (rm_path (r_matcher r)), match_path (rm_path (r_matcher r)))"

lemma match_key_inj: "match_type a = match_type b \<Longrightarrow> match_path a = match_path b \<Longrightarrow> a = b"
  by (cases a; cases b) auto

lemma distinct_route_keys:
  "distinct (map route_key rs) \<longleftrightarrow> distinct (map (\<lambda>r. rm_path (r_matcher r)) rs)"
  by (auto simp: distinct_map inj_on_def route_key_def dest: match_key_inj)

lemma check_route_Inr:
  "check_route ext names v seen r = Inr s \<longleftrightarrow>
     route_key r \<notin> seen \<and> route_ok ext names r \<and> s = insert (route_key r) seen"
  by (cases "rm_path (r_matcher r)")
    (auto simp: check_route_def route_key_def route_ok_def Let_def result_simps validate_regex_def
      validate_route_rest_Inr normal_path_iff)

interpretation route_loop: seen_loop "check_route ext names v" route_key "route_ok ext names" "\<lambda>s. s"
  for ext names v
  by unfold_locales (auto simp: check_route_Inr)

lemma check_vhost_Inr: "check_vhost ext names v = Inr u \<longleftrightarrow> vhost_ok ext names v"
  using route_loop.loop_iff [where s = "{}" and xs = "vh_paths v"]
  by (auto simp: check_vhost_def vhost_ok_def result_simps distinct_route_keys)

section \<open>Automatic SNI\<close>

definition needs_rewrite :: "Upstream \<Rightarrow> bool" where
  "needs_rewrite u \<longleftrightarrow> (\<exists>t. u_tls u = TlsPolicy_Enabled t \<and> tls_verify t = Verify_Full \<and> tls_sni t = Sni_Auto
     \<and> tls_canonical_sni t = CanonicalSni_Disabled \<and> tls_reuse_across_sni t = Reuse_Disabled \<and> \<not> has_dns u)"

definition reuse_without_name :: "Upstream \<Rightarrow> bool" where
  "reuse_without_name u \<longleftrightarrow> (\<exists>t. u_tls u = TlsPolicy_Enabled t \<and> tls_verify t = Verify_Full
     \<and> tls_sni t = Sni_Auto \<and> tls_canonical_sni t = CanonicalSni_Disabled
     \<and> tls_reuse_across_sni t = Reuse_Enabled \<and> \<not> has_dns u)"

lemma collect_override_eq:
  "collect_override needs u =
     (if reuse_without_name u then Inl (UpstreamTlsAutoSniRequiresDns (u_name u))
      else if needs_rewrite u
        then Inr (AList.update (u_name u) \<lparr>referenced = False, missing_rewrite = False\<rparr> needs)
      else Inr needs)"
proof (cases "u_tls u")
  case (TlsPolicy_Enabled t)
  then show ?thesis
    by (cases "tls_reuse_across_sni t")
      (auto simp: collect_override_def reuse_without_name_def needs_rewrite_def)
qed (simp add: collect_override_def reuse_without_name_def needs_rewrite_def)

lemma collect_overrides:
  "try_fold collect_override needs us = Inr needs' \<Longrightarrow>
     (\<forall>u\<in>set us. \<not> reuse_without_name u) \<and> dom (map_of needs') = dom (map_of needs) \<union> u_name ` {u \<in> set us. needs_rewrite u}
     \<and> ((\<forall>s\<in>ran (map_of needs). \<not> missing_rewrite s) \<longrightarrow> (\<forall>s\<in>ran (map_of needs'). \<not> missing_rewrite s))
     \<and> (distinct (map fst needs) \<longrightarrow> distinct (map fst needs'))"
proof (induction us arbitrary: needs)
  case (Cons u us)
  then obtain t where t: "collect_override needs u = Inr t" "try_fold collect_override t us = Inr needs'"
    by (auto simp: result_simps)
  have "dom (map_of t) = dom (map_of needs) \<union> u_name ` {w \<in> {u}. needs_rewrite w}"
    "\<not> reuse_without_name u" "distinct (map fst needs) \<longrightarrow> distinct (map fst t)"
    "(\<forall>s\<in>ran (map_of needs). \<not> missing_rewrite s) \<longrightarrow> (\<forall>s\<in>ran (map_of t). \<not> missing_rewrite s)"
    using t(1)
    by (auto simp: collect_override_eq update_conv' distinct_update ran_def split: if_splits) blast
  with Cons.IH [OF t(2)] show ?case by auto
qed simp

lemma collect_overrides_total:
  "\<forall>u\<in>set us. \<not> reuse_without_name u \<Longrightarrow> \<exists>needs'. try_fold collect_override needs us = Inr needs'"
  by (induction us arbitrary: needs) (auto simp: collect_override_eq)

text \<open>The marks an upstream has after the routes were walked.\<close>

definition marked_by :: "Route \<Rightarrow> string \<Rightarrow> OverrideState \<Rightarrow> OverrideState" where
  "marked_by r n s = \<lparr>referenced = referenced s \<or> forwards_to r n,
     missing_rewrite = missing_rewrite s \<or> forwards_to r n \<and> rw_host (r_rewrite r) = RewriteHost_Disabled\<rparr>"

lemma map_of_mark_destinations:
  "map_of (fold (mark_destination b) ds needs) n =
     map_option (\<lambda>s. \<lparr>referenced = referenced s \<or> n \<in> dest_upstream ` set ds,
       missing_rewrite = missing_rewrite s \<or> n \<in> dest_upstream ` set ds \<and> \<not> b\<rparr>) (map_of needs n)"
proof (induction ds arbitrary: needs)
  case Nil
  then show ?case by (simp add: option.map_ident_strong)
next
  case (Cons d ds)
  then show ?case
    by (cases "map_of needs n") (auto simp: mark_destination_def map_of_map_entry split: option.splits)
qed

lemma map_of_mark_route: "map_of (mark_route r needs) n = map_option (marked_by r n) (map_of needs n)"
  by (cases "r_action r"; cases "map_of needs n")
    (auto simp: mark_route_def map_of_mark_destinations marked_by_def forwards_to_def)

lemma map_of_mark_routes:
  "map_of (fold mark_route rs needs) n =
     map_option (\<lambda>s. \<lparr>referenced = referenced s \<or> (\<exists>r\<in>set rs. forwards_to r n),
       missing_rewrite = missing_rewrite s \<or>
         (\<exists>r\<in>set rs. forwards_to r n \<and> rw_host (r_rewrite r) = RewriteHost_Disabled)\<rparr>) (map_of needs n)"
proof (induction rs arbitrary: needs)
  case Nil
  then show ?case by (simp add: option.map_ident_strong)
next
  case (Cons r rs)
  then show ?case
    by (cases "map_of needs n") (auto simp: map_of_mark_route marked_by_def)
qed

lemma mark_routes_Nil: "fold mark_route rs [] = []"
proof -
  have "mark_route r [] = []" for r
  proof -
    have "fold (mark_destination b) ds [] = []" for b ds
      by (induction ds) (simp_all add: mark_destination_def)
    then show ?thesis by (simp add: mark_route_def split: RouteAction.splits)
  qed
  then show ?thesis by (induction rs) simp_all
qed

lemma fold_vhosts: "fold (\<lambda>v. fold mark_route (vh_paths v)) vs needs = fold mark_route (concat (map vh_paths vs)) needs"
  by (induction vs arbitrary: needs) auto

lemma distinct_mark_destinations:
  "distinct (map fst needs) \<Longrightarrow> distinct (map fst (fold (mark_destination b) ds needs))"
  by (induction ds arbitrary: needs) (auto simp: mark_destination_def distinct_map_entry)

lemma distinct_mark_routes: "distinct (map fst needs) \<Longrightarrow> distinct (map fst (fold mark_route rs needs))"
proof (induction rs arbitrary: needs)
  case (Cons r rs)
  have "distinct (map fst (mark_route r needs))"
    using Cons.prems by (auto simp: mark_route_def distinct_mark_destinations split: RouteAction.splits)
  with Cons.IH show ?case by simp
qed simp

text \<open>An upstream in \<open>needs_override\<close> passes when no route that forwards to it lacks a host rewrite.\<close>

lemma validate_sni_Inr:
  assumes "externs_ok ext"
  shows "validate_sni_auto_requires_dns_or_rewrite ext vhosts us = Inr x \<longleftrightarrow>
    (\<forall>u\<in>set us. sni_ok vhosts u)"
proof -
  define bad where "bad n \<longleftrightarrow> (\<exists>r\<in>set (concat (map vh_paths vhosts)). forwards_to r n
      \<and> rw_host (r_rewrite r) = RewriteHost_Disabled)" for n
  have split: "sni_ok vhosts u \<longleftrightarrow> \<not> reuse_without_name u \<and> (needs_rewrite u \<longrightarrow> \<not> bad (u_name u))" for u
    unfolding sni_ok_def reuse_without_name_def needs_rewrite_def bad_def has_dns_iff [symmetric]
    by (cases "u_tls u") (auto, (meson ReuseAcrossSni.exhaust)+)
  show ?thesis
  proof (cases "\<exists>u\<in>set us. reuse_without_name u")
    case True
    then have "\<nexists>needs. try_fold collect_override [] us = Inr needs"
      using collect_overrides by blast
    with True show ?thesis
      by (auto simp: validate_sni_auto_requires_dns_or_rewrite_def result_simps split)
  next
    case False
    then obtain needs where needs: "try_fold collect_override [] us = Inr needs"
      using collect_overrides_total by blast
    from collect_overrides [OF this]
    have dom: "dom (map_of needs) = u_name ` {u \<in> set us. needs_rewrite u}"
      and fresh: "\<And>n s. map_of needs n = Some s \<Longrightarrow> \<not> missing_rewrite s"
      and dist: "distinct (map fst needs)"
      by (auto simp: ran_def) blast
    define marked where "marked = fold mark_route (concat (map vh_paths vhosts)) needs"
    have "validate_sni_auto_requires_dns_or_rewrite ext vhosts us = Inr x \<longleftrightarrow>
        (\<forall>(n, s)\<in>set marked. \<not> (referenced s \<and> missing_rewrite s))"
      using assms by (auto simp: validate_sni_auto_requires_dns_or_rewrite_def needs fold_vhosts marked_def
          result_simps externs_ok_def split_beta mark_routes_Nil)
    also have "\<dots> \<longleftrightarrow> (\<forall>n s. map_of marked n = Some s \<longrightarrow> \<not> (referenced s \<and> missing_rewrite s))"
      using distinct_mark_routes [OF dist] by (auto simp: marked_def map_of_eq_Some_iff split_beta)
    also have "\<dots> \<longleftrightarrow> (\<forall>n\<in>dom (map_of needs). \<not> bad n)"
    proof -
      have "(referenced s \<and> missing_rewrite s) = bad n" if "map_of marked n = Some s" for n s
        using that fresh [of n] by (auto simp: marked_def map_of_mark_routes bad_def) blast+
      moreover have "dom (map_of marked) = dom (map_of needs)"
        by (auto simp: marked_def map_of_mark_routes dom_def)
      ultimately show ?thesis by (metis domD domI)
    qed
    also have "\<dots> \<longleftrightarrow> (\<forall>u\<in>set us. sni_ok vhosts u)"
      using False by (simp add: dom split) auto
    finally show ?thesis .
  qed
qed

section \<open>Properties\<close>

lemma validate_port_conflicts_Inr: "validate_port_conflicts config = Inr u \<longleftrightarrow> distinct (bound_ports config)"
proof -
  define pls where "pls = map listener_label (listeners config)
    @ (case admin config of Admin_Enabled a \<Rightarrow> [(sa_port a, ''admin'')] | Admin_Disabled \<Rightarrow> [])
    @ (case t_metrics (telemetry config) of Metrics_Enabled a \<Rightarrow> [(sa_port a, ''metrics'')] | Metrics_Disabled \<Rightarrow> [])"
  have "validate_port_conflicts config = Inr u \<longleftrightarrow> (\<exists>s. try_fold claim_port Map.empty pls = Inr s)"
    by (cases "admin config"; cases "t_metrics (telemetry config)")
      (auto simp: validate_port_conflicts_def pls_def try_fold_append result_simps)
  also have "\<dots> \<longleftrightarrow> distinct (map fst pls)"
    by (simp add: port_loop.loop_iff)
  also have "map fst pls = bound_ports config"
    by (simp add: pls_def bound_ports_def listener_label_def split: AdminConfig.splits Metrics.splits)
  finally show ?thesis .
qed

lemma validate_required_capabilities_Inr:
  "validate_required_capabilities caps = Inr u \<longleftrightarrow> set caps \<subseteq> {''advanced_matchers''}"
  by (auto simp: validate_required_capabilities_def SUPPORTED_CAPABILITIES_def result_simps)

lemma validate_upstreams_Inr:
  "validate_upstreams us = Inr u \<longleftrightarrow> distinct (map u_name us) \<and> (\<forall>u\<in>set us. upstream_ok u)"
  using upstream_loop.loop_iff [of "{}" us] by (auto simp: validate_upstreams_def result_simps)

lemma validate_runtime_ok_iff:
  assumes "externs_ok ext" "cache_sound ext cache"
  shows "fst (validate_runtime ext cache config) = Inr c \<longleftrightarrow> c = config \<and> config_ok ext config"
proof -
  have late: "validate_shutdown p = Inr ()" "validate_admin a = Inr ()" for p a
    by (simp_all add: validate_shutdown_def validate_admin_def split: ShutdownPolicy.splits AdminConfig.splits)
  define early where "early = and_then (try_fold validate_listener {} (listeners config)) (\<lambda>_.
    and_then (try_distinct vh_host (\<lambda>v. DuplicateVirtualHost (vh_host v)) {} (routes config)) (\<lambda>_.
      validate_upstreams (upstreams config)))"
  have "(fst (validate_runtime ext cache config) = Inr c) \<longleftrightarrow> c = config \<and> early = Inr ()
      \<and> fst (validate_routes ext cache (routes config) (upstreams config)) = Inr ()
      \<and> validate_sni_auto_requires_dns_or_rewrite ext (routes config) (upstreams config) = Inr ()
      \<and> validate_port_conflicts config = Inr ()
      \<and> validate_required_capabilities (required_capabilities config) = Inr ()"
    by (cases early; cases "validate_routes ext cache (routes config) (upstreams config)")
      (auto simp: validate_runtime_def late result_simps simp flip: early_def split: sum.splits)
  also have "\<dots> \<longleftrightarrow> c = config \<and> config_ok ext config"
    using assms validate_routes_check [OF assms] listener_loop.loop_iff [of "{}" "listeners config"]
    by (simp add: early_def config_ok_def validate_upstreams_Inr validate_port_conflicts_Inr validate_sni_Inr
        validate_required_capabilities_Inr result_simps check_vhost_Inr)
  finally show ?thesis .
qed

text \<open>
  C10: \<open>validate_runtime\<close> returns its configuration exactly when it is well-formed: names of
  listeners, upstreams and virtual hosts are unique, TLS files and SNI are as required, every route
  has a path that is normalised or compiles, valid headers and only known upstreams as
  destinations, no two sockets share a port, and only supported capabilities are asked for. A route with
  a regex must not rewrite the path; a rewrite of the host is accepted, although the documentation excludes every
  rewrite. The regex cache never changes this, as long as it is sound.
\<close>

theorem validate_runtime_iff:
  assumes "externs_ok ext" "cache_sound ext cache"
  shows "fst (validate_runtime ext cache config) = Inr c \<longleftrightarrow> c = config \<and> config_ok ext config"
  using assms by (rule validate_runtime_ok_iff)

text \<open>A small accepted configuration.\<close>

definition sample_externs :: externs where
  "sample_externs = \<lparr>header_name_ok = \<lambda>_. True, header_value_ok = \<lambda>_. True,
     regex_compile = \<lambda>p. if p = ''('' then Inl ''unclosed group'' else Inr (),
     interfere = \<lambda>c. c, hash_order = \<lambda>xs. xs\<rparr>"

definition sample_upstream :: Upstream where
  "sample_upstream = \<lparr>u_id = 1, u_name = ''backend'', u_discovery = Discovery_Static, u_balancer = RoundRobin,
     u_protocol = H1, u_pool = pool_default, u_outlier_detection = Outlier_Disabled,
     u_circuit_breaker = Breaker_Disabled, u_health_check = Health_Enabled ''/healthz'' 1000 500,
     u_tls = TlsPolicy_Disabled,
     u_endpoints = [\<lparr>ep_address = Endpoint_Ip (V4 0x7F000001) 8080, ep_weight = 1\<rparr>]\<rparr>"

definition sample_route :: "PathMatch \<Rightarrow> Route" where
  "sample_route m = \<lparr>r_matcher = \<lparr>rm_path = m, rm_method = Method_Any, rm_headers = Predicates_None\<rparr>,
     r_timeout = Timeout_Disabled, r_retry = Retry_Disabled, r_request_headers = Headers_Disabled,
     r_response_headers = Headers_Disabled,
     r_rewrite = \<lparr>rw_path = RewritePath_Disabled, rw_host = RewriteHost_Disabled\<rparr>,
     r_action = Action_Forward [\<lparr>dest_upstream = ''backend'', dest_weight = 1\<rparr>], r_principal = Principal_Any\<rparr>"

definition sample_config :: RuntimeConfig where
  "sample_config = \<lparr>listeners = [\<lparr>l_name = ''main'', l_address = \<lparr>sa_ip = V4 0, sa_port = 8443\<rparr>,
       l_workers = Workers_Auto, l_tls = TlsConfig_Enabled ''/c.pem'' ''/k.pem'' ClientAuth_Disabled\<rparr>],
     telemetry = \<lparr>t_level = Log_Info, t_pingora = Log_Warn, t_service_name = ''pavis'',
       t_metrics = Metrics_Enabled \<lparr>sa_ip = V4 0, sa_port = 9090\<rparr>, t_access_log = AccessLog_Stdout,
       t_tracing = Tracing_Disabled\<rparr>,
     upstreams = [sample_upstream],
     routes = [\<lparr>vh_host = ''example.com'',
       vh_paths = [sample_route (Path_Exact ''/a''), sample_route (Path_Regex ''^/b'')]\<rparr>],
     shutdown = Shutdown_Disabled, admin = Admin_Disabled, features = routing_features_default,
     required_capabilities = []\<rparr>"

lemma sample_externs_ok: "externs_ok sample_externs" "cache_sound sample_externs \<lparr>cached = [], poisoned = False\<rparr>"
  by (simp_all add: externs_ok_def sample_externs_def cache_sound_def)

lemma sample_config_ok: "config_ok sample_externs sample_config"
  by (simp add: config_ok_def sample_config_def listener_ok_def sample_upstream_def upstream_ok_def
      vhost_ok_def route_ok_def sample_route_def headers_ok_def action_ok_def normal_path_iff path_not_normalized_def
      sample_externs_def sni_ok_def bound_ports_def suffix_def)

theorem validate_runtime_iff_witness:
  "fst (validate_runtime sample_externs \<lparr>cached = [], poisoned = False\<rparr> sample_config) = Inr sample_config"
  using validate_runtime_iff [OF sample_externs_ok, of sample_config sample_config] sample_config_ok by simp

text \<open>
  The regex cache is transparent. From any two sound caches \<open>validate_runtime\<close> reports the
  same verdict, the error included, and leaves a sound cache behind.
\<close>

theorem validate_runtime_cache_transparent:
  assumes "externs_ok ext" "cache_sound ext c1" "cache_sound ext c2"
  shows "fst (validate_runtime ext c1 config) = fst (validate_runtime ext c2 config)
    \<and> cache_sound ext (snd (validate_runtime ext c1 config))"
proof -
  have "fst (validate_routes ext c1 (routes config) (upstreams config))
      = fst (validate_routes ext c2 (routes config) (upstreams config))"
    "cache_sound ext (snd (validate_routes ext c1 (routes config) (upstreams config)))"
    using validate_routes_check [OF assms(1)] assms(2,3) by simp_all
  then show ?thesis
    using assms(2) by (auto simp: validate_runtime_def split: sum.splits prod.splits)
qed

theorem validate_runtime_cache_transparent_witness:
  "fst (validate_runtime sample_externs \<lparr>cached = [], poisoned = False\<rparr> sample_config)
   = fst (validate_runtime sample_externs \<lparr>cached = [''^/b''], poisoned = False\<rparr> sample_config)"
  using validate_runtime_cache_transparent [OF sample_externs_ok,
      of "\<lparr>cached = [''^/b''], poisoned = False\<rparr>" sample_config]
  by (simp add: sample_externs_def cache_sound_def)

lemma config_ok_route:
  assumes "config_ok ext c" "v \<in> set (routes c)" "r \<in> set (vh_paths v)"
  shows "route_ok ext (u_name ` set (upstreams c)) r"
  using assms unfolding config_ok_def vhost_ok_def by blast

text \<open>
  In an accepted configuration every destination of every route is the name of exactly one upstream,
  at one position of the list.
\<close>

lemma config_ok_destination:
  assumes ok: "config_ok ext c"
    and "v \<in> set (routes c)" "r \<in> set (vh_paths v)" "r_action r = Action_Forward dests"
  shows "dests \<noteq> []"
    and "d \<in> set dests \<Longrightarrow> \<exists>!i. i < length (upstreams c) \<and> u_name (upstreams c ! i) = dest_upstream d"
proof -
  have act: "action_ok (u_name ` set (upstreams c)) (r_action r)"
    using config_ok_route [OF assms(1-3)] by (simp add: route_ok_def)
  with assms(4) show "dests \<noteq> []" by (simp add: action_ok_def)
  assume "d \<in> set dests"
  with act assms(4) have "dest_upstream d \<in> u_name ` set (upstreams c)" by (auto simp: action_ok_def)
  then obtain i where i: "i < length (upstreams c)" "u_name (upstreams c ! i) = dest_upstream d"
    by (auto simp: in_set_conv_nth)
  moreover have "j = i" if "j < length (upstreams c)" "u_name (upstreams c ! j) = dest_upstream d" for j
    using ok that i nth_eq_iff_index_eq [of "map u_name (upstreams c)" i j] by (simp add: config_ok_def)
  ultimately show "\<exists>!i. i < length (upstreams c) \<and> u_name (upstreams c ! i) = dest_upstream d" by blast
qed

text \<open>Every path regex of an accepted configuration compiles.\<close>

lemma config_ok_regex:
  assumes "config_ok ext c" "v \<in> set (routes c)" "r \<in> set (vh_paths v)" "rm_path (r_matcher r) = Path_Regex p"
  shows "regex_compile ext p = Inr ()"
  using config_ok_route [OF assms(1-3)] assms(4) by (simp add: route_ok_def)

end
