(* ===== verification/Regex_Validator.thy ===== *)
theory Regex_Validator
  imports Core_Types
begin

text \<open>
  The compilation of header regexes when a configuration is applied,
  crates/pavis/src/regex_validator.rs. The regex crate is a parameter: the record \<open>regex_lib\<close> holds
  \<open>regex::Regex::new\<close>, \<open>regex::bytes::Regex::new\<close> and the builder with a size limit. A compiled
  regex is the set of inputs it matches, as a predicate.
\<close>

type_synonym regex = "string \<Rightarrow> bool"

record regex_lib =
  re_new :: "string \<Rightarrow> string + regex"
  re_bytes_new :: "string \<Rightarrow> string + regex"
  re_bytes_build :: "u64 \<Rightarrow> string \<Rightarrow> string + regex"

record CompiledRegex =
  cx_pattern :: string
  cx_compiled :: regex

type_synonym regex_map = "string \<rightharpoonup> CompiledRegex"

definition is_match :: "CompiledRegex \<Rightarrow> string \<Rightarrow> nat \<Rightarrow> bool" where
  "is_match c input max_len = (if length input > max_len then False else cx_compiled c input)"

section \<open>Compilation\<close>

fun count_regexes_in_headers :: "HeaderPredicates \<Rightarrow> nat" where
  "count_regexes_in_headers Predicates_None = 0"
| "count_regexes_in_headers (Predicates_Some preds) =
     length (filter (\<lambda>p. case hp_matcher p of Match_Regex _ \<Rightarrow> True | _ \<Rightarrow> False) preds)"

definition count_regexes_in_route :: "VirtualHost \<Rightarrow> nat" where
  "count_regexes_in_route v = (\<Sum>r\<leftarrow>vh_paths v. count_regexes_in_headers (rm_headers (r_matcher r)))"

definition position_text :: "nat \<Rightarrow> nat \<Rightarrow> nat \<Rightarrow> string \<Rightarrow> string" where
  "position_text route_idx path_idx header_idx header_name =
     ''routes['' @ to_dec route_idx @ ''].paths['' @ to_dec path_idx @ ''].matcher.headers['' @ to_dec header_idx
     @ ''] ('' @ [CHR 0x27] @ header_name @ [CHR 0x27] @ '')''"

definition compile_regex_pattern ::
  "regex_lib \<Rightarrow> RegexLimits \<Rightarrow> string \<Rightarrow> string \<Rightarrow> nat \<Rightarrow> nat \<Rightarrow> nat \<Rightarrow> regex_map \<Rightarrow> string + regex_map" where
  "compile_regex_pattern lib limits pattern header_name route_idx path_idx header_idx compiled =
     (if pattern \<in> dom compiled then Inr compiled
      else and_then (map_err (\<lambda>e. position_text route_idx path_idx header_idx header_name
                @ '': invalid regex syntax: '' @ e) (re_bytes_new lib pattern)) (\<lambda>_.
        and_then (map_err (\<lambda>e. position_text route_idx path_idx header_idx header_name
                @ '': regex compilation failed (exceeds size limit): '' @ e)
              (re_bytes_build lib (size_limit_bytes limits) pattern)) (\<lambda>re.
          Inr (compiled(pattern \<mapsto> \<lparr>cx_pattern = pattern, cx_compiled = re\<rparr>)))))"

definition collect_predicate ::
  "regex_lib \<Rightarrow> RegexLimits \<Rightarrow> nat \<Rightarrow> nat \<Rightarrow> regex_map \<Rightarrow> nat \<times> HeaderPredicate \<Rightarrow> string + regex_map" where
  "collect_predicate lib limits route_idx path_idx compiled ip =
     (case hp_matcher (snd ip) of
        Match_Regex pattern \<Rightarrow>
          compile_regex_pattern lib limits pattern (hp_name (snd ip)) route_idx path_idx (fst ip) compiled
      | _ \<Rightarrow> Inr compiled)"

fun collect_and_compile_from_matcher ::
  "regex_lib \<Rightarrow> RegexLimits \<Rightarrow> HeaderPredicates \<Rightarrow> nat \<Rightarrow> nat \<Rightarrow> regex_map \<Rightarrow> string + regex_map" where
  "collect_and_compile_from_matcher lib limits Predicates_None route_idx path_idx compiled = Inr compiled"
| "collect_and_compile_from_matcher lib limits (Predicates_Some preds) route_idx path_idx compiled =
     try_fold (collect_predicate lib limits route_idx path_idx) compiled (List.enumerate 0 preds)"

text \<open>One iteration of the loop over the virtual hosts; the state is the map and the total count.\<close>

definition compile_vhost ::
  "regex_lib \<Rightarrow> RegexLimits \<Rightarrow> regex_map \<times> nat \<Rightarrow> nat \<times> VirtualHost \<Rightarrow> string + regex_map \<times> nat" where
  "compile_vhost lib limits st iv =
     (let (route_idx, v) = iv; (compiled, total) = st; n = count_regexes_in_route v in
      if n > unat (max_regex_per_route limits)
      then Inl (''routes['' @ to_dec route_idx @ '']: too many regexes ('' @ to_dec n @ '' exceeds limit of ''
             @ to_dec (unat (max_regex_per_route limits)) @ '')'')
      else and_then (try_fold (\<lambda>m (path_idx, r).
             collect_and_compile_from_matcher lib limits (rm_headers (r_matcher r)) route_idx path_idx m)
             compiled (List.enumerate 0 (vh_paths v))) (\<lambda>compiled'.
        Inr (compiled', total + n)))"

definition validate_and_compile_regexes ::
  "regex_lib \<Rightarrow> VirtualHost list \<Rightarrow> RegexLimits \<Rightarrow> string + regex_map" where
  "validate_and_compile_regexes lib vhosts limits =
     and_then (try_fold (compile_vhost lib limits) (Map.empty, 0) (List.enumerate 0 vhosts)) (\<lambda>(compiled, total).
       if total > unat (max_regex_per_config limits)
       then Inl (''routes[*]: too many regexes total ('' @ to_dec total @ '' exceeds limit of ''
              @ to_dec (unat (max_regex_per_config limits)) @ '')'')
       else Inr compiled)"

section \<open>Soundness and completeness of the map\<close>

text \<open>A map is sound when each of its entries is its pattern compiled within the size limit.\<close>

definition regex_map_sound :: "regex_lib \<Rightarrow> RegexLimits \<Rightarrow> regex_map \<Rightarrow> bool" where
  "regex_map_sound lib limits m \<longleftrightarrow> (\<forall>p c. m p = Some c \<longrightarrow>
     cx_pattern c = p \<and> is_ok (re_bytes_new lib p) \<and> re_bytes_build lib (size_limit_bytes limits) p = Inr (cx_compiled c))"

definition pred_patterns :: "HeaderPredicate list \<Rightarrow> string set" where
  "pred_patterns preds = {p. \<exists>q\<in>set preds. hp_matcher q = Match_Regex p}"

definition header_patterns :: "HeaderPredicates \<Rightarrow> string set" where
  "header_patterns h = (case h of Predicates_None \<Rightarrow> {} | Predicates_Some preds \<Rightarrow> pred_patterns preds)"

definition route_patterns :: "Route \<Rightarrow> string set" where
  "route_patterns r = header_patterns (rm_headers (r_matcher r))"

text \<open>
  The contract of every level of the compilation: on success a sound map grows exactly by the
  patterns of what was visited.
\<close>

locale compile_step =
  fixes lib :: regex_lib and limits :: RegexLimits
    and step :: "regex_map \<Rightarrow> 'a \<Rightarrow> string + regex_map"
    and pats :: "'a \<Rightarrow> string set"
  assumes step_sound: "step m x = Inr m' \<Longrightarrow> regex_map_sound lib limits m \<Longrightarrow> regex_map_sound lib limits m'"
    and step_dom: "step m x = Inr m' \<Longrightarrow> dom m' = dom m \<union> pats x"
begin

lemma fold_sound:
  "try_fold step m xs = Inr m' \<Longrightarrow> regex_map_sound lib limits m \<Longrightarrow> regex_map_sound lib limits m'"
  by (induction xs arbitrary: m) (auto simp: result_simps dest: step_sound)

lemma fold_dom: "try_fold step m xs = Inr m' \<Longrightarrow> dom m' = dom m \<union> (\<Union>x\<in>set xs. pats x)"
proof (induction xs arbitrary: m)
  case (Cons x xs)
  then obtain t where "step m x = Inr t" "try_fold step t xs = Inr m'" by (auto simp: result_simps)
  with Cons.IH [of t] step_dom [of m x t] show ?case by auto
qed simp

end

interpretation compile_pred:
  compile_step lib limits "collect_predicate lib limits i j" "\<lambda>ip. pred_patterns [snd ip]"
  for lib limits i j
proof
  fix m x m'
  assume step: "collect_predicate lib limits i j m x = Inr m'"
  show "dom m' = dom m \<union> pred_patterns [snd x]"
    using step by (auto simp: collect_predicate_def compile_regex_pattern_def pred_patterns_def result_simps
        split: HeaderMatch.splits if_splits)
  assume "regex_map_sound lib limits m"
  with step show "regex_map_sound lib limits m'"
    by (auto simp: collect_predicate_def compile_regex_pattern_def regex_map_sound_def result_simps is_ok_iff
        split: HeaderMatch.splits if_splits)
qed

lemma set_enumerate_snd: "snd ` set (List.enumerate n xs) = set xs"
  by (metis list.set_map map_snd_enumerate)

lemma union_enumerate: "(\<Union>x\<in>set (List.enumerate n xs). f (snd x)) = (\<Union>x\<in>set xs. f x)"
  using set_enumerate_snd [of n xs] by (metis (no_types, lifting) SUP_cong image_image)

interpretation compile_route:
  compile_step lib limits
    "\<lambda>m (path_idx, r). collect_and_compile_from_matcher lib limits (rm_headers (r_matcher r)) i path_idx m"
    "\<lambda>ir. route_patterns (snd ir)"
  for lib limits i
proof
  fix m and x :: "nat \<times> Route" and m'
  obtain j r where x: "x = (j, r)" by (cases x)
  assume step: "(case x of (path_idx, r) \<Rightarrow>
    collect_and_compile_from_matcher lib limits (rm_headers (r_matcher r)) i path_idx m) = Inr m'"
  show "dom m' = dom m \<union> route_patterns (snd x)"
  proof (cases "rm_headers (r_matcher r)")
    case (Predicates_Some preds)
    with step x have "try_fold (collect_predicate lib limits i j) m (List.enumerate 0 preds) = Inr m'"
      by simp
    then have "dom m' = dom m \<union> (\<Union>ip\<in>set (List.enumerate 0 preds). pred_patterns [snd ip])"
      by (rule compile_pred.fold_dom)
    also have "(\<Union>ip\<in>set (List.enumerate 0 preds). pred_patterns [snd ip]) = pred_patterns preds"
      using union_enumerate [where f = "\<lambda>p. pred_patterns [p]" and n = 0 and xs = preds]
      by (auto simp: pred_patterns_def)
    finally show ?thesis using Predicates_Some x by (simp add: route_patterns_def header_patterns_def)
  qed (use step x in \<open>simp add: route_patterns_def header_patterns_def\<close>)
  assume "regex_map_sound lib limits m"
  with step x show "regex_map_sound lib limits m'"
    by (cases "rm_headers (r_matcher r)") (auto dest: compile_pred.fold_sound)
qed

lemma compile_vhost_Inr:
  "compile_vhost lib limits (m, k) (i, v) = Inr st \<longleftrightarrow>
     (\<exists>t. try_fold (\<lambda>m (path_idx, r). collect_and_compile_from_matcher lib limits (rm_headers (r_matcher r)) i path_idx m)
         m (List.enumerate 0 (vh_paths v)) = Inr t \<and> st = (t, k + count_regexes_in_route v))
     \<and> count_regexes_in_route v \<le> unat (max_regex_per_route limits)"
  by (auto simp: compile_vhost_def result_simps Let_def)

lemma compile_vhosts:
  "try_fold (compile_vhost lib limits) (m, k) ivs = Inr (m', k') \<Longrightarrow>
     (regex_map_sound lib limits m \<longrightarrow> regex_map_sound lib limits m')
     \<and> dom m' = dom m \<union> (\<Union>iv\<in>set ivs. \<Union>r\<in>set (vh_paths (snd iv)). route_patterns r)
     \<and> k' = k + (\<Sum>iv\<leftarrow>ivs. count_regexes_in_route (snd iv))
     \<and> (\<forall>iv\<in>set ivs. count_regexes_in_route (snd iv) \<le> unat (max_regex_per_route limits))"
proof (induction ivs arbitrary: m k)
  case (Cons iv ivs)
  obtain i v where iv: "iv = (i, v)" by (cases iv)
  from Cons.prems iv obtain t where t:
      "try_fold (\<lambda>m (path_idx, r). collect_and_compile_from_matcher lib limits (rm_headers (r_matcher r)) i path_idx m)
         m (List.enumerate 0 (vh_paths v)) = Inr t"
      "try_fold (compile_vhost lib limits) (t, k + count_regexes_in_route v) ivs = Inr (m', k')"
      "count_regexes_in_route v \<le> unat (max_regex_per_route limits)"
    by (auto simp: compile_vhost_Inr result_simps)
  have "dom t = dom m \<union> (\<Union>r\<in>set (vh_paths v). route_patterns r)"
    using compile_route.fold_dom [OF t(1)] by (simp add: union_enumerate)
  with Cons.IH [OF t(2)] compile_route.fold_sound [OF t(1)] t(3) iv show ?case by auto
qed simp

lemma compile_total:
  assumes "validate_and_compile_regexes lib vhosts limits = Inr m"
  shows "regex_map_sound lib limits m" "dom m = (\<Union>v\<in>set vhosts. \<Union>r\<in>set (vh_paths v). route_patterns r)"
    "(\<Sum>v\<leftarrow>vhosts. count_regexes_in_route v) \<le> unat (max_regex_per_config limits)"
    "\<forall>v\<in>set vhosts. count_regexes_in_route v \<le> unat (max_regex_per_route limits)"
proof -
  from assms obtain k where k: "try_fold (compile_vhost lib limits) (Map.empty, 0) (List.enumerate 0 vhosts) = Inr (m, k)"
      "k \<le> unat (max_regex_per_config limits)"
    by (auto simp: validate_and_compile_regexes_def result_simps split: if_splits)
  have vs: "map snd (List.enumerate 0 vhosts) = vhosts" by simp
  have "regex_map_sound lib limits Map.empty" by (simp add: regex_map_sound_def)
  with compile_vhosts [OF k(1)] show "regex_map_sound lib limits m" by blast
  show "dom m = (\<Union>v\<in>set vhosts. \<Union>r\<in>set (vh_paths v). route_patterns r)"
    using compile_vhosts [OF k(1)] by (simp add: union_enumerate [where f = "\<lambda>v. \<Union>r\<in>set (vh_paths v). route_patterns r"])
  have "map (\<lambda>iv. count_regexes_in_route (snd iv)) (List.enumerate 0 vhosts) = map count_regexes_in_route vhosts"
    by (subst (2) vs [symmetric]) (simp only: map_map comp_def)
  with compile_vhosts [OF k(1)] k(2)
  show "(\<Sum>v\<leftarrow>vhosts. count_regexes_in_route v) \<le> unat (max_regex_per_config limits)" by simp
  show "\<forall>v\<in>set vhosts. count_regexes_in_route v \<le> unat (max_regex_per_route limits)"
  proof
    fix v
    assume "v \<in> set vhosts"
    then obtain iv where "iv \<in> set (List.enumerate 0 vhosts)" "snd iv = v"
      unfolding set_enumerate_snd [of 0 vhosts, symmetric] by blast
    with compile_vhosts [OF k(1)] show "count_regexes_in_route v \<le> unat (max_regex_per_route limits)" by auto
  qed
qed

text \<open>
  What applying a configuration guarantees about its header regexes. If
  \<open>validate_and_compile_regexes\<close> accepts, its map has exactly the patterns of the configuration
  as keys, each with the regex that the pattern compiles to within the size limit, and the numbers of
  regexes per virtual host and in total are within the limits.
\<close>

theorem compiled_regexes_complete:
  assumes "validate_and_compile_regexes lib vhosts limits = Inr m"
  shows "dom m = {p. \<exists>v\<in>set vhosts. \<exists>r\<in>set (vh_paths v). p \<in> route_patterns r}
    \<and> (\<forall>p\<in>dom m. \<exists>re. re_bytes_build lib (size_limit_bytes limits) p = Inr re \<and>
         m p = Some \<lparr>cx_pattern = p, cx_compiled = re\<rparr>)
    \<and> (\<forall>v\<in>set vhosts. count_regexes_in_route v \<le> unat (max_regex_per_route limits))
    \<and> (\<Sum>v\<leftarrow>vhosts. count_regexes_in_route v) \<le> unat (max_regex_per_config limits)"
proof -
  note c = compile_total [OF assms]
  have "\<exists>re. re_bytes_build lib (size_limit_bytes limits) p = Inr re \<and> m p = Some \<lparr>cx_pattern = p, cx_compiled = re\<rparr>"
    if "p \<in> dom m" for p
  proof -
    from that obtain x where "m p = Some x" by blast
    moreover from this c(1) have "cx_pattern x = p"
      "re_bytes_build lib (size_limit_bytes limits) p = Inr (cx_compiled x)"
      by (simp_all add: regex_map_sound_def)
    ultimately show ?thesis by (cases x) auto
  qed
  with c show ?thesis by auto
qed

definition literal_lib :: regex_lib where
  "literal_lib = \<lparr>re_new = \<lambda>p. Inr (\<lambda>s. s = p), re_bytes_new = \<lambda>p. Inr (\<lambda>s. s = p),
     re_bytes_build = \<lambda>n p. if length p < unat n then Inr (\<lambda>s. s = p) else Inl ''too big''\<rparr>"

definition header_route :: "string \<Rightarrow> Route" where
  "header_route p = \<lparr>r_matcher = \<lparr>rm_path = Path_Prefix ''/'', rm_method = Method_Any,
       rm_headers = Predicates_Some [\<lparr>hp_name = ''x-env'', hp_matcher = Match_Regex p\<rparr>]\<rparr>,
     r_timeout = Timeout_Disabled, r_retry = Retry_Disabled, r_request_headers = Headers_Disabled,
     r_response_headers = Headers_Disabled,
     r_rewrite = \<lparr>rw_path = RewritePath_Disabled, rw_host = RewriteHost_Disabled\<rparr>,
     r_action = Action_Direct 200 ''ok'', r_principal = Principal_Any\<rparr>"

lemma literal_compiles:
  "validate_and_compile_regexes literal_lib [\<lparr>vh_host = ''a'', vh_paths = [header_route ''prod'']\<rparr>] regex_limits_default
   = Inr [''prod'' \<mapsto> \<lparr>cx_pattern = ''prod'', cx_compiled = \<lambda>s. s = ''prod''\<rparr>]"
  by (simp add: validate_and_compile_regexes_def compile_vhost_def count_regexes_in_route_def header_route_def
      regex_limits_default_def collect_predicate_def compile_regex_pattern_def literal_lib_def)

theorem compiled_regexes_complete_witness:
  "\<exists>m. validate_and_compile_regexes literal_lib [\<lparr>vh_host = ''a'', vh_paths = [header_route ''prod'']\<rparr>] regex_limits_default
     = Inr m \<and> dom m = {''prod''}"
  using compiled_regexes_complete [OF literal_compiles] literal_compiles by auto

end
