(* ===== verification/Router.thy ===== *)
theory Router
  imports Regex_Validator
begin

text \<open>
  The router, crates/pavis/src/router.rs and router/matcher.rs: the compilation of virtual hosts into
  zones, the matching of a request against the zones, the choice of the virtual host, and the
  statistics that matching collects.

  The reference it is proved against is the documented one: the first route of the virtual host, in
  the order of the configuration, whose path, method and header predicates all hold.

  A request is its host header, path, method and \<open>headers.get\<close>, the case-insensitive lookup of the
  http crate. A lookup \<open>paths[index]\<close> outside the routes would panic; the compiled indices are proved
  to be in range.
\<close>

section \<open>Compiled routes\<close>

record CompiledRoute =
  cr_index :: nat
  cr_regex :: "regex option"

datatype RouteZone = Linear "CompiledRoute list" | ExactMap "string \<rightharpoonup> CompiledRoute"

record CompiledVirtualHost =
  cv_config :: VirtualHost
  cv_zones :: "RouteZone list"

record Router =
  exact_hosts :: "string \<rightharpoonup> CompiledVirtualHost"
  wildcard_hosts :: "CompiledVirtualHost list"
  router_regex_cache :: regex_map
  router_regex_limits :: RegexLimits

text \<open>The variables of the loop that fills the zones of a virtual host.\<close>

record zone_builder =
  zb_zones :: "RouteZone list"
  current_linear :: "CompiledRoute list option"
  current_map :: "(string \<rightharpoonup> CompiledRoute) option"

definition has_predicates :: "Route \<Rightarrow> bool" where
  "has_predicates r \<longleftrightarrow> rm_method (r_matcher r) \<noteq> Method_Any \<or> rm_headers (r_matcher r) \<noteq> Predicates_None"

definition flush_linear :: "zone_builder \<Rightarrow> zone_builder" where
  "flush_linear b = (case current_linear b of
     None \<Rightarrow> b | Some l \<Rightarrow> b\<lparr>zb_zones := zb_zones b @ [Linear l], current_linear := None\<rparr>)"

definition flush_map :: "zone_builder \<Rightarrow> zone_builder" where
  "flush_map b = (case current_map b of
     None \<Rightarrow> b | Some m \<Rightarrow> b\<lparr>zb_zones := zb_zones b @ [ExactMap m], current_map := None\<rparr>)"

definition add_exact :: "string \<Rightarrow> nat \<Rightarrow> zone_builder \<Rightarrow> zone_builder" where
  "add_exact path index b =
     (let c = \<lparr>cr_index = index, cr_regex = None\<rparr> in
      case current_map b of
        Some m \<Rightarrow> b\<lparr>current_map := Some (if m path = None then m(path \<mapsto> c) else m)\<rparr>
      | None \<Rightarrow> b\<lparr>current_map := Some [path \<mapsto> c]\<rparr>)"

definition add_linear :: "CompiledRoute \<Rightarrow> zone_builder \<Rightarrow> zone_builder" where
  "add_linear c b =
     (case current_linear b of
        Some l \<Rightarrow> b\<lparr>current_linear := Some (l @ [c])\<rparr>
      | None \<Rightarrow> b\<lparr>current_linear := Some [c]\<rparr>)"

definition path_regex :: "regex_lib \<Rightarrow> PathMatch \<Rightarrow> string + regex option" where
  "path_regex lib m =
     (case m of
        Path_Regex p \<Rightarrow> (case re_new lib p of
            Inl e \<Rightarrow> Inl (''Failed to compile regex for path: '' @ p) | Inr re \<Rightarrow> Inr (Some re))
      | _ \<Rightarrow> Inr None)"

definition compile_route :: "regex_lib \<Rightarrow> zone_builder \<Rightarrow> nat \<times> Route \<Rightarrow> string + zone_builder" where
  "compile_route lib b ir =
     (let (index, route) = ir; m = rm_path (r_matcher route) in
      case m of
        Path_Exact path \<Rightarrow>
          if \<not> has_predicates route then Inr (add_exact path index (flush_linear b))
          else Inr (add_linear \<lparr>cr_index = index, cr_regex = None\<rparr> (flush_map b))
      | _ \<Rightarrow> and_then (path_regex lib m) (\<lambda>regex.
          Inr (add_linear \<lparr>cr_index = index, cr_regex = regex\<rparr> (flush_map b))))"

definition compile_vhost_zones :: "regex_lib \<Rightarrow> VirtualHost \<Rightarrow> string + CompiledVirtualHost" where
  "compile_vhost_zones lib v =
     and_then (try_fold (compile_route lib) \<lparr>zb_zones = [], current_linear = None, current_map = None\<rparr>
         (List.enumerate 0 (vh_paths v))) (\<lambda>b.
       Inr \<lparr>cv_config = v, cv_zones = zb_zones (flush_map (flush_linear b))\<rparr>)"

definition is_wildcard :: "string \<Rightarrow> bool" where
  "is_wildcard host \<longleftrightarrow> host = ''*'' \<or> CHR ''*'' \<in> set host"

definition add_vhost :: "regex_lib \<Rightarrow> Router \<Rightarrow> VirtualHost \<Rightarrow> string + Router" where
  "add_vhost lib router v =
     and_then (compile_vhost_zones lib v) (\<lambda>c.
       if is_wildcard (vh_host v) then Inr (router\<lparr>wildcard_hosts := wildcard_hosts router @ [c]\<rparr>)
       else Inr (router\<lparr>exact_hosts := (exact_hosts router)(vh_host v \<mapsto> c)\<rparr>))"

definition with_regex ::
  "regex_lib \<Rightarrow> VirtualHost list \<Rightarrow> regex_map \<Rightarrow> RegexLimits \<Rightarrow> string + Router" where
  "with_regex lib vhosts cache limits =
     try_fold (add_vhost lib) \<lparr>exact_hosts = Map.empty, wildcard_hosts = [], router_regex_cache = cache,
       router_regex_limits = limits\<rparr> vhosts"

definition router_new :: "regex_lib \<Rightarrow> VirtualHost list \<Rightarrow> string + Router" where
  "router_new lib vhosts = with_regex lib vhosts Map.empty regex_limits_default"

section \<open>Statistics\<close>

record PredicateStats =
  path_misses :: u64
  method_misses :: u64
  header_misses :: u64
  exact_evals :: u64
  prefix_evals :: u64
  regex_evals :: u64
  present_evals :: u64
  absent_evals :: u64
  regex_input_too_large :: u64

definition stats_default :: PredicateStats where
  "stats_default = \<lparr>path_misses = 0, method_misses = 0, header_misses = 0, exact_evals = 0, prefix_evals = 0,
     regex_evals = 0, present_evals = 0, absent_evals = 0, regex_input_too_large = 0\<rparr>"

definition stats_add :: "PredicateStats \<Rightarrow> PredicateStats \<Rightarrow> PredicateStats" where
  "stats_add a b = \<lparr>path_misses = path_misses a + path_misses b,
     method_misses = method_misses a + method_misses b, header_misses = header_misses a + header_misses b,
     exact_evals = exact_evals a + exact_evals b, prefix_evals = prefix_evals a + prefix_evals b,
     regex_evals = regex_evals a + regex_evals b, present_evals = present_evals a + present_evals b,
     absent_evals = absent_evals a + absent_evals b,
     regex_input_too_large = regex_input_too_large a + regex_input_too_large b\<rparr>"

section \<open>Predicates\<close>

record request =
  req_host :: "string option"
  req_path :: string
  req_method :: string
  req_header :: "string \<Rightarrow> string option"

fun matches_method :: "MethodPredicate \<Rightarrow> string \<Rightarrow> bool" where
  "matches_method Method_Any m = True"
| "matches_method (Method_Specific x) m = eq_ignore_ascii_case m (method_as_str x)"
| "matches_method (Method_List xs) m = list_ex (\<lambda>x. eq_ignore_ascii_case m (method_as_str x)) xs"

fun matches_header_value ::
  "HeaderMatch \<Rightarrow> string option \<Rightarrow> regex_map \<Rightarrow> RegexLimits \<Rightarrow> PredicateStats \<Rightarrow> bool \<times> PredicateStats" where
  "matches_header_value Match_Present v cache limits s =
     (v \<noteq> None, s\<lparr>present_evals := present_evals s + 1\<rparr>)"
| "matches_header_value Match_Absent v cache limits s =
     (v = None, s\<lparr>absent_evals := absent_evals s + 1\<rparr>)"
| "matches_header_value (Match_Exact expected) v cache limits s =
     (case v of Some actual \<Rightarrow> actual = expected | None \<Rightarrow> False, s\<lparr>exact_evals := exact_evals s + 1\<rparr>)"
| "matches_header_value (Match_Prefix p) v cache limits s =
     (case v of Some actual \<Rightarrow> starts_with actual p | None \<Rightarrow> False, s\<lparr>prefix_evals := prefix_evals s + 1\<rparr>)"
| "matches_header_value (Match_Regex pattern) v cache limits s =
     (let s' = s\<lparr>regex_evals := regex_evals s + 1\<rparr> in
      case v of
        None \<Rightarrow> (False, s')
      | Some actual \<Rightarrow>
          case cache pattern of
            None \<Rightarrow> (False, s')
          | Some compiled \<Rightarrow>
              if length actual > unat (input_max_bytes limits)
              then (False, s'\<lparr>regex_input_too_large := regex_input_too_large s' + 1\<rparr>)
              else (is_match compiled actual (unat (input_max_bytes limits)), s'))"

definition matches_header_predicate ::
  "HeaderPredicate \<Rightarrow> request \<Rightarrow> regex_map \<Rightarrow> RegexLimits \<Rightarrow> PredicateStats \<Rightarrow> bool \<times> PredicateStats" where
  "matches_header_predicate p req cache limits s =
     matches_header_value (hp_matcher p) (req_header req (hp_name p)) cache limits s"

text \<open>\<open>Iterator::all\<close> stops at the first predicate that does not match.\<close>

fun all_headers ::
  "HeaderPredicate list \<Rightarrow> request \<Rightarrow> regex_map \<Rightarrow> RegexLimits \<Rightarrow> PredicateStats \<Rightarrow> bool \<times> PredicateStats" where
  "all_headers [] req cache limits s = (True, s)"
| "all_headers (p # ps) req cache limits s =
     (case matches_header_predicate p req cache limits s of
        (False, s') \<Rightarrow> (False, s')
      | (True, s') \<Rightarrow> all_headers ps req cache limits s')"

fun matches_headers ::
  "HeaderPredicates \<Rightarrow> request \<Rightarrow> regex_map \<Rightarrow> RegexLimits \<Rightarrow> PredicateStats \<Rightarrow> bool \<times> PredicateStats" where
  "matches_headers Predicates_None req cache limits s = (True, s)"
| "matches_headers (Predicates_Some ps) req cache limits s = all_headers ps req cache limits s"

section \<open>Matching\<close>

definition path_matches :: "PathMatch \<Rightarrow> CompiledRoute \<Rightarrow> string \<Rightarrow> bool" where
  "path_matches m c uri_path =
     (case m of
        Path_Prefix p \<Rightarrow> starts_with uri_path p
      | Path_Exact p \<Rightarrow> uri_path = p
      | Path_Regex p \<Rightarrow> (case cr_regex c of Some re \<Rightarrow> re uri_path | None \<Rightarrow> False))"

fun match_linear ::
  "Router \<Rightarrow> VirtualHost \<Rightarrow> request \<Rightarrow> CompiledRoute list \<Rightarrow> PredicateStats \<Rightarrow> Route option \<times> PredicateStats" where
  "match_linear router v req [] s = (None, s)"
| "match_linear router v req (c # cs) s =
     (let route = vh_paths v ! cr_index c in
      if \<not> path_matches (rm_path (r_matcher route)) c (req_path req)
        then match_linear router v req cs (s\<lparr>path_misses := path_misses s + 1\<rparr>)
      else if \<not> matches_method (rm_method (r_matcher route)) (req_method req)
        then match_linear router v req cs (s\<lparr>method_misses := method_misses s + 1\<rparr>)
      else case matches_headers (rm_headers (r_matcher route)) req (router_regex_cache router)
             (router_regex_limits router) s of
        (False, s') \<Rightarrow> match_linear router v req cs (s'\<lparr>header_misses := header_misses s' + 1\<rparr>)
      | (True, s') \<Rightarrow> (Some route, s'))"

definition match_exact_map ::
  "Router \<Rightarrow> VirtualHost \<Rightarrow> request \<Rightarrow> (string \<rightharpoonup> CompiledRoute) \<Rightarrow> PredicateStats \<Rightarrow> Route option \<times> PredicateStats" where
  "match_exact_map router v req m s =
     (case m (req_path req) of
        None \<Rightarrow> (None, s\<lparr>path_misses := path_misses s + 1\<rparr>)
      | Some c \<Rightarrow>
          let route = vh_paths v ! cr_index c in
          if \<not> matches_method (rm_method (r_matcher route)) (req_method req)
            then (None, s\<lparr>method_misses := method_misses s + 1\<rparr>)
          else case matches_headers (rm_headers (r_matcher route)) req (router_regex_cache router)
                 (router_regex_limits router) s of
            (True, s') \<Rightarrow> (Some route, s')
          | (False, s') \<Rightarrow> (None, s'\<lparr>header_misses := header_misses s' + 1\<rparr>))"

fun match_zones ::
  "Router \<Rightarrow> VirtualHost \<Rightarrow> request \<Rightarrow> RouteZone list \<Rightarrow> PredicateStats \<Rightarrow> Route option \<times> PredicateStats" where
  "match_zones router v req [] s = (None, s)"
| "match_zones router v req (z # zs) s =
     (case (case z of Linear cs \<Rightarrow> match_linear router v req cs s
                    | ExactMap m \<Rightarrow> match_exact_map router v req m s) of
        (Some route, s') \<Rightarrow> (Some route, s')
      | (None, s') \<Rightarrow> match_zones router v req zs s')"

record MatchVerdict =
  selection :: "(VirtualHost \<times> Route) option"
  stats :: PredicateStats

definition try_match :: "Router \<Rightarrow> request \<Rightarrow> CompiledVirtualHost \<Rightarrow> MatchVerdict" where
  "try_match router req c =
     (case match_zones router (cv_config c) req (cv_zones c) stats_default of
        (sel, s) \<Rightarrow> \<lparr>selection = map_option (\<lambda>r. (cv_config c, r)) sel, stats = s\<rparr>)"

definition normalize_host :: "string \<Rightarrow> string" where
  "normalize_host host =
     (case strip_prefix host ''['' of
        Some stripped \<Rightarrow> (case split_once stripped '']'' of
            Some (inner, _) \<Rightarrow> inner
          | None \<Rightarrow> (case split_once host '':'' of Some (host_only, _) \<Rightarrow> host_only | None \<Rightarrow> host))
      | None \<Rightarrow> (case split_once host '':'' of Some (host_only, _) \<Rightarrow> host_only | None \<Rightarrow> host))"

definition wildcard_match :: "string \<Rightarrow> string option \<Rightarrow> bool" where
  "wildcard_match pattern host =
     (if pattern = ''*'' then True
      else case strip_prefix pattern ''*.'' of
        Some sfx \<Rightarrow> (case host of None \<Rightarrow> False | Some h \<Rightarrow>
            ends_with h sfx \<and> length h > length sfx \<and> h ! (length h - length sfx - 1) = CHR ''.'')
      | None \<Rightarrow> (case strip_suffix pattern ''.*'' of
            Some pre \<Rightarrow> (case host of None \<Rightarrow> False | Some h \<Rightarrow>
                starts_with h pre \<and> length h > length pre \<and> h ! length pre = CHR ''.'')
          | None \<Rightarrow> host = Some pattern))"

fun match_wildcards ::
  "Router \<Rightarrow> request \<Rightarrow> string option \<Rightarrow> CompiledVirtualHost list \<Rightarrow> PredicateStats \<Rightarrow> MatchVerdict" where
  "match_wildcards router req host [] agg = \<lparr>selection = None, stats = agg\<rparr>"
| "match_wildcards router req host (c # cs) agg =
     (if \<not> wildcard_match (vh_host (cv_config c)) host then match_wildcards router req host cs agg
      else let verdict = try_match router req c; agg' = stats_add agg (stats verdict) in
        if selection verdict \<noteq> None then \<lparr>selection = selection verdict, stats = agg'\<rparr>
        else match_wildcards router req host cs agg')"

definition match_request :: "Router \<Rightarrow> request \<Rightarrow> MatchVerdict" where
  "match_request router req =
     (let host = map_option normalize_host (req_host req);
          exact = (case host of None \<Rightarrow> None | Some h \<Rightarrow> exact_hosts router h) in
      case exact of
        None \<Rightarrow> match_wildcards router req host (wildcard_hosts router) stats_default
      | Some c \<Rightarrow>
          let verdict = try_match router req c; agg = stats_add stats_default (stats verdict) in
          if selection verdict \<noteq> None then \<lparr>selection = selection verdict, stats = agg\<rparr>
          else match_wildcards router req host (wildcard_hosts router) agg)"

section \<open>Reference semantics\<close>

fun header_holds :: "regex_map \<Rightarrow> RegexLimits \<Rightarrow> HeaderMatch \<Rightarrow> string option \<Rightarrow> bool" where
  "header_holds cache limits Match_Present v \<longleftrightarrow> v \<noteq> None"
| "header_holds cache limits Match_Absent v \<longleftrightarrow> v = None"
| "header_holds cache limits (Match_Exact e) v \<longleftrightarrow> v = Some e"
| "header_holds cache limits (Match_Prefix p) v \<longleftrightarrow> (\<exists>a. v = Some (p @ a))"
| "header_holds cache limits (Match_Regex p) v \<longleftrightarrow>
     (\<exists>a c. v = Some a \<and> cache p = Some c \<and> length a \<le> unat (input_max_bytes limits) \<and> cx_compiled c a)"

definition headers_hold :: "regex_map \<Rightarrow> RegexLimits \<Rightarrow> request \<Rightarrow> HeaderPredicates \<Rightarrow> bool" where
  "headers_hold cache limits req hs \<longleftrightarrow> (\<forall>ps. hs = Predicates_Some ps \<longrightarrow>
     (\<forall>p\<in>set ps. header_holds cache limits (hp_matcher p) (req_header req (hp_name p))))"

fun path_holds :: "regex_lib \<Rightarrow> PathMatch \<Rightarrow> string \<Rightarrow> bool" where
  "path_holds lib (Path_Prefix p) uri \<longleftrightarrow> starts_with uri p"
| "path_holds lib (Path_Exact p) uri \<longleftrightarrow> uri = p"
| "path_holds lib (Path_Regex p) uri \<longleftrightarrow> (\<exists>re. re_new lib p = Inr re \<and> re uri)"

definition route_holds :: "regex_lib \<Rightarrow> regex_map \<Rightarrow> RegexLimits \<Rightarrow> request \<Rightarrow> Route \<Rightarrow> bool" where
  "route_holds lib cache limits req r \<longleftrightarrow> path_holds lib (rm_path (r_matcher r)) (req_path req)
     \<and> matches_method (rm_method (r_matcher r)) (req_method req)
     \<and> headers_hold cache limits req (rm_headers (r_matcher r))"

definition first_route :: "regex_lib \<Rightarrow> regex_map \<Rightarrow> RegexLimits \<Rightarrow> request \<Rightarrow> VirtualHost \<Rightarrow> Route option" where
  "first_route lib cache limits req v = find (route_holds lib cache limits req) (vh_paths v)"

text \<open>
  The virtual hosts to try: the one named by the host, then the wildcard ones that match, in order.
\<close>

definition candidates :: "VirtualHost list \<Rightarrow> string option \<Rightarrow> VirtualHost list" where
  "candidates vhosts host =
     filter (\<lambda>v. \<not> is_wildcard (vh_host v) \<and> host = Some (vh_host v)) vhosts
     @ filter (\<lambda>v. is_wildcard (vh_host v) \<and> wildcard_match (vh_host v) host) vhosts"

fun first_match ::
  "regex_lib \<Rightarrow> regex_map \<Rightarrow> RegexLimits \<Rightarrow> request \<Rightarrow> VirtualHost list \<Rightarrow> (VirtualHost \<times> Route) option" where
  "first_match lib cache limits req [] = None"
| "first_match lib cache limits req (v # vs) =
     (case first_route lib cache limits req v of
        Some r \<Rightarrow> Some (v, r) | None \<Rightarrow> first_match lib cache limits req vs)"

section \<open>Zones implement the first match\<close>

lemma matches_header_value_fst:
  "fst (matches_header_value m v cache limits s) = header_holds cache limits m v"
  by (cases m) (auto simp: Let_def is_match_def prefix_def split: option.splits)

lemma all_headers_fst:
  "fst (all_headers ps req cache limits s) \<longleftrightarrow>
     (\<forall>p\<in>set ps. header_holds cache limits (hp_matcher p) (req_header req (hp_name p)))"
proof (induction ps arbitrary: s)
  case (Cons p ps)
  obtain b s' where b: "matches_header_predicate p req cache limits s = (b, s')" by fastforce
  then have "b = header_holds cache limits (hp_matcher p) (req_header req (hp_name p))"
    using matches_header_value_fst [of "hp_matcher p"] by (metis fst_conv matches_header_predicate_def)
  with b Cons.IH show ?case by (cases b) auto
qed simp

lemma matches_headers_fst: "fst (matches_headers hs req cache limits s) = headers_hold cache limits req hs"
  by (cases hs) (simp_all add: headers_hold_def all_headers_fst)

text \<open>What a compiled route and a zone select, without the statistics.\<close>

definition compiled_holds :: "Router \<Rightarrow> VirtualHost \<Rightarrow> request \<Rightarrow> CompiledRoute \<Rightarrow> bool" where
  "compiled_holds router v req c \<longleftrightarrow> (let m = r_matcher (vh_paths v ! cr_index c) in
     path_matches (rm_path m) c (req_path req) \<and> matches_method (rm_method m) (req_method req)
     \<and> headers_hold (router_regex_cache router) (router_regex_limits router) req (rm_headers m))"

definition select_linear :: "Router \<Rightarrow> VirtualHost \<Rightarrow> request \<Rightarrow> CompiledRoute list \<Rightarrow> Route option" where
  "select_linear router v req cs =
     map_option (\<lambda>c. vh_paths v ! cr_index c) (find (compiled_holds router v req) cs)"

definition select_zone :: "Router \<Rightarrow> VirtualHost \<Rightarrow> request \<Rightarrow> RouteZone \<Rightarrow> Route option" where
  "select_zone router v req z =
     (case z of Linear cs \<Rightarrow> select_linear router v req cs
      | ExactMap m \<Rightarrow> fst (match_exact_map router v req m stats_default))"

lemma match_linear_fst: "fst (match_linear router v req cs s) = select_linear router v req cs"
proof (induction cs arbitrary: s)
  case (Cons c cs)
  define route where "route = vh_paths v ! cr_index c"
  obtain b s' where b: "matches_headers (rm_headers (r_matcher route)) req (router_regex_cache router)
      (router_regex_limits router) s = (b, s')" by fastforce
  then have "b = headers_hold (router_regex_cache router) (router_regex_limits router) req
      (rm_headers (r_matcher route))" by (metis fst_conv matches_headers_fst)
  with b Cons.IH show ?case
    by (cases b) (auto simp: select_linear_def compiled_holds_def Let_def simp flip: route_def)
qed (simp add: select_linear_def)

lemma match_exact_map_fst:
  "fst (match_exact_map router v req m s) = fst (match_exact_map router v req m t)"
proof (cases "m (req_path req)")
  case (Some c)
  define hs where "hs = rm_headers (r_matcher (vh_paths v ! cr_index c))"
  obtain b s' where b: "matches_headers hs req (router_regex_cache router) (router_regex_limits router) s = (b, s')"
    by fastforce
  obtain b' t' where b': "matches_headers hs req (router_regex_cache router) (router_regex_limits router) t = (b', t')"
    by fastforce
  have "b = b'" using b b' matches_headers_fst by (metis fst_conv)
  with Some b b' show ?thesis
    by (cases b') (simp_all add: match_exact_map_def Let_def flip: hs_def)
qed (simp add: match_exact_map_def)

lemma match_zones_fst: "fst (match_zones router v req zs s) = first_some (map (select_zone router v req) zs)"
proof (induction zs arbitrary: s)
  case (Cons z zs)
  obtain sel s' where r: "(case z of Linear cs \<Rightarrow> match_linear router v req cs s
      | ExactMap m \<Rightarrow> match_exact_map router v req m s) = (sel, s')" by fastforce
  have "select_zone router v req z = sel"
  proof (cases z)
    case (Linear cs)
    with r have "match_linear router v req cs s = (sel, s')" by simp
    with match_linear_fst [of router v req cs s] Linear show ?thesis by (simp add: select_zone_def)
  next
    case (ExactMap m)
    with r have "match_exact_map router v req m s = (sel, s')" by simp
    with match_exact_map_fst [of router v req m s stats_default] ExactMap show ?thesis
      by (simp add: select_zone_def)
  qed
  with r Cons.IH show ?case by (cases sel) simp_all
qed simp

subsection \<open>The loop that fills the zones\<close>

text \<open>The zones of a builder when both current zones are flushed.\<close>

definition all_zones :: "zone_builder \<Rightarrow> RouteZone list" where
  "all_zones b = zb_zones (flush_map (flush_linear b))"

lemma all_zones_eq:
  "all_zones b = zb_zones b @ (case current_linear b of None \<Rightarrow> [] | Some l \<Rightarrow> [Linear l])
     @ (case current_map b of None \<Rightarrow> [] | Some m \<Rightarrow> [ExactMap m])"
  by (simp add: all_zones_def flush_map_def flush_linear_def split: option.splits)

text \<open>The entries of an open map are routes without predicates.\<close>

definition plain_map :: "VirtualHost \<Rightarrow> (string \<rightharpoonup> CompiledRoute) \<Rightarrow> bool" where
  "plain_map v m \<longleftrightarrow> (\<forall>c\<in>ran m. \<not> has_predicates (vh_paths v ! cr_index c))"

definition builder_inv ::
  "regex_lib \<Rightarrow> Router \<Rightarrow> VirtualHost \<Rightarrow> request \<Rightarrow> zone_builder \<Rightarrow> Route list \<Rightarrow> bool" where
  "builder_inv lib router v req b seen \<longleftrightarrow>
     (current_linear b = None \<or> current_map b = None)
     \<and> (\<forall>m. current_map b = Some m \<longrightarrow> plain_map v m)
     \<and> first_some (map (select_zone router v req) (all_zones b))
       = find (route_holds lib (router_regex_cache router) (router_regex_limits router) req) seen"

lemma select_plain_map:
  "plain_map v m \<Longrightarrow> select_zone router v req (ExactMap m) = map_option (\<lambda>c. vh_paths v ! cr_index c) (m (req_path req))"
  by (auto simp: select_zone_def match_exact_map_def plain_map_def has_predicates_def ran_def Let_def
      split: option.splits)

lemma select_linear_snoc:
  "select_linear router v req (cs @ [c]) = or_else (select_linear router v req cs) (select_linear router v req [c])"
  by (simp add: select_linear_def find_append or_else_def split: option.splits)

lemma inv_add_linear:
  assumes inv: "builder_inv lib router v req b pre" and r: "vh_paths v ! cr_index c = r"
    and holds: "compiled_holds router v req c
      = route_holds lib (router_regex_cache router) (router_regex_limits router) req r"
  shows "builder_inv lib router v req (add_linear c (flush_map b)) (pre @ [r])"
proof -
  have one: "select_linear router v req [c]
      = find (route_holds lib (router_regex_cache router) (router_regex_limits router) req) [r]"
    using r holds by (simp add: select_linear_def)
  consider l where "current_linear b = Some l" "current_map b = None" | "current_linear b = None"
    using inv by (cases "current_linear b") (auto simp: builder_inv_def)
  then show ?thesis
    using inv one
    by cases (auto simp: builder_inv_def add_linear_def flush_map_def all_zones_eq find_append
        first_some_append select_zone_def select_linear_snoc simp flip: or_else_assoc split: option.splits)
qed

lemma inv_add_exact:
  assumes inv: "builder_inv lib router v req b pre" and r: "vh_paths v ! k = r"
    and m: "rm_path (r_matcher r) = Path_Exact p" "\<not> has_predicates r"
  shows "builder_inv lib router v req (add_exact p k (flush_linear b)) (pre @ [r])"
proof -
  let ?H = "route_holds lib (router_regex_cache router) (router_regex_limits router) req"
  have H: "?H r \<longleftrightarrow> req_path req = p"
    using m by (auto simp: route_holds_def has_predicates_def headers_hold_def)
  have plain: "plain_map v ((n :: string \<rightharpoonup> CompiledRoute)(p \<mapsto> \<lparr>cr_index = k, cr_regex = None\<rparr>))"
    if "plain_map v n" for n
    using that m(2) r by (auto simp: plain_map_def ran_def split: if_splits)
  show ?thesis
  proof (cases "current_map b")
    case None
    with plain [of Map.empty] have "plain_map v [p \<mapsto> \<lparr>cr_index = k, cr_regex = None\<rparr>]"
      by (simp add: plain_map_def)
    with None inv H r show ?thesis
      by (cases "current_linear b")
        (auto simp: builder_inv_def add_exact_def flush_linear_def all_zones_eq find_append
          first_some_append select_plain_map Let_def simp flip: or_else_assoc)
  next
    case (Some n)
    define n' where "n' = (if n p = None then n(p \<mapsto> \<lparr>cr_index = k, cr_regex = None\<rparr>) else n)"
    from inv Some have lin: "current_linear b = None" and pn: "plain_map v n"
      by (auto simp: builder_inv_def)
    then have pn': "plain_map v n'" by (simp add: n'_def plain)
    have "or_else (select_zone router v req (ExactMap n)) (find ?H [r]) = select_zone router v req (ExactMap n')"
      unfolding select_plain_map [OF pn] select_plain_map [OF pn']
      using H r by (auto simp: n'_def or_else_def split: option.splits)
    moreover have "or_else (first_some (map (select_zone router v req) (zb_zones b)))
        (select_zone router v req (ExactMap n)) = find ?H pre"
      using inv Some lin by (simp add: builder_inv_def all_zones_eq first_some_append)
    ultimately have "or_else (first_some (map (select_zone router v req) (zb_zones b)))
        (select_zone router v req (ExactMap n')) = find ?H (pre @ [r])"
      by (metis find_append or_else_assoc)
    with lin pn' Some show ?thesis
      by (auto simp: builder_inv_def add_exact_def flush_linear_def all_zones_eq first_some_append Let_def
          simp flip: n'_def split: if_splits)
  qed
qed

lemma compile_route_inv:
  assumes "builder_inv lib router v req b pre" "vh_paths v ! k = r" "compile_route lib b (k, r) = Inr b'"
  shows "builder_inv lib router v req b' (pre @ [r])"
proof (cases "rm_path (r_matcher r)")
  case (Path_Exact p)
  show ?thesis
  proof (cases "has_predicates r")
    case True
    with assms Path_Exact show ?thesis
      by (auto simp: compile_route_def compiled_holds_def route_holds_def path_matches_def Let_def
          intro!: inv_add_linear)
  next
    case False
    with assms Path_Exact show ?thesis
      by (auto simp: compile_route_def Let_def intro!: inv_add_exact)
  qed
next
  case (Path_Prefix p)
  with assms show ?thesis
    by (auto simp: compile_route_def path_regex_def compiled_holds_def route_holds_def path_matches_def Let_def
        intro!: inv_add_linear)
next
  case (Path_Regex p)
  with assms show ?thesis
    by (auto simp: compile_route_def path_regex_def compiled_holds_def route_holds_def path_matches_def Let_def
        intro!: inv_add_linear split: sum.splits)
qed

lemma compile_routes_inv:
  "try_fold (compile_route lib) b (List.enumerate (length pre) rs) = Inr b' \<Longrightarrow> vh_paths v = pre @ rs \<Longrightarrow>
     builder_inv lib router v req b pre \<Longrightarrow> builder_inv lib router v req b' (pre @ rs)"
proof (induction rs arbitrary: b pre)
  case (Cons r rs)
  from Cons.prems(1) obtain t where t: "compile_route lib b (length pre, r) = Inr t"
      "try_fold (compile_route lib) t (List.enumerate (length (pre @ [r])) rs) = Inr b'"
    by (auto simp: result_simps)
  have "builder_inv lib router v req t (pre @ [r])"
    using compile_route_inv [OF Cons.prems(3) _ t(1)] Cons.prems(2) by simp
  with Cons.IH [OF t(2)] Cons.prems(2) show ?case by simp
qed simp

lemma compiled_vhost_selects:
  assumes "compile_vhost_zones lib v = Inr c"
  shows "cv_config c = v \<and> selection (try_match router req c)
    = map_option (Pair v) (first_route lib (router_regex_cache router) (router_regex_limits router) req v)"
proof -
  from assms obtain b where b: "try_fold (compile_route lib)
      \<lparr>zb_zones = [], current_linear = None, current_map = None\<rparr> (List.enumerate 0 (vh_paths v)) = Inr b"
    and c: "c = \<lparr>cv_config = v, cv_zones = all_zones b\<rparr>"
    by (auto simp: compile_vhost_zones_def result_simps all_zones_def)
  have "builder_inv lib router v req \<lparr>zb_zones = [], current_linear = None, current_map = None\<rparr> []"
    by (simp add: builder_inv_def all_zones_eq)
  with compile_routes_inv [of lib _ "[]" "vh_paths v" b v router req] b
  have "builder_inv lib router v req b (vh_paths v)" by simp
  then have "fst (match_zones router v req (all_zones b) stats_default)
      = first_route lib (router_regex_cache router) (router_regex_limits router) req v"
    by (simp add: match_zones_fst builder_inv_def first_route_def)
  then show ?thesis
    by (auto simp: c try_match_def split: prod.splits)
qed

section \<open>Hosts\<close>

text \<open>What the router holds for a list of virtual hosts.\<close>

definition host_inv :: "regex_lib \<Rightarrow> VirtualHost list \<Rightarrow> string \<Rightarrow> CompiledVirtualHost option \<Rightarrow> bool" where
  "host_inv lib vs h entry \<longleftrightarrow>
     (case entry of
        None \<Rightarrow> \<forall>v\<in>set vs. is_wildcard (vh_host v) \<or> vh_host v \<noteq> h
      | Some c \<Rightarrow> cv_config c \<in> set vs \<and> vh_host (cv_config c) = h \<and> \<not> is_wildcard h
          \<and> compile_vhost_zones lib (cv_config c) = Inr c)"

definition router_inv :: "regex_lib \<Rightarrow> Router \<Rightarrow> VirtualHost list \<Rightarrow> bool" where
  "router_inv lib router vs \<longleftrightarrow>
     (\<forall>h. host_inv lib vs h (exact_hosts router h))
     \<and> map cv_config (wildcard_hosts router) = filter (\<lambda>v. is_wildcard (vh_host v)) vs
     \<and> (\<forall>c\<in>set (wildcard_hosts router). compile_vhost_zones lib (cv_config c) = Inr c)"

lemma host_inv_snoc:
  "host_inv lib vs h e \<Longrightarrow> is_wildcard (vh_host v) \<or> vh_host v \<noteq> h \<Longrightarrow> host_inv lib (vs @ [v]) h e"
  by (auto simp: host_inv_def split: option.splits)

lemma cv_config_compile: "compile_vhost_zones lib v = Inr c \<Longrightarrow> cv_config c = v"
  by (auto simp: compile_vhost_zones_def result_simps)

lemma add_vhost_inv:
  assumes "router_inv lib router vs" "add_vhost lib router v = Inr router'"
  shows "router_inv lib router' (vs @ [v])"
proof -
  from assms(2) obtain c where c: "compile_vhost_zones lib v = Inr c"
    and r: "router' = (if is_wildcard (vh_host v) then router\<lparr>wildcard_hosts := wildcard_hosts router @ [c]\<rparr>
      else router\<lparr>exact_hosts := (exact_hosts router)(vh_host v \<mapsto> c)\<rparr>)"
    by (auto simp: add_vhost_def result_simps split: if_splits)
  note cfg = cv_config_compile [OF c]
  show ?thesis
  proof (cases "is_wildcard (vh_host v)")
    case True
    with assms(1) c cfg show ?thesis
      by (simp add: router_inv_def r host_inv_snoc)
  next
    case False
    moreover have "host_inv lib (vs @ [v]) (vh_host v) (Some c)"
      using False c cfg by (simp add: host_inv_def)
    ultimately show ?thesis
      using assms(1) by (simp add: router_inv_def r host_inv_snoc)
  qed
qed

lemma with_regex_inv:
  "try_fold (add_vhost lib) router vs = Inr router' \<Longrightarrow> router_inv lib router pre \<Longrightarrow>
     router_inv lib router' (pre @ vs)
     \<and> router_regex_cache router' = router_regex_cache router
     \<and> router_regex_limits router' = router_regex_limits router"
proof (induction vs arbitrary: router pre)
  case (Cons v vs)
  then obtain t where t: "add_vhost lib router v = Inr t" "try_fold (add_vhost lib) t vs = Inr router'"
    by (auto simp: result_simps)
  from t(1) have "router_regex_cache t = router_regex_cache router" "router_regex_limits t = router_regex_limits router"
    by (auto simp: add_vhost_def result_simps split: if_splits)
  with Cons.IH [OF t(2) add_vhost_inv [OF Cons.prems(2) t(1)]] show ?case by simp
qed simp

lemma match_wildcards_selection:
  assumes "\<forall>c\<in>set cs. compile_vhost_zones lib (cv_config c) = Inr c"
  shows "selection (match_wildcards router req host cs agg)
    = first_match lib (router_regex_cache router) (router_regex_limits router) req
        (filter (\<lambda>v. wildcard_match (vh_host v) host) (map cv_config cs))"
  using assms
proof (induction cs arbitrary: agg)
  case (Cons c cs)
  then have "selection (try_match router req c) = map_option (Pair (cv_config c))
      (first_route lib (router_regex_cache router) (router_regex_limits router) req (cv_config c))"
    using compiled_vhost_selects by (metis list.set_intros(1))
  with Cons show ?case by (auto simp: Let_def split: option.splits)
qed simp

lemma first_match_append:
  "first_match lib cache limits req (xs @ ys)
   = or_else (first_match lib cache limits req xs) (first_match lib cache limits req ys)"
  by (induction xs) (auto split: option.splits)

lemma filter_single: "distinct (map f xs) \<Longrightarrow> x \<in> set xs \<Longrightarrow> filter (\<lambda>y. f y = f x) xs = [x]"
proof (induction xs)
  case (Cons a xs)
  show ?case
  proof (cases "a = x")
    case True
    with Cons.prems(1) have "filter (\<lambda>y. f y = f x) xs = []"
      by (auto simp: filter_empty_conv) (metis image_eqI)
    with True show ?thesis by simp
  next
    case False
    with Cons show ?thesis by (auto simp: image_iff)
  qed
qed simp

lemma exact_candidates:
  assumes "router_inv lib router vs" "distinct (map vh_host vs)"
  shows "filter (\<lambda>v. \<not> is_wildcard (vh_host v) \<and> Some h = Some (vh_host v)) vs
    = (case exact_hosts router h of None \<Rightarrow> [] | Some c \<Rightarrow> [cv_config c])"
proof (cases "exact_hosts router h")
  case None
  from assms(1) have "host_inv lib vs h (exact_hosts router h)" by (simp add: router_inv_def)
  with None show ?thesis by (auto simp: host_inv_def filter_empty_conv)
next
  case (Some c)
  from assms(1) have "host_inv lib vs h (exact_hosts router h)" by (simp add: router_inv_def)
  with Some have c: "cv_config c \<in> set vs" "vh_host (cv_config c) = h" "\<not> is_wildcard h"
    by (simp_all add: host_inv_def)
  then have "filter (\<lambda>v. \<not> is_wildcard (vh_host v) \<and> Some h = Some (vh_host v)) vs
      = filter (\<lambda>v. vh_host v = vh_host (cv_config c)) vs"
    by (intro filter_cong) auto
  with filter_single [OF assms(2) c(1)] Some show ?thesis by simp
qed

lemma match_request_candidates:
  assumes "with_regex lib vs cache limits = Inr router" "distinct (map vh_host vs)"
  shows "selection (match_request router req)
    = first_match lib cache limits req (candidates vs (map_option normalize_host (req_host req)))"
proof -
  define host where "host = map_option normalize_host (req_host req)"
  have "router_inv lib \<lparr>exact_hosts = Map.empty, wildcard_hosts = [], router_regex_cache = cache,
      router_regex_limits = limits\<rparr> []"
    by (simp add: router_inv_def host_inv_def)
  with assms(1) with_regex_inv [of lib _ vs router "[]"]
  have inv: "router_inv lib router vs" and cl: "router_regex_cache router = cache" "router_regex_limits router = limits"
    by (auto simp: with_regex_def)
  have wild: "selection (match_wildcards router req host (wildcard_hosts router) agg)
      = first_match lib cache limits req (filter (\<lambda>v. is_wildcard (vh_host v) \<and> wildcard_match (vh_host v) host) vs)" for agg
    using inv match_wildcards_selection [of "wildcard_hosts router" lib router req host agg]
    by (simp add: router_inv_def cl conj_commute)
  show ?thesis
  proof (cases host)
    case None
    then show ?thesis
      using wild [of stats_default] by (simp add: match_request_def candidates_def flip: host_def)
  next
    case (Some h)
    note ex = exact_candidates [OF inv assms(2), of h]
    show ?thesis
    proof (cases "exact_hosts router h")
      case None
      with Some ex wild show ?thesis
        by (simp add: match_request_def candidates_def flip: host_def)
    next
      case (Some c)
      from inv have "host_inv lib vs h (exact_hosts router h)" by (simp add: router_inv_def)
      with Some have "compile_vhost_zones lib (cv_config c) = Inr c" by (simp add: host_inv_def)
      then have "selection (try_match router req c)
          = map_option (Pair (cv_config c)) (first_route lib cache limits req (cv_config c))"
        using compiled_vhost_selects cl by metis
      with Some ex wild \<open>host = Some h\<close> show ?thesis
        by (auto simp: match_request_def candidates_def Let_def first_match_append simp flip: host_def
            split: option.splits)
    qed
  qed
qed

section \<open>Properties\<close>

text \<open>
  C9: routing is the first match. For a configuration whose virtual hosts have distinct names, the
  router selects the first route, in the order of the configuration, whose path, method and headers
  hold, in the virtual host named by the host header, or else in the first wildcard virtual host that
  matches the host and has such a route. The grouping of exact paths into hash maps changes nothing.
\<close>

theorem match_request_is_first_match:
  assumes "with_regex lib vs cache limits = Inr router" "distinct (map vh_host vs)"
  shows "selection (match_request router req)
    = first_match lib cache limits req (candidates vs (map_option normalize_host (req_host req)))"
  using assms by (rule match_request_candidates)

definition demo_route :: "PathMatch \<Rightarrow> u16 \<Rightarrow> Route" where
  "demo_route m n = (header_route ''x'')\<lparr>r_matcher := \<lparr>rm_path = m, rm_method = Method_Any, rm_headers = Predicates_None\<rparr>,
     r_action := Action_Direct n []\<rparr>"

definition demo_vhosts :: "VirtualHost list" where
  "demo_vhosts = [\<lparr>vh_host = ''a.com'', vh_paths = [demo_route (Path_Exact ''/x'') 201,
      demo_route (Path_Exact ''/x'') 202, demo_route (Path_Prefix ''/'') 203]\<rparr>,
    \<lparr>vh_host = ''*.com'', vh_paths = [demo_route (Path_Regex ''/r'') 204]\<rparr>]"

definition demo_request :: "string \<Rightarrow> string \<Rightarrow> request" where
  "demo_request h p = \<lparr>req_host = Some h, req_path = p, req_method = ''GET'', req_header = Map.empty\<rparr>"

lemmas demo_defs = demo_vhosts_def demo_route_def header_route_def literal_lib_def

lemma demo_router: "\<exists>router. with_regex literal_lib demo_vhosts Map.empty regex_limits_default = Inr router"
  by (simp add: with_regex_def add_vhost_def compile_vhost_zones_def compile_route_def path_regex_def demo_defs
      has_predicates_def is_wildcard_def)

theorem match_request_is_first_match_witness:
  "\<exists>router. with_regex literal_lib demo_vhosts Map.empty regex_limits_default = Inr router
     \<and> map_option (r_action \<circ> snd) (selection (match_request router (demo_request ''a.com:8080'' ''/x'')))
       = Some (Action_Direct 201 [])"
proof -
  obtain router where r: "with_regex literal_lib demo_vhosts Map.empty regex_limits_default = Inr router"
    using demo_router by blast
  have "distinct (map vh_host demo_vhosts)" by (simp add: demo_vhosts_def)
  from match_request_is_first_match [OF r this, of "demo_request ''a.com:8080'' ''/x''"] r show ?thesis
    by (simp add: demo_request_def normalize_host_def candidates_def is_wildcard_def first_route_def
        route_holds_def headers_hold_def demo_defs)
qed

text \<open>Building the router fails exactly when a path regex of the configuration does not compile.\<close>

lemma with_regex_ok_iff:
  "(\<exists>router. with_regex lib vs cache limits = Inr router) \<longleftrightarrow>
     (\<forall>v\<in>set vs. \<forall>r\<in>set (vh_paths v). \<forall>p. rm_path (r_matcher r) = Path_Regex p \<longrightarrow> is_ok (re_new lib p))"
proof -
  have route: "(\<exists>b'. compile_route lib b (k, r) = Inr b') \<longleftrightarrow>
      (\<forall>p. rm_path (r_matcher r) = Path_Regex p \<longrightarrow> is_ok (re_new lib p))" for b k r
    by (cases "rm_path (r_matcher r)")
      (auto simp: compile_route_def path_regex_def Let_def is_ok_iff split: sum.splits)
  have routes: "(\<exists>b'. try_fold (compile_route lib) b (List.enumerate k rs) = Inr b') \<longleftrightarrow>
      (\<forall>r\<in>set rs. \<forall>p. rm_path (r_matcher r) = Path_Regex p \<longrightarrow> is_ok (re_new lib p))" for b k rs
  proof (induction rs arbitrary: b k)
    case (Cons r rs)
    show ?case using route [of b k r] Cons.IH by (auto simp: result_simps)
  qed simp
  have vhost: "(\<exists>router'. add_vhost lib router v = Inr router') \<longleftrightarrow>
      (\<forall>r\<in>set (vh_paths v). \<forall>p. rm_path (r_matcher r) = Path_Regex p \<longrightarrow> is_ok (re_new lib p))" for router v
    unfolding routes [symmetric, where b = "\<lparr>zb_zones = [], current_linear = None, current_map = None\<rparr>" and k = 0]
    by (cases "is_wildcard (vh_host v)")
      (auto simp: add_vhost_def compile_vhost_zones_def result_simps)
  have "(\<exists>router'. try_fold (add_vhost lib) router vs = Inr router') \<longleftrightarrow>
      (\<forall>v\<in>set vs. \<forall>r\<in>set (vh_paths v). \<forall>p. rm_path (r_matcher r) = Path_Regex p \<longrightarrow> is_ok (re_new lib p))" for router
  proof (induction vs arbitrary: router)
    case (Cons v vs)
    show ?case using vhost [of router v] Cons.IH by (auto simp: result_simps)
  qed simp
  then show ?thesis by (simp add: with_regex_def)
qed

text \<open>
  C31: the header predicates of a route mean what they say, and the cache of compiled header regexes never misses. With the cache that
  \<open>validate_and_compile_regexes\<close> returns for the configuration, \<open>matches_headers\<close> accepts a request for one of its routes if and only if
  every predicate holds: the header is present, absent, equal to the value, begins with the prefix, or, for a regex, is present, not longer
  than the limit, and matched by the regex its pattern compiles to.
\<close>

theorem header_regex_cache_complete:
  assumes "validate_and_compile_regexes lib vs limits = Inr cache"
    and "v \<in> set vs" "r \<in> set (vh_paths v)" "rm_headers (r_matcher r) = Predicates_Some ps"
  shows "fst (matches_headers (rm_headers (r_matcher r)) req cache limits s) \<longleftrightarrow>
    (\<forall>q\<in>set ps. case hp_matcher q of
       Match_Present \<Rightarrow> req_header req (hp_name q) \<noteq> None
     | Match_Absent \<Rightarrow> req_header req (hp_name q) = None
     | Match_Exact x \<Rightarrow> req_header req (hp_name q) = Some x
     | Match_Prefix x \<Rightarrow> (\<exists>a. req_header req (hp_name q) = Some (x @ a))
     | Match_Regex p \<Rightarrow> (\<exists>a re. req_header req (hp_name q) = Some a \<and> length a \<le> unat (input_max_bytes limits)
         \<and> re_bytes_build lib (size_limit_bytes limits) p = Inr re \<and> re a))"
proof -
  have cached: "(\<exists>c. cache p = Some c \<and> cx_compiled c a) \<longleftrightarrow>
      (\<exists>re. re_bytes_build lib (size_limit_bytes limits) p = Inr re \<and> re a)"
    if "q \<in> set ps" "hp_matcher q = Match_Regex p" for q p a
  proof -
    have "p \<in> dom cache"
      using that assms(2-4) unfolding compile_total(2) [OF assms(1)] route_patterns_def
      by (intro UN_I [of v] UN_I [of r]) (auto simp: header_patterns_def pred_patterns_def)
    then obtain c where "cache p = Some c" by blast
    with compile_total(1) [OF assms(1)] show ?thesis by (auto simp: regex_map_sound_def)
  qed
  have "header_holds cache limits (hp_matcher q) (req_header req (hp_name q)) = (case hp_matcher q of
       Match_Present \<Rightarrow> req_header req (hp_name q) \<noteq> None
     | Match_Absent \<Rightarrow> req_header req (hp_name q) = None
     | Match_Exact x \<Rightarrow> req_header req (hp_name q) = Some x
     | Match_Prefix x \<Rightarrow> (\<exists>a. req_header req (hp_name q) = Some (x @ a))
     | Match_Regex p \<Rightarrow> (\<exists>a re. req_header req (hp_name q) = Some a \<and> length a \<le> unat (input_max_bytes limits)
         \<and> re_bytes_build lib (size_limit_bytes limits) p = Inr re \<and> re a))" if "q \<in> set ps" for q
    using cached [OF that] by (cases "hp_matcher q") (auto, (metis+)?)
  with assms(4) show ?thesis by (simp add: all_headers_fst)
qed

theorem header_regex_cache_complete_witness:
  "fst (matches_headers (rm_headers (r_matcher (header_route ''prod'')))
     ((demo_request ''a'' ''/'')\<lparr>req_header := [''x-env'' \<mapsto> ''prod'']\<rparr>)
     [''prod'' \<mapsto> \<lparr>cx_pattern = ''prod'', cx_compiled = \<lambda>s. s = ''prod''\<rparr>] regex_limits_default stats_default)"
  using header_regex_cache_complete [OF literal_compiles, of "\<lparr>vh_host = ''a'', vh_paths = [header_route ''prod'']\<rparr>"
      "header_route ''prod''" "[\<lparr>hp_name = ''x-env'', hp_matcher = Match_Regex ''prod''\<rparr>]"
      "(demo_request ''a'' ''/'')\<lparr>req_header := [''x-env'' \<mapsto> ''prod'']\<rparr>"]
  by (simp add: header_route_def literal_lib_def regex_limits_default_def)

text \<open>
  What the host patterns match. \<open>*.example.com\<close> matches exactly the hosts that end in
  \<open>.example.com\<close>, so never \<open>example.com\<close> itself or \<open>badexample.com\<close>; \<open>example.*\<close>
  exactly those that begin with \<open>example.\<close>.
\<close>

theorem wildcard_match_iff:
  "wildcard_match (''*.'' @ sfx) host = (\<exists>x. host = Some (x @ ''.'' @ sfx))
   \<and> (take 2 (pre @ ''.'') = ''*.'' \<or> wildcard_match (pre @ ''.*'') host = (\<exists>x. host = Some (pre @ ''.'' @ x)))"
proof -
  have sfx: "ends_with h sfx \<and> length h > length sfx \<and> h ! (length h - length sfx - 1) = CHR ''.''
      \<longleftrightarrow> (\<exists>x. h = x @ ''.'' @ sfx)" (is "?l \<longleftrightarrow> ?r") for h
  proof
    assume l: ?l
    then obtain y where y: "h = y @ sfx" by (auto simp: suffix_def)
    with l have "y = butlast y @ [CHR ''.'']"
      by (cases y rule: rev_cases) (auto simp: nth_append)
    with y show ?r by (metis append.assoc)
  qed (auto simp: suffix_def nth_append)
  have pre: "starts_with h pre \<and> length h > length pre \<and> h ! length pre = CHR ''.''
      \<longleftrightarrow> (\<exists>x. h = pre @ ''.'' @ x)" (is "?l \<longleftrightarrow> ?r") for h
  proof
    assume l: ?l
    then obtain y where y: "h = pre @ y" by (auto simp: prefix_def)
    with l obtain z where "y = CHR ''.'' # z" by (cases y) (auto simp: nth_append)
    with y show ?r by simp
  qed (auto simp: nth_append)
  have "strip_prefix (pre @ ''.*'') ''*.'' = None" if "take 2 (pre @ ''.'') \<noteq> ''*.''"
    using that by (cases pre; cases "tl pre") auto
  moreover have "strip_suffix (pre @ ''.*'') ''.*'' = Some pre" by (simp add: string_simps)
  ultimately show ?thesis
    using sfx pre by (cases host) (auto simp: wildcard_match_def split del: if_split)
qed

theorem wildcard_match_iff_witness: "wildcard_match (''*.'' @ ''example.com'') (Some ''a.example.com'')"
  using wildcard_match_iff [of "''example.com''" "Some ''a.example.com''" "[]"] by (auto intro: exI [of _ "''a''"])

end
