(* ===== verification/Retry.thy ===== *)
theory Retry
  imports Core_Types
begin

text \<open>
  The retry machinery of crates/pavis/src/retry.rs: the process-wide budget for buffered request
  bodies with its compare-and-swap loop, the per-request \<open>RetryContext\<close> with its deadline and backoff,
  and the replayability of buffered bodies. The clock is an argument \<open>now\<close> of the operations that
  read it; calls of the metrics registry are recorded in order.
\<close>

section \<open>The global body budget\<close>

definition RETRY_BODY_GLOBAL_BUDGET_BYTES :: u64 where
  "RETRY_BODY_GLOBAL_BUDGET_BYTES = 32 * 1024 * 1024"

text \<open>
  Many requests hold a \<open>BudgetGuard\<close> each. A guard is idle, about to load the counter for
  \<open>try_add(extra)\<close>, or about to compare-and-swap the value it loaded. \<open>try_add\<close> takes the guard
  exclusively, so a guard has one call at a time and is dropped only when idle.
\<close>

datatype guard_pc = Guard_Idle | Guard_Load u64 | Guard_Cas u64 u64

record BudgetGuard =
  guard_bytes :: u64
  guard_pc :: guard_pc

record budget =
  used :: u64
  guards :: "BudgetGuard list"

inductive budget_step :: "budget \<Rightarrow> budget \<Rightarrow> bool" where
  guard_new: "budget_step b (b\<lparr>guards := guards b @ [\<lparr>guard_bytes = 0, guard_pc = Guard_Idle\<rparr>]\<rparr>)"
| try_add: "i < length (guards b) \<Longrightarrow> guard_pc (guards b ! i) = Guard_Idle \<Longrightarrow> extra \<noteq> 0 \<Longrightarrow>
    budget_step b (b\<lparr>guards := (guards b)[i := (guards b ! i)\<lparr>guard_pc := Guard_Load extra\<rparr>]\<rparr>)"
| load_reject: "i < length (guards b) \<Longrightarrow> guard_pc (guards b ! i) = Guard_Load extra \<Longrightarrow>
    saturating_add (used b) extra > RETRY_BODY_GLOBAL_BUDGET_BYTES \<Longrightarrow>
    budget_step b (b\<lparr>guards := (guards b)[i := (guards b ! i)\<lparr>guard_pc := Guard_Idle\<rparr>]\<rparr>)"
| load_ok: "i < length (guards b) \<Longrightarrow> guard_pc (guards b ! i) = Guard_Load extra \<Longrightarrow>
    \<not> saturating_add (used b) extra > RETRY_BODY_GLOBAL_BUDGET_BYTES \<Longrightarrow>
    budget_step b (b\<lparr>guards := (guards b)[i := (guards b ! i)\<lparr>guard_pc := Guard_Cas extra (used b)\<rparr>]\<rparr>)"
| cas_ok: "i < length (guards b) \<Longrightarrow> guard_pc (guards b ! i) = Guard_Cas extra seen \<Longrightarrow> used b = seen \<Longrightarrow>
    budget_step b (b\<lparr>used := saturating_add seen extra,
      guards := (guards b)[i := \<lparr>guard_bytes = saturating_add (guard_bytes (guards b ! i)) extra,
        guard_pc = Guard_Idle\<rparr>]\<rparr>)"
| cas_fail: "i < length (guards b) \<Longrightarrow> guard_pc (guards b ! i) = Guard_Cas extra seen \<Longrightarrow> used b \<noteq> seen \<Longrightarrow>
    budget_step b (b\<lparr>guards := (guards b)[i := (guards b ! i)\<lparr>guard_pc := Guard_Load extra\<rparr>]\<rparr>)"
| guard_drop: "i < length (guards b) \<Longrightarrow> guard_pc (guards b ! i) = Guard_Idle \<Longrightarrow>
    budget_step b (b\<lparr>used := (if guard_bytes (guards b ! i) > 0 then used b - guard_bytes (guards b ! i) else used b),
      guards := take i (guards b) @ drop (Suc i) (guards b)\<rparr>)"

inductive budget_reachable :: "budget \<Rightarrow> bool" where
  start: "budget_reachable \<lparr>used = 0, guards = []\<rparr>"
| step: "budget_reachable b \<Longrightarrow> budget_step b b' \<Longrightarrow> budget_reachable b'"

definition reserved_bytes :: "BudgetGuard list \<Rightarrow> nat" where
  "reserved_bytes gs = (\<Sum>g\<leftarrow>gs. unat (guard_bytes g))"

definition cas_within :: "BudgetGuard \<Rightarrow> bool" where
  "cas_within g \<longleftrightarrow> (\<forall>extra seen. guard_pc g = Guard_Cas extra seen \<longrightarrow>
     unat seen + unat extra \<le> unat RETRY_BODY_GLOBAL_BUDGET_BYTES)"

definition budget_inv :: "budget \<Rightarrow> bool" where
  "budget_inv b \<longleftrightarrow> unat (used b) = reserved_bytes (guards b)
     \<and> unat (used b) \<le> unat RETRY_BODY_GLOBAL_BUDGET_BYTES \<and> (\<forall>g\<in>set (guards b). cas_within g)"

lemma unat_budget: "unat RETRY_BODY_GLOBAL_BUDGET_BYTES = 33554432"
  by (simp add: RETRY_BODY_GLOBAL_BUDGET_BYTES_def)

lemma reserved_split:
  "i < length gs \<Longrightarrow> reserved_bytes gs = reserved_bytes (take i gs) + unat (guard_bytes (gs ! i)) + reserved_bytes (drop (Suc i) gs)"
  by (metis (no_types, lifting) id_take_nth_drop reserved_bytes_def add.assoc list.simps(9) map_append
      sum_list.Cons sum_list_append)

lemma reserved_update:
  "i < length gs \<Longrightarrow> reserved_bytes (gs[i := g]) = reserved_bytes (take i gs) + unat (guard_bytes g) + reserved_bytes (drop (Suc i) gs)"
  by (simp add: reserved_bytes_def upd_conv_take_nth_drop)

lemma reserved_update_same:
  "i < length gs \<Longrightarrow> guard_bytes g = guard_bytes (gs ! i) \<Longrightarrow> reserved_bytes (gs[i := g]) = reserved_bytes gs"
  by (simp add: reserved_update reserved_split)

lemma guards_update:
  "\<forall>g\<in>set gs. P g \<Longrightarrow> P g' \<Longrightarrow> \<forall>g\<in>set (gs[i := g']). P g"
  using set_update_subset_insert by fastforce

lemma saturating_within:
  assumes "\<not> saturating_add a b > RETRY_BODY_GLOBAL_BUDGET_BYTES"
  shows "unat a + unat b \<le> unat RETRY_BODY_GLOBAL_BUDGET_BYTES"
  using assms by (simp add: word_less_nat_alt unat_saturating_add unat_budget)

lemma inv_update_pc:
  assumes "budget_inv b" "i < length (guards b)" "guard_bytes g = guard_bytes (guards b ! i)" "cas_within g"
  shows "budget_inv (b\<lparr>guards := (guards b)[i := g]\<rparr>)"
proof -
  have "\<forall>g\<in>set ((guards b)[i := g]). cas_within g"
    using assms(1,4) by (intro guards_update) (simp_all add: budget_inv_def)
  with assms show ?thesis by (simp add: budget_inv_def reserved_update_same)
qed

lemma budget_step_inv: "budget_step b b' \<Longrightarrow> budget_inv b \<Longrightarrow> budget_inv b'"
proof (induction rule: budget_step.induct)
  case (guard_new b)
  then show ?case by (auto simp: budget_inv_def reserved_bytes_def cas_within_def)
next
  case (try_add i b extra)
  then show ?case by (intro inv_update_pc) (simp_all add: cas_within_def)
next
  case (load_reject i b extra)
  then show ?case by (intro inv_update_pc) (simp_all add: cas_within_def)
next
  case (load_ok i b extra)
  then show ?case
    by (intro inv_update_pc) (simp_all add: cas_within_def saturating_within)
next
  case (cas_ok i b extra seen)
  then have "cas_within (guards b ! i)" by (simp add: budget_inv_def)
  with cas_ok have le: "unat seen + unat extra \<le> unat RETRY_BODY_GLOBAL_BUDGET_BYTES"
    by (simp add: cas_within_def)
  have sat: "unat (saturating_add seen extra) = unat seen + unat extra"
    using le by (simp add: unat_saturating_add unat_budget)
  have "unat (guard_bytes (guards b ! i)) \<le> unat seen"
    using cas_ok by (auto simp: budget_inv_def reserved_split)
  with le have "unat (saturating_add (guard_bytes (guards b ! i)) extra) = unat (guard_bytes (guards b ! i)) + unat extra"
    by (simp add: unat_saturating_add unat_budget)
  moreover have "\<forall>g\<in>set ((guards b)[i := \<lparr>guard_bytes = saturating_add (guard_bytes (guards b ! i)) extra,
      guard_pc = Guard_Idle\<rparr>]). cas_within g"
    using cas_ok by (intro guards_update) (auto simp: budget_inv_def cas_within_def)
  ultimately show ?case
    using cas_ok sat le by (simp add: budget_inv_def reserved_update reserved_split [of i])
next
  case (cas_fail i b extra seen)
  then show ?case by (intro inv_update_pc) (simp_all add: cas_within_def)
next
  case (guard_drop i b)
  then have eq: "unat (used b) = reserved_bytes (take i (guards b)) + unat (guard_bytes (guards b ! i))
      + reserved_bytes (drop (Suc i) (guards b))"
    by (simp add: budget_inv_def reserved_split)
  then have "unat (used b - guard_bytes (guards b ! i)) = unat (used b) - unat (guard_bytes (guards b ! i))"
    by (intro unat_sub) (simp add: word_le_nat_alt)
  with eq guard_drop show ?case
    by (auto simp: budget_inv_def reserved_bytes_def word_gt_0 dest: in_set_takeD in_set_dropD)
qed

lemma budget_reachable_inv: "budget_reachable b \<Longrightarrow> budget_inv b"
  by (induction rule: budget_reachable.induct)
    (auto simp: budget_inv_def reserved_bytes_def dest: budget_step_inv)

text \<open>
  C11: the budget for buffered bodies is exact under every interleaving of the guards. The counter is
  the sum of what the live guards hold, so it never exceeds 32 MB, the subtraction in \<open>drop\<close> never
  wraps, and when every guard is dropped the counter is zero again.
\<close>

theorem body_budget_exact:
  assumes "budget_reachable b"
  shows "unat (used b) = (\<Sum>g\<leftarrow>guards b. unat (guard_bytes g)) \<and> unat (used b) \<le> 32 * 1024 * 1024
    \<and> (\<forall>g\<in>set (guards b). guard_bytes g \<le> used b) \<and> (guards b = [] \<longrightarrow> used b = 0)"
proof -
  from budget_reachable_inv [OF assms] have inv: "budget_inv b" .
  have "guard_bytes g \<le> used b" if g: "g \<in> set (guards b)" for g
  proof -
    from g have "unat (guard_bytes g) \<in> set (map (unat \<circ> guard_bytes) (guards b))" by auto
    then have "unat (guard_bytes g) \<le> sum_list (map (unat \<circ> guard_bytes) (guards b))"
      by (intro member_le_sum_list) simp_all
    with inv show ?thesis by (simp add: budget_inv_def reserved_bytes_def word_le_nat_alt comp_def)
  qed
  with inv show ?thesis
    by (auto simp: budget_inv_def reserved_bytes_def unat_budget unat_eq_zero)
qed

theorem body_budget_exact_witness:
  "unat (used \<lparr>used = 5, guards = [\<lparr>guard_bytes = 5, guard_pc = Guard_Idle\<rparr>]\<rparr>) \<le> 32 * 1024 * 1024"
proof -
  let ?g = "\<lambda>n pc. \<lparr>guard_bytes = n, guard_pc = pc\<rparr>"
  have "budget_reachable \<lparr>used = 0, guards = [?g 0 Guard_Idle]\<rparr>"
    using budget_reachable.step [OF start guard_new] by simp
  then have "budget_reachable \<lparr>used = 0, guards = [?g 0 (Guard_Load 5)]\<rparr>"
    using budget_reachable.step [OF _ budget_step.try_add [of 0 "\<lparr>used = 0, guards = [?g 0 Guard_Idle]\<rparr>" 5]] by simp
  then have "budget_reachable \<lparr>used = 0, guards = [?g 0 (Guard_Cas 5 0)]\<rparr>"
    using budget_reachable.step [OF _ load_ok [of 0 "\<lparr>used = 0, guards = [?g 0 (Guard_Load 5)]\<rparr>" 5]]
    by (simp add: saturating_add_def RETRY_BODY_GLOBAL_BUDGET_BYTES_def)
  then have "budget_reachable \<lparr>used = 5, guards = [?g 5 Guard_Idle]\<rparr>"
    using budget_reachable.step [OF _ cas_ok [of 0 "\<lparr>used = 0, guards = [?g 0 (Guard_Cas 5 0)]\<rparr>" 5 0]]
    by (simp add: saturating_add_def)
  from body_budget_exact [OF this] show ?thesis by simp
qed

section \<open>Retry context\<close>

datatype metric_call =
    Record_retry string string u16
  | Record_retry_outcome string string
  | Record_retry_body_buffered string u64

record RetryContext =
  global_deadline :: instant
  attempt :: u16
  max_attempts :: u16
  rc_policy :: RetryPolicy
  rc_metrics :: "metric_call list option"
  upstream_name :: string

definition retry_context_new ::
  "instant \<Rightarrow> RetryPolicy \<Rightarrow> u64 \<Rightarrow> metric_call list option \<Rightarrow> string \<Rightarrow> RetryContext" where
  "retry_context_new now policy request_timeout_ms metrics name =
     \<lparr>global_deadline = now + from_millis (unat request_timeout_ms), attempt = 1,
      max_attempts = (case policy of Retry_Enabled c \<Rightarrow> rp_max_attempts c | Retry_Disabled \<Rightarrow> 1),
      rc_policy = policy, rc_metrics = metrics, upstream_name = name\<rparr>"

definition remaining_budget :: "instant \<Rightarrow> RetryContext \<Rightarrow> duration" where
  "remaining_budget now c = global_deadline c - now"

definition is_deadline_exceeded :: "instant \<Rightarrow> RetryContext \<Rightarrow> bool" where
  "is_deadline_exceeded now c \<longleftrightarrow> now \<ge> global_deadline c"

definition can_retry :: "instant \<Rightarrow> RetryContext \<Rightarrow> bool" where
  "can_retry now c \<longleftrightarrow> attempt c < max_attempts c \<and> \<not> is_deadline_exceeded now c"

fun reason_str :: "RetryReason \<Rightarrow> string" where
  "reason_str Reason_StatusCode = ''status_code''"
| "reason_str Reason_ConnectTimeout = ''connect_timeout''"
| "reason_str Reason_ReadTimeout = ''read_timeout''"
| "reason_str Reason_PerTryTimeout = ''per_try_timeout''"
| "reason_str Reason_PoolFull = ''pool_full''"
| "reason_str Reason_ConnectError = ''connect_error''"

definition next_attempt :: "RetryReason \<Rightarrow> RetryContext \<Rightarrow> RetryContext" where
  "next_attempt reason c =
     (let n = attempt c + 1 in
      c\<lparr>attempt := n, rc_metrics := map_option (\<lambda>ms. ms @ [Record_retry (upstream_name c) (reason_str reason) n]) (rc_metrics c)\<rparr>)"

definition record_outcome :: "bool \<Rightarrow> RetryContext \<Rightarrow> RetryContext" where
  "record_outcome success c = c\<lparr>rc_metrics := map_option
     (\<lambda>ms. ms @ [Record_retry_outcome (upstream_name c) (if success then ''success'' else ''exhausted'')]) (rc_metrics c)\<rparr>"

definition is_retryable :: "RetryReason \<Rightarrow> RetryContext \<Rightarrow> bool" where
  "is_retryable reason c =
     (case rc_policy c of Retry_Disabled \<Rightarrow> False | Retry_Enabled p \<Rightarrow> reason \<in> set (rp_retryable_reasons p))"

definition is_status_code_retryable :: "u16 \<Rightarrow> RetryContext \<Rightarrow> bool" where
  "is_status_code_retryable status c =
     (case rc_policy c of
        Retry_Disabled \<Rightarrow> False
      | Retry_Enabled p \<Rightarrow>
          if Reason_StatusCode \<notin> set (rp_retryable_reasons p) then False
          else case rp_retryable_status_codes p of Some codes \<Rightarrow> status \<in> set codes | None \<Rightarrow> False)"

definition is_method_allowed :: "HttpMethod \<Rightarrow> RetryContext \<Rightarrow> bool" where
  "is_method_allowed m c =
     (case rc_policy c of
        Retry_Disabled \<Rightarrow> False
      | Retry_Enabled p \<Rightarrow>
          case from_method m of Idempotent \<Rightarrow> True | NonIdempotent \<Rightarrow> rp_retry_non_idempotent p)"

text \<open>The delay in milliseconds of a strategy at an attempt.\<close>

fun strategy_delay_ms :: "BackoffStrategy \<Rightarrow> u16 \<Rightarrow> u64" where
  "strategy_delay_ms (Backoff_Fixed base_ms) n = base_ms"
| "strategy_delay_ms (Backoff_Linear base_ms) n = saturating_mul base_ms (ucast (n - 1))"
| "strategy_delay_ms (Backoff_Exponential base_ms max_ms) n =
     (if n < 2 then 0 else min (saturating_mul base_ms (saturating_pow 2 (unat (n - 2)))) max_ms)"

definition calculate_backoff :: "RetryContext \<Rightarrow> duration" where
  "calculate_backoff c =
     (case rc_policy c of
        Retry_Disabled \<Rightarrow> 0
      | Retry_Enabled p \<Rightarrow> from_millis (unat (strategy_delay_ms (rp_backoff p) (attempt c))))"

text \<open>How long \<open>apply_backoff\<close> sleeps, \<open>None\<close> when it does not.\<close>

definition apply_backoff :: "instant \<Rightarrow> RetryContext \<Rightarrow> duration option" where
  "apply_backoff now c =
     (if attempt c \<le> 1 then None
      else if remaining_budget now c = 0 then None
      else Some (min (calculate_backoff c) (remaining_budget now c)))"

section \<open>Buffered bodies\<close>

record BufferedBody =
  body_bytes :: bytes
  replayability :: BodyReplayability

definition buffered_body_new ::
  "bytes \<Rightarrow> u64 \<Rightarrow> metric_call list option \<Rightarrow> string \<Rightarrow> bool \<Rightarrow> BufferedBody \<times> metric_call list option" where
  "buffered_body_new bs max_buffer_size metrics name force_streaming =
     (if force_streaming then (\<lparr>body_bytes = bs, replayability = Body_Streaming\<rparr>, metrics)
      else if bs = [] then (\<lparr>body_bytes = bs, replayability = Body_Empty\<rparr>, metrics)
      else if of_nat (length bs) \<le> max_buffer_size
        then (\<lparr>body_bytes = bs, replayability = Body_Buffered\<rparr>,
              map_option (\<lambda>ms. ms @ [Record_retry_body_buffered name (of_nat (length bs))]) metrics)
      else (\<lparr>body_bytes = bs, replayability = Body_Streaming\<rparr>, metrics))"

definition can_replay :: "BufferedBody \<Rightarrow> bool" where
  "can_replay b \<longleftrightarrow> replayability b = Body_Empty \<or> replayability b = Body_Buffered"

datatype RetryBodyError = NotReplayable

definition handle_non_replayable :: "bool \<Rightarrow> BufferedBody \<Rightarrow> RetryBodyError + unit" where
  "handle_non_replayable fail_on_non_replayable b =
     (if \<not> can_replay b \<and> fail_on_non_replayable then Inl NotReplayable else Inr ())"

section \<open>Properties of the context\<close>

text \<open>The documented delays, without machine arithmetic.\<close>

fun documented_delay :: "BackoffStrategy \<Rightarrow> nat \<Rightarrow> nat" where
  "documented_delay (Backoff_Fixed base) n = unat base"
| "documented_delay (Backoff_Linear base) n = unat base * (n - 1)"
| "documented_delay (Backoff_Exponential base cap) n = min (unat base * 2 ^ (n - 2)) (unat cap)"

lemma unat_pred: "(k::16 word) \<le> n \<Longrightarrow> unat (n - k) = unat n - unat k"
  by (rule unat_sub)

lemma exponential_exact:
  "min (unat (saturating_mul b (saturating_pow 2 k :: u64))) m = min (unat b * 2 ^ k) m" if "m < 2 ^ 64"
proof (cases "(2::nat) ^ k < 2 ^ 64")
  case True
  then have "unat (saturating_pow 2 k :: u64) = 2 ^ k" by (simp add: unat_saturating_pow)
  with that show ?thesis by (simp add: unat_saturating_mul)
next
  case False
  then have p: "unat (saturating_pow 2 k :: u64) = 2 ^ 64 - 1" by (simp add: unat_saturating_pow)
  show ?thesis
  proof (cases "unat b = 0")
    case True
    then show ?thesis by (simp add: unat_saturating_mul)
  next
    case nz: False
    then have "2 ^ 64 - 1 \<le> unat b * (2 ^ 64 - 1)" "2 ^ 64 \<le> unat b * 2 ^ k"
      using False mult_le_mono [of 1 "unat b" "2 ^ 64" "2 ^ k"] by simp_all
    with that p show ?thesis by (simp add: unat_saturating_mul)
  qed
qed

text \<open>
  The delay before a retry is the documented one. From the second attempt on it is \<open>base\<close>,
  \<open>base * (attempt - 1)\<close>, or \<open>min (base * 2 ^ (attempt - 2)) max\<close> milliseconds, as exact numbers, up to
  the largest \<open>u64\<close>; the saturating arithmetic is visible for no other values.
\<close>

theorem backoff_delay_documented:
  assumes "rc_policy c = Retry_Enabled p" "2 \<le> attempt c"
  shows "calculate_backoff c = from_millis (min (documented_delay (rp_backoff p) (unat (attempt c))) (2 ^ 64 - 1))"
proof -
  have n: "1 \<le> attempt c" "2 \<le> unat (attempt c)"
    using assms(2) by (simp_all add: word_le_nat_alt)
  have e: "unat (attempt c - 1) = unat (attempt c) - 1" "unat (attempt c - 2) = unat (attempt c) - 2"
    using n(1) assms(2) by (simp_all add: unat_pred)
  have "unat (strategy_delay_ms (rp_backoff p) (attempt c))
      = min (documented_delay (rp_backoff p) (unat (attempt c))) (2 ^ 64 - 1)"
  proof (cases "rp_backoff p")
    case (Backoff_Fixed base)
    then show ?thesis using unat_le_max [of base] by simp
  next
    case (Backoff_Linear base)
    have "unat (ucast (attempt c - 1) :: u64) = unat (attempt c) - 1"
      using e(1) unat_less_exp [of "attempt c"] by (simp add: unsigned_ucast_eq take_bit_nat_eq_self)
    with Backoff_Linear show ?thesis by (simp add: unat_saturating_mul)
  next
    case (Backoff_Exponential base cap)
    have "unat cap < 2 ^ 64" using unat_less_exp [of cap] by simp
    moreover have "\<not> attempt c < 2" using assms(2) by (simp add: not_less)
    ultimately show ?thesis
      using exponential_exact [of "unat cap" base "unat (attempt c - 2)"] Backoff_Exponential e(2)
      by (simp add: unat_min)
  qed
  with assms(1) show ?thesis by (simp add: calculate_backoff_def)
qed

definition sample_policy :: "BackoffStrategy \<Rightarrow> RetryConfig" where
  "sample_policy b = \<lparr>rp_max_attempts = 5, rp_per_try = TryTimeout_Inherit, rp_retryable_reasons = [Reason_StatusCode],
     rp_retryable_status_codes = Some retryable_codes_default, rp_backoff = b, rp_retry_non_idempotent = False,
     rp_fail_on_non_replayable_retry = False, rp_max_request_body_buffer_bytes = 1024\<rparr>"

theorem backoff_delay_documented_witness:
  "calculate_backoff ((retry_context_new 0 (Retry_Enabled (sample_policy backoff_default)) 1000 None ''u'')\<lparr>attempt := 4\<rparr>)
   = from_millis 400"
  using backoff_delay_documented [of "(retry_context_new 0 (Retry_Enabled (sample_policy backoff_default)) 1000 None ''u'')\<lparr>attempt := 4\<rparr>"
      "sample_policy backoff_default"]
  by (simp add: retry_context_new_def sample_policy_def backoff_default_def)

text \<open>
  The sleep before a retry ends at the global deadline at the latest.
\<close>

theorem backoff_within_deadline:
  "case apply_backoff now c of None \<Rightarrow> attempt c \<le> 1 \<or> global_deadline c \<le> now
   | Some d \<Rightarrow> now + d \<le> global_deadline c \<and> d \<le> calculate_backoff c"
  by (auto simp: apply_backoff_def remaining_budget_def)

text \<open>
  A request's retries: every call of \<open>next_attempt\<close> in proxy/service/io.rs is guarded by \<open>can_retry\<close>
  at the time of the failure.
\<close>

definition failure_at :: "instant \<times> RetryReason \<Rightarrow> RetryContext \<Rightarrow> RetryContext" where
  "failure_at ev c = (if can_retry (fst ev) c then next_attempt (snd ev) c else c)"

lemma failure_at_attempt:
  "unat (attempt (failure_at ev c)) = (if can_retry (fst ev) c then unat (attempt c) + 1 else unat (attempt c))"
proof -
  have "unat (attempt c + 1) = unat (attempt c) + 1" if "attempt c < max_attempts c"
    using that unat_less_exp [of "max_attempts c"] by (simp add: word_less_nat_alt unat_word_ariths)
  then show ?thesis by (auto simp: failure_at_def next_attempt_def can_retry_def Let_def)
qed

lemma failure_at_keeps:
  "max_attempts (failure_at ev c) = max_attempts c" "global_deadline (failure_at ev c) = global_deadline c"
  "rc_policy (failure_at ev c) = rc_policy c"
  by (simp_all add: failure_at_def next_attempt_def Let_def)

lemma failures_bounded:
  "unat (attempt (fold failure_at evs c)) \<le> max (unat (attempt c)) (unat (max_attempts c))
   \<and> max_attempts (fold failure_at evs c) = max_attempts c
   \<and> unat (attempt (fold failure_at evs c)) \<le> unat (attempt c) + length (filter (\<lambda>ev. fst ev < global_deadline c) evs)"
proof (induction evs arbitrary: c)
  case (Cons ev evs)
  have "unat (attempt (failure_at ev c)) \<le> max (unat (attempt c)) (unat (max_attempts c))"
    by (auto simp: failure_at_attempt can_retry_def word_less_nat_alt)
  moreover have "unat (attempt (failure_at ev c)) \<le> unat (attempt c) + (if fst ev < global_deadline c then 1 else 0)"
    by (simp add: failure_at_attempt can_retry_def is_deadline_exceeded_def)
  ultimately show ?case
    using Cons.IH [of "failure_at ev c"] by (auto simp: failure_at_keeps split: if_splits)
qed simp

text \<open>
  A request is attempted at most \<open>max_attempts\<close> times (once when retries are disabled), whatever
  failures occur and when, and no attempt is started for a failure at or after the deadline.
\<close>

theorem attempts_bounded:
  "unat (attempt (fold failure_at evs (retry_context_new now policy timeout metrics name)))
   \<le> min (max 1 (case policy of Retry_Disabled \<Rightarrow> 1 | Retry_Enabled p \<Rightarrow> unat (rp_max_attempts p)))
       (1 + length (filter (\<lambda>ev. fst ev < now + from_millis (unat timeout)) evs))"
  using failures_bounded [of evs "retry_context_new now policy timeout metrics name"]
  by (auto simp: retry_context_new_def split: RetryPolicy.splits)

end
