(* ===== verification/Load_Balance.thy ===== *)
theory Load_Balance
  imports Core_Types
begin

text \<open>
  Weighted endpoint selection: crates/pavis/src/upstream/load_balance.rs and \<open>build_state_parts\<close> of
  upstream/cluster/state.rs. The binary search is the one of the standard library's slices, as a loop
  over \<open>base\<close> and \<open>size\<close>. A \<open>usize\<close> has 64 bits; the round-robin counter wraps. The random picks
  are an argument.
\<close>

type_synonym usize = u64

section \<open>Cumulative weights (cluster/state.rs)\<close>

record ClusterState =
  cs_endpoints :: "Endpoint list"
  cs_cumulative_weights :: "u32 list"
  cs_total_weight :: u32

fun cumulate :: "u32 \<Rightarrow> Endpoint list \<Rightarrow> u32 list \<times> u32" where
  "cumulate acc [] = ([], acc)"
| "cumulate acc (e # es) =
     (let acc' = acc + ucast (ep_weight e); (ws, final) = cumulate acc' es in (acc' # ws, final))"

definition build_state_parts :: "Endpoint list \<Rightarrow> ClusterState" where
  "build_state_parts es = (let (ws, final) = cumulate 0 es in
     \<lparr>cs_endpoints = es, cs_cumulative_weights = ws, cs_total_weight = final\<rparr>)"

section \<open>Binary search\<close>

datatype ordering = Less | Equal | Greater

text \<open>\<open>slice::binary_search_by\<close>: \<open>Inr\<close> is \<open>Ok\<close>, the index of an equal element.\<close>

function bsearch_loop :: "('a \<Rightarrow> ordering) \<Rightarrow> 'a list \<Rightarrow> nat \<Rightarrow> nat \<Rightarrow> nat" where
  "bsearch_loop f xs base sz =
     (if sz \<le> 1 then base
      else let half = sz div 2; mid = base + half in
        bsearch_loop f xs (if f (xs ! mid) = Greater then base else mid) (sz - half))"
  by pat_completeness auto

termination bsearch_loop
  by (relation "measure (\<lambda>(f, xs, base, sz). sz)") auto

declare bsearch_loop.simps [simp del]

definition binary_search_by :: "('a \<Rightarrow> ordering) \<Rightarrow> 'a list \<Rightarrow> nat + nat" where
  "binary_search_by f xs =
     (if xs = [] then Inl 0
      else let base = bsearch_loop f xs 0 (length xs) in
        case f (xs ! base) of
          Equal \<Rightarrow> Inr base
        | Less \<Rightarrow> Inl (base + 1)
        | Greater \<Rightarrow> Inl base)"

definition find_index :: "u32 list \<Rightarrow> u32 \<Rightarrow> nat" where
  "find_index ws pick =
     min (case binary_search_by (\<lambda>w. if w \<le> pick then Less else Greater) ws of Inr i \<Rightarrow> i | Inl i \<Rightarrow> i)
       (length ws - 1)"

text \<open>
  \<open>select_index\<close> returns the index and the counter after it. \<open>random_pick\<close> is the result of
  \<open>random_range(0..total_weight)\<close>.
\<close>

definition select_index ::
  "LoadBalancer \<Rightarrow> ClusterState \<Rightarrow> usize \<Rightarrow> u32 \<Rightarrow> nat \<times> usize" where
  "select_index lb st counter random_pick =
     (if cs_endpoints st = [] \<or> cs_total_weight st = 0 then (0, counter)
      else case lb of
        RoundRobin \<Rightarrow> (find_index (cs_cumulative_weights st) (ucast counter mod cs_total_weight st), counter + 1)
      | Random \<Rightarrow> (find_index (cs_cumulative_weights st) random_pick, counter)
      | LeastRequest \<Rightarrow> (find_index (cs_cumulative_weights st) random_pick, counter))"

section \<open>The search finds the partition point\<close>

text \<open>\<open>partition_at f xs p\<close>: below \<open>p\<close> the comparison says \<open>Less\<close>, from \<open>p\<close> on \<open>Greater\<close>.\<close>

definition partition_at :: "('a \<Rightarrow> ordering) \<Rightarrow> 'a list \<Rightarrow> nat \<Rightarrow> bool" where
  "partition_at f xs p \<longleftrightarrow> p \<le> length xs \<and> (\<forall>i<p. f (xs ! i) = Less) \<and> (\<forall>i. p \<le> i \<and> i < length xs \<longrightarrow> f (xs ! i) = Greater)"

lemma bsearch_loop_partition:
  assumes "partition_at f xs p"
  shows "0 < sz \<Longrightarrow> base + sz \<le> length xs \<Longrightarrow> base < p \<or> base = 0 \<Longrightarrow> p \<le> base + sz \<Longrightarrow>
    bsearch_loop f xs base sz = (if p = 0 then 0 else p - 1)"
proof (induction sz arbitrary: base rule: less_induct)
  case (less sz)
  show ?case
  proof (cases "sz \<le> 1")
    case True
    with less.prems show ?thesis by (subst bsearch_loop.simps) auto
  next
    case False
    define half where "half = sz div 2"
    have h: "0 < half" "half < sz" "half \<le> sz - half" using False by (auto simp: half_def)
    have cmp: "f (xs ! (base + half)) = Greater \<longleftrightarrow> p \<le> base + half"
    proof (cases "p \<le> base + half")
      case True
      with assms less.prems h show ?thesis by (simp add: partition_at_def)
    next
      case False
      with assms show ?thesis by (simp add: partition_at_def)
    qed
    have "bsearch_loop f xs base sz
        = bsearch_loop f xs (if p \<le> base + half then base else base + half) (sz - half)"
      using False cmp by (subst bsearch_loop.simps) (simp add: Let_def half_def)
    also have "\<dots> = (if p = 0 then 0 else p - 1)"
      using less.prems h by (intro less.IH) (auto split: if_splits)
    finally show ?thesis .
  qed
qed

lemma binary_search_partition:
  assumes "partition_at f xs p"
  shows "binary_search_by f xs = Inl p"
proof (cases "xs = []")
  case True
  with assms show ?thesis by (simp add: binary_search_by_def partition_at_def)
next
  case False
  then have "bsearch_loop f xs 0 (length xs) = (if p = 0 then 0 else p - 1)"
    using bsearch_loop_partition [OF assms, of "length xs" 0] assms by (simp add: partition_at_def)
  moreover have "f (xs ! (p - 1)) = Less" if "p \<noteq> 0" using assms that by (simp add: partition_at_def)
  moreover have "f (xs ! 0) = Greater" if "p = 0" using assms that False by (simp add: partition_at_def)
  ultimately show ?thesis using False by (cases "p = 0") (simp_all add: binary_search_by_def)
qed

section \<open>Weighted choice\<close>

definition prefix_weight :: "Endpoint list \<Rightarrow> nat \<Rightarrow> nat" where
  "prefix_weight es i = (\<Sum>e\<leftarrow>take i es. unat (ep_weight e))"

definition total_weight_of :: "Endpoint list \<Rightarrow> nat" where
  "total_weight_of es = prefix_weight es (length es)"

lemma prefix_weight_Suc: "i < length es \<Longrightarrow> prefix_weight es (Suc i) = prefix_weight es i + unat (ep_weight (es ! i))"
  by (simp add: prefix_weight_def take_Suc_conv_app_nth)

lemma prefix_weight_mono: "i \<le> j \<Longrightarrow> prefix_weight es i \<le> prefix_weight es j"
proof (induction rule: dec_induct)
  case (step n)
  have "prefix_weight es n \<le> prefix_weight es (Suc n)"
    by (cases "n < length es") (simp_all add: prefix_weight_Suc, simp add: prefix_weight_def)
  with step show ?case by simp
qed simp

lemma unat_weight_add:
  "unat (a :: u32) + unat (w :: u16) < 2 ^ 32 \<Longrightarrow> unat (a + ucast w) = unat a + unat w"
proof -
  have "unat (ucast w :: u32) = unat w"
    using unat_less_exp [of w] by (simp add: unsigned_ucast_eq take_bit_nat_eq_self)
  then show "unat a + unat w < 2 ^ 32 \<Longrightarrow> unat (a + ucast w) = unat a + unat w"
    by (simp add: unat_word_ariths)
qed

lemma cumulate_weights:
  "unat acc + total_weight_of es < 2 ^ 32 \<Longrightarrow>
     length (fst (cumulate acc es)) = length es
     \<and> (\<forall>i<length es. unat (fst (cumulate acc es) ! i) = unat acc + prefix_weight es (Suc i))
     \<and> unat (snd (cumulate acc es)) = unat acc + total_weight_of es"
proof (induction es arbitrary: acc)
  case (Cons e es)
  have split: "prefix_weight (e # es) (Suc i) = unat (ep_weight e) + prefix_weight es i" for i
    by (simp add: prefix_weight_def)
  have t: "total_weight_of (e # es) = unat (ep_weight e) + total_weight_of es"
    by (simp add: total_weight_of_def split)
  have acc: "unat (acc + ucast (ep_weight e)) = unat acc + unat (ep_weight e)"
    using Cons.prems t by (intro unat_weight_add) simp
  with Cons.IH [of "acc + ucast (ep_weight e)"] Cons.prems t show ?case
    by (auto simp: split_beta Let_def nth_Cons split split: nat.splits simp: prefix_weight_def)
qed (simp add: total_weight_of_def prefix_weight_def)

lemma state_parts:
  assumes "total_weight_of es < 2 ^ 32"
  shows "length (cs_cumulative_weights (build_state_parts es)) = length es
    \<and> (\<forall>i<length es. unat (cs_cumulative_weights (build_state_parts es) ! i) = prefix_weight es (Suc i))
    \<and> unat (cs_total_weight (build_state_parts es)) = total_weight_of es \<and> cs_endpoints (build_state_parts es) = es"
  using cumulate_weights [of 0 es] assms by (simp add: build_state_parts_def split_beta Let_def)

text \<open>The search returns the endpoint in whose share of the total weight the pick lies.\<close>

lemma find_index_share:
  assumes "total_weight_of es < 2 ^ 32" "i < length es"
    and "prefix_weight es i \<le> unat pick" "unat pick < prefix_weight es (Suc i)"
  shows "find_index (cs_cumulative_weights (build_state_parts es)) pick = i"
proof -
  define ws where "ws = cs_cumulative_weights (build_state_parts es)"
  have ws: "length ws = length es" "\<And>j. j < length es \<Longrightarrow> unat (ws ! j) = prefix_weight es (Suc j)"
    using state_parts [OF assms(1)] by (simp_all add: ws_def)
  have "partition_at (\<lambda>w. if w \<le> pick then Less else Greater) ws i"
    unfolding partition_at_def
  proof (intro conjI allI impI)
    fix j
    assume "j < i"
    with assms ws(2) [of j] prefix_weight_mono [of "Suc j" i es]
    show "(if ws ! j \<le> pick then Less else Greater) = Less" by (simp add: word_le_nat_alt)
  next
    fix j
    assume "i \<le> j \<and> j < length ws"
    with assms ws prefix_weight_mono [of "Suc i" "Suc j" es]
    show "(if ws ! j \<le> pick then Less else Greater) = Greater" by (simp add: word_le_nat_alt)
  qed (use assms ws in simp)
  with assms(2) ws(1) show ?thesis
    by (simp add: find_index_def binary_search_partition flip: ws_def)
qed

lemma share_exists:
  assumes "n < total_weight_of es"
  shows "\<exists>i<length es. prefix_weight es i \<le> n \<and> n < prefix_weight es (Suc i)"
proof -
  define m where "m = (LEAST j. n < prefix_weight es j)"
  have "n < prefix_weight es m" and least: "\<And>j. n < prefix_weight es j \<Longrightarrow> m \<le> j"
    using assms unfolding m_def total_weight_of_def by (auto intro: LeastI Least_le)
  moreover have "m \<le> length es" using least assms by (simp add: total_weight_of_def)
  moreover have "m \<noteq> 0" using \<open>n < prefix_weight es m\<close> by (cases m) (auto simp: prefix_weight_def)
  moreover have "prefix_weight es (m - 1) \<le> n" using least [of "m - 1"] \<open>m \<noteq> 0\<close> by force
  ultimately show ?thesis by (intro exI [of _ "m - 1"]) auto
qed

lemma find_index_iff:
  assumes "total_weight_of es < 2 ^ 32" "unat pick < total_weight_of es"
  shows "find_index (cs_cumulative_weights (build_state_parts es)) pick = i \<longleftrightarrow>
    i < length es \<and> prefix_weight es i \<le> unat pick \<and> unat pick < prefix_weight es (Suc i)"
  using share_exists [OF assms(2)] find_index_share [OF assms(1)] by metis

section \<open>Properties\<close>

text \<open>
  C12: a pick selects an endpoint by weight. For endpoints whose weights add up to less than \<open>2 ^ 32\<close>
  and every pick below the total, \<open>find_index\<close> returns the one index \<open>i\<close> whose share
  \<open>[w_0 + ... + w_(i-1), w_0 + ... + w_i)\<close> contains the pick, so exactly \<open>w_i\<close> of the picks return \<open>i\<close>.
\<close>

theorem find_index_weighted:
  assumes "total_weight_of es < 2 ^ 32" "i < length es"
  shows "card {pick. unat pick < total_weight_of es
      \<and> find_index (cs_cumulative_weights (build_state_parts es)) pick = i} = unat (ep_weight (es ! i))"
proof -
  let ?S = "{pick :: u32. unat pick < total_weight_of es
      \<and> find_index (cs_cumulative_weights (build_state_parts es)) pick = i}"
  have le: "prefix_weight es (Suc i) \<le> total_weight_of es"
    unfolding total_weight_of_def using assms(2) by (intro prefix_weight_mono) simp
  have "unat ` ?S = {prefix_weight es i ..< prefix_weight es (Suc i)}"
  proof (intro equalityI subsetI)
    fix n
    assume "n \<in> unat ` ?S"
    then obtain pick where "n = unat pick" "pick \<in> ?S" by blast
    then show "n \<in> {prefix_weight es i ..< prefix_weight es (Suc i)}"
      using find_index_iff [OF assms(1), of pick i] by simp
  next
    fix n
    assume n: "n \<in> {prefix_weight es i ..< prefix_weight es (Suc i)}"
    then have "n < 2 ^ 32" using le assms(1) by simp
    then have u: "unat (of_nat n :: u32) = n" by (simp add: unat_of_nat)
    have "find_index (cs_cumulative_weights (build_state_parts es)) (of_nat n) = i"
      by (rule find_index_share [OF assms]) (use n u in simp_all)
    with n le u have "(of_nat n :: u32) \<in> ?S" by simp
    from imageI [OF this, of unat] show "n \<in> unat ` ?S" by (simp only: u)
  qed
  moreover have "inj_on unat ?S" by (rule inj_onI) (simp add: word_unat_eq_iff)
  ultimately have "card {prefix_weight es i ..< prefix_weight es (Suc i)} = card ?S"
    using card_image [of unat ?S] by (simp only:)
  then show ?thesis using assms(2) by (simp add: prefix_weight_Suc)
qed

definition sample_endpoints :: "Endpoint list" where
  "sample_endpoints = [\<lparr>ep_address = Endpoint_Ip (V4 1) 80, ep_weight = 1\<rparr>, \<lparr>ep_address = Endpoint_Ip (V4 2) 80, ep_weight = 3\<rparr>]"

theorem find_index_weighted_witness:
  "card {pick. unat pick < total_weight_of sample_endpoints
     \<and> find_index (cs_cumulative_weights (build_state_parts sample_endpoints)) pick = 1} = 3"
  using find_index_weighted [of sample_endpoints 1]
  by (simp add: sample_endpoints_def total_weight_of_def prefix_weight_def)

text \<open>The indices of consecutive round-robin selections.\<close>

fun rr_run :: "ClusterState \<Rightarrow> usize \<Rightarrow> nat \<Rightarrow> nat list" where
  "rr_run st counter 0 = []"
| "rr_run st counter (Suc n) =
     (case select_index RoundRobin st counter 0 of (i, counter') \<Rightarrow> i # rr_run st counter' n)"

lemma rr_run_eq:
  "cs_endpoints st \<noteq> [] \<Longrightarrow> cs_total_weight st \<noteq> 0 \<Longrightarrow>
     rr_run st counter n = map (\<lambda>k. find_index (cs_cumulative_weights st)
       (ucast (counter + of_nat k) mod cs_total_weight st)) [0..<n]"
proof (induction n arbitrary: counter)
  case (Suc n)
  have "rr_run st counter (Suc n) = find_index (cs_cumulative_weights st) (ucast counter mod cs_total_weight st)
      # rr_run st (counter + 1) n"
    using Suc.prems by (simp add: select_index_def)
  also have "counter + 1 + of_nat k = counter + of_nat (Suc k)" for k by simp
  then have "rr_run st (counter + 1) n = map (\<lambda>k. find_index (cs_cumulative_weights st)
      (ucast (counter + of_nat (Suc k)) mod cs_total_weight st)) [0..<n]"
    using Suc.IH [OF Suc.prems, of "counter + 1"] by (simp only:)
  finally show ?case by (simp add: map_upt_Suc del: upt_Suc of_nat_Suc)
qed simp

lemma length_filter_upt: "length (filter P [0..<t]) = card {k. k < t \<and> P k}"
  by (simp add: length_filter_conv_card cong: conj_cong)

lemma count_map: "count_list (map f xs) y = length (filter (\<lambda>x. f x = y) xs)"
  by (induction xs) auto

text \<open>A full cycle of consecutive numbers modulo \<open>t\<close> meets every residue in a set as often as it has elements.\<close>

lemma cycle_card:
  assumes "t > (0::nat)" "A \<subseteq> {..<t}"
  shows "card {k. k < t \<and> (a + k) mod t \<in> A} = card A"
proof -
  have inj: "inj_on (\<lambda>k. (a + k) mod t) {..<t}"
  proof (rule inj_onI)
    fix x y
    assume xy: "x \<in> {..<t}" "y \<in> {..<t}" "(a + x) mod t = (a + y) mod t"
    then show "x = y"
    proof (induction x y rule: linorder_wlog)
      case (le x y)
      then have "(y - x) mod t = 0" by (metis add_diff_cancel_left diff_diff_left mod_eq_dvd_iff_nat
            mod_0_imp_dvd dvd_imp_mod_0 le_add_diff_inverse nat_add_left_cancel_le)
      with le show ?case by simp
    qed simp
  qed
  have "(\<lambda>k. (a + k) mod t) ` {..<t} = {..<t}"
    by (rule endo_inj_surj [OF finite_lessThan _ inj]) (use assms(1) in auto)
  then have "(\<lambda>k. (a + k) mod t) ` {k. k < t \<and> (a + k) mod t \<in> A} = A"
    using assms(2) by (auto simp: image_iff)
  moreover have "inj_on (\<lambda>k. (a + k) mod t) {k. k < t \<and> (a + k) mod t \<in> A}"
    using inj by (rule inj_on_subset) auto
  ultimately show ?thesis by (metis card_image)
qed

text \<open>
  C29: round robin is fair. Over as many consecutive selections as the total weight, each endpoint is
  selected exactly as often as its weight, from any counter value whose low 32 bits do not overflow
  during the cycle.
\<close>

theorem round_robin_fair:
  assumes "total_weight_of es < 2 ^ 32" "i < length es" "0 < total_weight_of es"
    and "unat counter mod 2 ^ 32 + total_weight_of es \<le> 2 ^ 32"
  shows "count_list (rr_run (build_state_parts es) counter (total_weight_of es)) i = unat (ep_weight (es ! i))"
proof -
  define st where "st = build_state_parts es"
  define t where "t = total_weight_of es"
  define a where "a = unat counter mod 2 ^ 32"
  have st: "unat (cs_total_weight st) = t" "cs_endpoints st = es"
    using state_parts [OF assms(1)] by (simp_all add: st_def t_def)
  have pick: "unat (ucast (counter + of_nat k) mod cs_total_weight st :: u32) = (a + k) mod t" if "k < t" for k
  proof -
    have "k < 2 ^ 64" using that assms(1) by (simp add: t_def)
    then have "unat (counter + of_nat k) mod 2 ^ 32 = (unat counter + k) mod 2 ^ 64 mod 2 ^ 32"
      by (simp add: unat_word_ariths unat_of_nat)
    also have "\<dots> = (a + k) mod 2 ^ 32"
      unfolding a_def by (subst mod_mod_cancel) (simp_all add: mod_add_left_eq)
    also have "\<dots> = a + k" using that assms(4) by (simp add: a_def t_def)
    finally have "unat (ucast (counter + of_nat k) :: u32) = a + k"
      by (simp add: unsigned_ucast_eq take_bit_eq_mod)
    then show ?thesis using st(1) by (simp add: unat_mod)
  qed
  have share: "find_index (cs_cumulative_weights st) (ucast (counter + of_nat k) mod cs_total_weight st) = i
      \<longleftrightarrow> (a + k) mod t \<in> {prefix_weight es i ..< prefix_weight es (Suc i)}" if "k < t" for k
    using find_index_iff [OF assms(1), of "ucast (counter + of_nat k) mod cs_total_weight st" i]
      pick [OF that] assms(2,3) by (simp add: st_def t_def)
  have "{prefix_weight es i ..< prefix_weight es (Suc i)} \<subseteq> {..<t}"
    using prefix_weight_mono [of "Suc i" "length es" es] assms(2) by (auto simp: t_def total_weight_of_def)
  then have "card {k. k < t \<and> (a + k) mod t \<in> {prefix_weight es i ..< prefix_weight es (Suc i)}}
      = card {prefix_weight es i ..< prefix_weight es (Suc i)}"
    using assms(3) by (intro cycle_card) (simp_all only: t_def)
  then have "card {k. k < t \<and> (a + k) mod t \<in> {prefix_weight es i ..< prefix_weight es (Suc i)}}
      = unat (ep_weight (es ! i))"
    using assms(2) by (simp only: card_atLeastLessThan prefix_weight_Suc diff_add_inverse)
  moreover have "{k. k < t \<and> (a + k) mod t \<in> {prefix_weight es i ..< prefix_weight es (Suc i)}}
      = {k. k < t \<and> find_index (cs_cumulative_weights st) (ucast (counter + of_nat k) mod cs_total_weight st) = i}"
    using share by auto
  moreover have "cs_total_weight st \<noteq> 0" "cs_endpoints st \<noteq> []"
    using st assms(2,3) by (auto simp: t_def unat_eq_zero)
  ultimately show ?thesis
    by (simp add: rr_run_eq count_map length_filter_upt flip: st_def t_def)
qed

theorem round_robin_fair_witness:
  "count_list (rr_run (build_state_parts sample_endpoints) 7 4) 1 = 3"
  using round_robin_fair [of sample_endpoints 1 7]
  by (simp add: sample_endpoints_def total_weight_of_def prefix_weight_def)

end
