(* ===== verification/Cluster.thy ===== *)
theory Cluster
  imports Load_Balance "HOL-Library.AList"
begin

text \<open>
  An upstream cluster: the passive and active health of its endpoints
  (crates/pavis/src/upstream/cluster/health.rs) and the cluster itself (upstream/cluster/mod.rs), which
  keeps a snapshot of the eligible endpoints with their cumulative weights and selects from it.

  An operation takes place at one instant \<open>now\<close>, which stands for every \<open>Instant::now()\<close> it calls.
  The mutex around the health state makes the operations that change it atomic; the snapshot is
  replaced while the mutex is held. A \<open>HashMap\<close> is an association list with distinct keys. The TLS
  materials of a cluster are passed through and not modelled.
\<close>

section \<open>The text of an address\<close>

fun hex_nat :: "nat \<Rightarrow> string" where
  "hex_nat n = (if n < 16 then [hex_digit n] else hex_nat (n div 16) @ [hex_digit (n mod 16)])"

declare hex_nat.simps [simp del]

definition octet :: "u32 \<Rightarrow> nat \<Rightarrow> string" where
  "octet a k = to_dec (unat (drop_bit k a) mod 256)"

definition v4_display :: "u32 \<Rightarrow> string" where
  "v4_display a = octet a 24 @ ''.'' @ octet a 16 @ ''.'' @ octet a 8 @ ''.'' @ octet a 0"

definition v6_segments :: "u128 \<Rightarrow> nat list" where
  "v6_segments a = map (\<lambda>i. unat (drop_bit (112 - 16 * i) a) mod 65536) [0..<8]"

text \<open>The first longest run of zero segments: \<open>(longest, current, index)\<close> over the segments.\<close>

fun zero_run :: "nat list \<Rightarrow> nat \<Rightarrow> nat \<times> nat \<Rightarrow> nat \<times> nat \<Rightarrow> nat \<times> nat" where
  "zero_run [] i longest current = longest"
| "zero_run (s # ss) i longest current =
     (if s = 0
      then let current' = (if snd current = 0 then (i, 1) else (fst current, snd current + 1)) in
        zero_run ss (i + 1) (if snd current' > snd longest then current' else longest) current'
      else zero_run ss (i + 1) longest (0, 0))"

fun join_segments :: "nat list \<Rightarrow> string" where
  "join_segments [] = []"
| "join_segments [s] = hex_nat s"
| "join_segments (s # ss) = hex_nat s @ '':'' @ join_segments ss"

definition v6_display :: "u128 \<Rightarrow> string" where
  "v6_display a =
     (let ss = v6_segments a in
      if take 5 ss = replicate 5 0 \<and> ss ! 5 = 65535 then ''::ffff:'' @ v4_display (ucast a)
      else let (start, len) = zero_run ss 0 (0, 0) (0, 0) in
        if len > 1 then join_segments (take start ss) @ ''::'' @ join_segments (drop (start + len) ss)
        else join_segments ss)"

fun ip_display :: "IpAddr \<Rightarrow> string" where
  "ip_display (V4 a) = v4_display a"
| "ip_display (V6 a) = v6_display a"

section \<open>Health state (cluster/health.rs)\<close>

fun key_from_addr :: "EndpointAddr \<Rightarrow> string" where
  "key_from_addr (Endpoint_Ip address port) = ip_display address @ '':'' @ to_dec (unat port)"
| "key_from_addr (Endpoint_Dns host port) = host @ '':'' @ to_dec (unat port)"

definition key_from_endpoint :: "Endpoint \<Rightarrow> string" where
  "key_from_endpoint e = key_from_addr (ep_address e)"

datatype ActiveHealth = Healthy | Unhealthy

record EndpointStatus =
  consecutive_errors :: u32
  ejected_until :: "instant option"
  active_health :: ActiveHealth

definition status_default :: EndpointStatus where
  "status_default = \<lparr>consecutive_errors = 0, ejected_until = None, active_health = Healthy\<rparr>"

record HealthState =
  hs_endpoints :: "Endpoint list"
  hs_statuses :: "(string \<times> EndpointStatus) list"

definition health_new :: "Endpoint list \<Rightarrow> HealthState" where
  "health_new es = \<lparr>hs_endpoints = es,
     hs_statuses = fold (\<lambda>e. AList.update (key_from_endpoint e) status_default) es []\<rparr>"

text \<open>The loop of \<open>update_endpoints\<close>: what is left of the old statuses, and the new ones.\<close>

fun move_statuses ::
  "Endpoint list \<Rightarrow> (string \<times> EndpointStatus) list \<Rightarrow> (string \<times> EndpointStatus) list \<Rightarrow> (string \<times> EndpointStatus) list" where
  "move_statuses [] old new = new"
| "move_statuses (e # es) old new =
     (let key = key_from_endpoint e in
      move_statuses es (AList.delete key old)
        (AList.update key (case map_of old key of Some s \<Rightarrow> s | None \<Rightarrow> status_default) new))"

definition health_update_endpoints :: "Endpoint list \<Rightarrow> HealthState \<Rightarrow> HealthState" where
  "health_update_endpoints es h = \<lparr>hs_endpoints = es, hs_statuses = move_statuses es (hs_statuses h) []\<rparr>"

definition set_status :: "string \<Rightarrow> EndpointStatus \<Rightarrow> HealthState \<Rightarrow> HealthState" where
  "set_status key s h = h\<lparr>hs_statuses := AList.update key s (hs_statuses h)\<rparr>"

definition mark_active_health :: "EndpointAddr \<Rightarrow> bool \<Rightarrow> HealthState \<Rightarrow> HealthState \<times> bool" where
  "mark_active_health addr healthy h =
     (let key = key_from_addr addr in
      case map_of (hs_statuses h) key of
        None \<Rightarrow> (h, False)
      | Some s \<Rightarrow>
          let nxt = (if healthy then Healthy else Unhealthy) in
          if active_health s \<noteq> nxt then (set_status key (s\<lparr>active_health := nxt\<rparr>) h, True) else (h, False))"

definition record_success :: "EndpointAddr \<Rightarrow> HealthState \<Rightarrow> HealthState \<times> bool" where
  "record_success addr h =
     (let key = key_from_addr addr in
      case map_of (hs_statuses h) key of
        None \<Rightarrow> (h, False)
      | Some s \<Rightarrow>
          if consecutive_errors s \<noteq> 0 then (set_status key (s\<lparr>consecutive_errors := 0\<rparr>) h, True) else (h, False))"

definition record_failure :: "instant \<Rightarrow> EndpointAddr \<Rightarrow> u32 \<Rightarrow> duration \<Rightarrow> HealthState \<Rightarrow> HealthState \<times> bool" where
  "record_failure now addr threshold eject_for h =
     (let key = key_from_addr addr in
      case map_of (hs_statuses h) key of
        None \<Rightarrow> (h, False)
      | Some s \<Rightarrow>
          let errors = saturating_add (consecutive_errors s) 1 in
          if errors \<ge> threshold \<and> ejected_until s = None
          then (set_status key (s\<lparr>consecutive_errors := 0, ejected_until := Some (now + eject_for)\<rparr>) h, True)
          else (set_status key (s\<lparr>consecutive_errors := errors\<rparr>) h, False))"

definition expired :: "instant \<Rightarrow> EndpointStatus \<Rightarrow> bool" where
  "expired now s \<longleftrightarrow> (case ejected_until s of Some until \<Rightarrow> now \<ge> until | None \<Rightarrow> False)"

definition clear_expired_ejections :: "instant \<Rightarrow> HealthState \<Rightarrow> HealthState \<times> bool" where
  "clear_expired_ejections now h =
     (h\<lparr>hs_statuses := map (\<lambda>(k, s).
          (k, if expired now s then s\<lparr>ejected_until := None, consecutive_errors := 0\<rparr> else s)) (hs_statuses h)\<rparr>,
      list_ex (\<lambda>(k, s). expired now s) (hs_statuses h))"

definition eligible_status :: "instant \<Rightarrow> EndpointStatus \<Rightarrow> bool" where
  "eligible_status now s \<longleftrightarrow> active_health s = Healthy
     \<and> (case ejected_until s of Some until \<Rightarrow> now \<ge> until | None \<Rightarrow> True)"

definition eligible_endpoints :: "instant \<Rightarrow> HealthState \<Rightarrow> Endpoint list" where
  "eligible_endpoints now h = filter (\<lambda>e.
     case map_of (hs_statuses h) (key_from_endpoint e) of
       Some s \<Rightarrow> eligible_status now s | None \<Rightarrow> True) (hs_endpoints h)"

section \<open>Cluster (cluster/mod.rs)\<close>

datatype UpstreamOutcome = Success | Failure

record Cluster =
  cl_config :: Upstream
  cl_rr_counter :: usize
  cl_state :: ClusterState
  cl_health :: HealthState

definition cluster_new :: "instant \<Rightarrow> Upstream \<Rightarrow> Cluster" where
  "cluster_new now config =
     (let h = health_new (u_endpoints config) in
      \<lparr>cl_config = config, cl_rr_counter = 0, cl_state = build_state_parts (eligible_endpoints now h), cl_health = h\<rparr>)"

definition refresh_state_from_health :: "instant \<Rightarrow> HealthState \<Rightarrow> Cluster \<Rightarrow> Cluster" where
  "refresh_state_from_health now h c =
     (let h' = fst (clear_expired_ejections now h) in
      c\<lparr>cl_health := h', cl_state := build_state_parts (eligible_endpoints now h')\<rparr>)"

text \<open>An operation on the health state that reports whether the snapshot must be rebuilt.\<close>

definition with_health :: "instant \<Rightarrow> (HealthState \<Rightarrow> HealthState \<times> bool) \<Rightarrow> Cluster \<Rightarrow> Cluster" where
  "with_health now op c =
     (case op (cl_health c) of (h, changed) \<Rightarrow>
        if changed then refresh_state_from_health now h c else c\<lparr>cl_health := h\<rparr>)"

definition refresh_expired_ejections :: "instant \<Rightarrow> Cluster \<Rightarrow> Cluster" where
  "refresh_expired_ejections now c = with_health now (clear_expired_ejections now) c"

definition select_endpoint :: "instant \<Rightarrow> u32 \<Rightarrow> Cluster \<Rightarrow> Endpoint option \<times> Cluster" where
  "select_endpoint now random_pick c =
     (let c' = refresh_expired_ejections now c; st = cl_state c' in
      if cs_endpoints st = [] then (None, c')
      else case select_index (u_balancer (cl_config c')) st (cl_rr_counter c') random_pick of
        (idx, counter) \<Rightarrow>
          (if idx < length (cs_endpoints st) then Some (cs_endpoints st ! idx) else None,
           c'\<lparr>cl_rr_counter := counter\<rparr>))"

definition update_endpoints :: "instant \<Rightarrow> Endpoint list \<Rightarrow> Cluster \<Rightarrow> Cluster" where
  "update_endpoints now es c =
     refresh_state_from_health now (health_update_endpoints es (cl_health c)) c"

definition set_active_health :: "instant \<Rightarrow> EndpointAddr \<Rightarrow> bool \<Rightarrow> Cluster \<Rightarrow> Cluster" where
  "set_active_health now addr healthy c =
     (case u_health_check (cl_config c) of
        Health_Disabled \<Rightarrow> c
      | Health_Enabled _ _ _ \<Rightarrow> with_health now (mark_active_health addr healthy) c)"

definition cluster_record_outcome :: "instant \<Rightarrow> EndpointAddr \<Rightarrow> UpstreamOutcome \<Rightarrow> Cluster \<Rightarrow> Cluster" where
  "cluster_record_outcome now addr outcome c =
     (case u_outlier_detection (cl_config c) of
        Outlier_Disabled \<Rightarrow> c
      | Outlier_Enabled threshold eject_duration \<Rightarrow>
          with_health now (case outcome of
              Success \<Rightarrow> record_success addr
            | Failure \<Rightarrow> record_failure now addr threshold (from_millis (unat eject_duration))) c)"

section \<open>The snapshot\<close>

lemma length_cumulate: "length (fst (cumulate acc es)) = length es"
  by (induction es arbitrary: acc) (auto simp: Let_def split_beta)

lemma find_index_bound: "ws \<noteq> [] \<Longrightarrow> find_index ws pick < length ws"
  by (cases ws) (auto simp: find_index_def min_def)

lemma select_index_bound: "es \<noteq> [] \<Longrightarrow> fst (select_index lb (build_state_parts es) counter pick) < length es"
proof -
  assume "es \<noteq> []"
  moreover have "length (cs_cumulative_weights (build_state_parts es)) = length es"
    by (simp add: build_state_parts_def split_beta length_cumulate)
  moreover from calculation have "cs_cumulative_weights (build_state_parts es) \<noteq> []" by auto
  ultimately show ?thesis
    using find_index_bound [of "cs_cumulative_weights (build_state_parts es)"]
    by (cases lb) (auto simp: select_index_def)
qed

lemma cs_endpoints_build [simp]: "cs_endpoints (build_state_parts es) = es"
  by (simp add: build_state_parts_def split_beta)

text \<open>
  The snapshot holds the endpoints that were eligible at the last instant it was rebuilt.
\<close>

definition snapshot_at :: "instant \<Rightarrow> Cluster \<Rightarrow> bool" where
  "snapshot_at t c \<longleftrightarrow> cl_state c = build_state_parts (eligible_endpoints t (cl_health c))"

lemma snapshot_refresh: "snapshot_at now (refresh_state_from_health now h c)"
  by (simp add: snapshot_at_def refresh_state_from_health_def Let_def)

text \<open>An operation that does not ask for a rebuild leaves the eligible endpoints as they were.\<close>

definition quiet_op :: "(HealthState \<Rightarrow> HealthState \<times> bool) \<Rightarrow> bool" where
  "quiet_op op \<longleftrightarrow> (\<forall>h h' t. op h = (h', False) \<longrightarrow> eligible_endpoints t h' = eligible_endpoints t h)"

lemma with_health_snapshot:
  "quiet_op op \<Longrightarrow> snapshot_at t c \<Longrightarrow> t \<le> now \<Longrightarrow> \<exists>t'\<le>now. snapshot_at t' (with_health now op c)"
proof (cases "op (cl_health c)")
  case (Pair h changed)
  assume "quiet_op op" "snapshot_at t c" "t \<le> now"
  with Pair snapshot_refresh [of now h c] show ?thesis
    by (cases changed) (auto simp: with_health_def snapshot_at_def quiet_op_def)
qed

lemma quiet_mark: "quiet_op (mark_active_health addr healthy)"
  by (auto simp: quiet_op_def mark_active_health_def Let_def split: option.splits if_splits)

lemma quiet_success: "quiet_op (record_success addr)"
  by (auto simp: quiet_op_def record_success_def Let_def split: option.splits if_splits)

lemma quiet_failure: "quiet_op (record_failure now addr threshold eject_for)"
proof -
  have "eligible_endpoints t (set_status key (s\<lparr>consecutive_errors := n\<rparr>) h) = eligible_endpoints t h"
    if "map_of (hs_statuses h) key = Some s" for t key s n h
  proof -
    have "(case map_of (AList.update key (s\<lparr>consecutive_errors := n\<rparr>) (hs_statuses h)) k of
          Some s \<Rightarrow> eligible_status t s | None \<Rightarrow> True)
        = (case map_of (hs_statuses h) k of Some s \<Rightarrow> eligible_status t s | None \<Rightarrow> True)" for k
      using that by (cases "k = key") (simp_all add: update_conv' eligible_status_def)
    then show ?thesis by (simp add: eligible_endpoints_def set_status_def)
  qed
  then show ?thesis
    by (auto simp: quiet_op_def record_failure_def Let_def split: option.splits if_splits)
qed

lemma eligible_no_expiry:
  assumes "\<not> list_ex (\<lambda>(k, s). expired now s) (hs_statuses h)" "t \<le> now"
  shows "eligible_endpoints t h = eligible_endpoints now h"
proof -
  have "\<not> expired now s" if "map_of (hs_statuses h) k = Some s" for k s
    using map_of_SomeD [OF that] assms(1) by (force simp: list_ex_iff)
  then have "eligible_status t s = eligible_status now s" if "map_of (hs_statuses h) k = Some s" for k s
    using that assms(2) by (force simp: expired_def eligible_status_def split: option.splits)
  then show ?thesis
    by (auto simp: eligible_endpoints_def intro!: filter_cong split: option.splits)
qed

lemma clear_nothing:
  "\<not> list_ex (\<lambda>(k, s). expired now s) (hs_statuses h) \<Longrightarrow> clear_expired_ejections now h = (h, False)"
proof -
  assume no: "\<not> list_ex (\<lambda>(k, s). expired now s) (hs_statuses h)"
  then have "map (\<lambda>(k, s). (k, if expired now s then s\<lparr>ejected_until := None, consecutive_errors := 0\<rparr> else s)) (hs_statuses h)
      = hs_statuses h"
    by (intro map_idI) (auto simp: list_ex_iff)
  with no show ?thesis by (simp add: clear_expired_ejections_def)
qed

lemma refresh_expired_snapshot:
  assumes "snapshot_at t c" "t \<le> now"
  shows "snapshot_at now (refresh_expired_ejections now c)"
proof (cases "list_ex (\<lambda>(k, s). expired now s) (hs_statuses (cl_health c))")
  case True
  then have "snd (clear_expired_ejections now (cl_health c))" by (simp add: clear_expired_ejections_def)
  then show ?thesis
    by (cases "clear_expired_ejections now (cl_health c)")
      (simp add: refresh_expired_ejections_def with_health_def snapshot_refresh)
next
  case False
  with assms eligible_no_expiry [OF False assms(2)] show ?thesis
    by (simp add: refresh_expired_ejections_def with_health_def clear_nothing snapshot_at_def)
qed

section \<open>Runs of a cluster\<close>

datatype cluster_op =
    Op_select u32
  | Op_update "Endpoint list"
  | Op_active EndpointAddr bool
  | Op_outcome EndpointAddr UpstreamOutcome

fun run_op :: "instant \<Rightarrow> cluster_op \<Rightarrow> Cluster \<Rightarrow> Cluster" where
  "run_op now (Op_select pick) c = snd (select_endpoint now pick c)"
| "run_op now (Op_update es) c = update_endpoints now es c"
| "run_op now (Op_active addr healthy) c = set_active_health now addr healthy c"
| "run_op now (Op_outcome addr outcome) c = cluster_record_outcome now addr outcome c"

inductive cluster_at :: "instant \<Rightarrow> Cluster \<Rightarrow> bool" where
  created: "cluster_at now (cluster_new now config)"
| operated: "cluster_at t c \<Longrightarrow> t \<le> now \<Longrightarrow> cluster_at now (run_op now op c)"

lemma select_endpoint_snapshot:
  assumes "snapshot_at t c" "t \<le> now" "select_endpoint now pick c = (r, c')"
  shows "snapshot_at now c' \<and> (r = None \<longleftrightarrow> eligible_endpoints now (cl_health c') = [])
    \<and> (\<forall>e. r = Some e \<longrightarrow> e \<in> set (eligible_endpoints now (cl_health c')))"
proof -
  define d where "d = refresh_expired_ejections now c"
  have snap: "cl_state d = build_state_parts (eligible_endpoints now (cl_health d))"
    using refresh_expired_snapshot [OF assms(1,2)] by (simp add: snapshot_at_def d_def)
  obtain idx counter where i: "select_index (u_balancer (cl_config d)) (cl_state d) (cl_rr_counter d) pick = (idx, counter)"
    by fastforce
  have "idx < length (eligible_endpoints now (cl_health d))" if "eligible_endpoints now (cl_health d) \<noteq> []"
    using select_index_bound [OF that, of "u_balancer (cl_config d)" "cl_rr_counter d" pick] i by (simp add: snap)
  with assms(3) i snap show ?thesis
    by (auto simp: select_endpoint_def Let_def snapshot_at_def simp flip: d_def split: if_splits)
qed

lemma cluster_snapshot: "cluster_at now c \<Longrightarrow> \<exists>t\<le>now. snapshot_at t c"
proof (induction rule: cluster_at.induct)
  case (created now config)
  then show ?case by (auto simp: snapshot_at_def cluster_new_def Let_def)
next
  case (operated t c now op)
  then obtain t' where t': "t' \<le> now" "snapshot_at t' c" by (meson le_trans)
  show ?case
  proof (cases op)
    case (Op_select pick)
    with select_endpoint_snapshot [OF t'(2,1)] show ?thesis
      by (cases "select_endpoint now pick c") auto
  next
    case (Op_update es)
    then show ?thesis using snapshot_refresh by (auto simp: update_endpoints_def)
  next
    case (Op_active addr healthy)
    with t' show ?thesis
      by (auto simp: set_active_health_def intro: with_health_snapshot [OF quiet_mark]
          split: ActiveHealthCheck.splits)
  next
    case (Op_outcome addr outcome)
    with t' show ?thesis
      by (cases outcome)
        (auto simp: cluster_record_outcome_def intro: with_health_snapshot quiet_success quiet_failure
          split: OutlierDetectionPolicy.splits)
  qed
qed

lemma selected_status:
  assumes "cluster_at t c" "t \<le> now" "select_endpoint now pick c = (r, c')"
  shows "(r = None \<longleftrightarrow> eligible_endpoints now (cl_health c') = []) \<and>
    (\<forall>e. r = Some e \<longrightarrow> e \<in> set (hs_endpoints (cl_health c')) \<and>
       (\<forall>s. map_of (hs_statuses (cl_health c')) (key_from_endpoint e) = Some s \<longrightarrow>
          active_health s = Healthy \<and> (\<forall>until. ejected_until s = Some until \<longrightarrow> until \<le> now)))"
proof -
  obtain t' where "t' \<le> now" "snapshot_at t' c"
    using cluster_snapshot [OF assms(1)] assms(2) by (meson le_trans)
  from select_endpoint_snapshot [OF this(2,1) assms(3)] show ?thesis
    by (auto simp: eligible_endpoints_def eligible_status_def)
qed

section \<open>Properties\<close>

text \<open>
  C25: a selected endpoint is eligible at the moment of the selection: it belongs to the current
  endpoints of the cluster, it is not marked unhealthy by the active checks and it is not ejected. And
  a selection fails only when no endpoint is eligible. The snapshot that selection reads never lags
  behind the health state.
\<close>

theorem selected_endpoint_eligible:
  assumes "cluster_at t c" "t \<le> now" "select_endpoint now pick c = (r, c')"
  shows "(r = None \<longleftrightarrow> eligible_endpoints now (cl_health c') = []) \<and>
    (\<forall>e. r = Some e \<longrightarrow> e \<in> set (hs_endpoints (cl_health c')) \<and>
       (\<forall>s. map_of (hs_statuses (cl_health c')) (key_from_endpoint e) = Some s \<longrightarrow>
          active_health s = Healthy \<and> (\<forall>until. ejected_until s = Some until \<longrightarrow> until \<le> now)))"
  by (rule selected_status [OF assms])

definition sample_cluster_config :: Upstream where
  "sample_cluster_config = \<lparr>u_id = 1, u_name = ''backend'', u_discovery = Discovery_Static, u_balancer = RoundRobin,
     u_protocol = H1, u_pool = pool_default, u_outlier_detection = Outlier_Enabled 1 1000,
     u_circuit_breaker = Breaker_Disabled, u_health_check = Health_Disabled, u_tls = TlsPolicy_Disabled,
     u_endpoints = [\<lparr>ep_address = Endpoint_Dns ''a'' 80, ep_weight = 1\<rparr>, \<lparr>ep_address = Endpoint_Dns ''b'' 80, ep_weight = 1\<rparr>]\<rparr>"

definition sample_ejected :: Cluster where
  "sample_ejected = run_op 5 (Op_outcome (Endpoint_Dns ''a'' 80) Failure) (cluster_new 0 sample_cluster_config)"

theorem selected_endpoint_eligible_witness:
  "case select_endpoint 6 0 sample_ejected of (r, c') \<Rightarrow>
     r = None \<longleftrightarrow> eligible_endpoints 6 (cl_health c') = []"
proof -
  have "cluster_at 5 sample_ejected"
    unfolding sample_ejected_def by (rule operated [OF created]) simp
  from selected_endpoint_eligible [OF this, of 6 0] show ?thesis
    by (simp split: prod.splits)
qed

text \<open>The status of an endpoint after a sequence of failures at the given times.\<close>

definition fail_at :: "EndpointAddr \<Rightarrow> u32 \<Rightarrow> duration \<Rightarrow> instant \<Rightarrow> HealthState \<Rightarrow> HealthState" where
  "fail_at addr threshold eject_for now h = fst (record_failure now addr threshold eject_for h)"

lemma fail_at_status:
  assumes "map_of (hs_statuses h) (key_from_addr addr) = Some s" "ejected_until s = None"
    and "unat (consecutive_errors s) + 1 < 2 ^ 32"
  shows "map_of (hs_statuses (fail_at addr threshold eject_for now h)) (key_from_addr addr) =
    Some (if unat threshold \<le> unat (consecutive_errors s) + 1
      then s\<lparr>consecutive_errors := 0, ejected_until := Some (now + eject_for)\<rparr>
      else s\<lparr>consecutive_errors := consecutive_errors s + 1\<rparr>)"
proof -
  have "saturating_add (consecutive_errors s) 1 = consecutive_errors s + 1"
    "unat (consecutive_errors s + 1) = unat (consecutive_errors s) + 1"
    using assms(3) by (simp_all add: saturating_add_def unat_word_ariths)
  with assms(1,2) show ?thesis
    by (simp add: fail_at_def record_failure_def Let_def set_status_def update_conv' word_le_nat_alt)
qed

lemma failures_status:
  assumes "map_of (hs_statuses h) (key_from_addr addr) = Some s" "ejected_until s = None"
    and "unat (consecutive_errors s) + length ts < unat threshold"
  shows "map_of (hs_statuses (fold (fail_at addr threshold eject_for) ts h)) (key_from_addr addr)
    = Some (s\<lparr>consecutive_errors := consecutive_errors s + of_nat (length ts)\<rparr>)"
  using assms
proof (induction ts arbitrary: h s)
  case (Cons t ts)
  have lt: "unat (consecutive_errors s) + 1 < 2 ^ 32"
    using Cons.prems(3) unat_less_exp [of threshold] by simp
  then have "unat (consecutive_errors s + 1) = unat (consecutive_errors s) + 1"
    by (simp add: unat_word_ariths)
  with Cons.IH [of "fail_at addr threshold eject_for t h" "s\<lparr>consecutive_errors := consecutive_errors s + 1\<rparr>"]
    fail_at_status [OF Cons.prems(1,2) lt] Cons.prems
  show ?case by (simp add: add.assoc)
qed simp

text \<open>
  C26: passive ejection. Starting from no errors, an endpoint is ejected exactly by the \<open>threshold\<close>-th
  consecutive failure: before it only the count grows, and with it the endpoint is ejected for
  the configured time and its count is reset.
\<close>

theorem ejected_at_threshold:
  assumes "map_of (hs_statuses h) (key_from_addr addr) = Some s" "ejected_until s = None" "consecutive_errors s = 0"
    and "length ts < unat threshold"
  shows "map_of (hs_statuses (fold (fail_at addr threshold eject_for) ts h)) (key_from_addr addr)
      = Some (s\<lparr>consecutive_errors := of_nat (length ts)\<rparr>)
    \<and> (Suc (length ts) = unat threshold \<longrightarrow>
      map_of (hs_statuses (fold (fail_at addr threshold eject_for) (ts @ [t]) h)) (key_from_addr addr)
        = Some (s\<lparr>consecutive_errors := 0, ejected_until := Some (t + eject_for)\<rparr>))"
proof -
  define h' where "h' = fold (fail_at addr threshold eject_for) ts h"
  have st: "map_of (hs_statuses h') (key_from_addr addr) = Some (s\<lparr>consecutive_errors := of_nat (length ts)\<rparr>)"
    using failures_status [OF assms(1,2), of ts threshold] assms(3,4) by (simp add: h'_def)
  have n: "unat (of_nat (length ts) :: u32) = length ts"
    using assms(4) unat_less_exp [of threshold] by (simp add: unat_of_nat)
  have lt: "unat (consecutive_errors (s\<lparr>consecutive_errors := of_nat (length ts)\<rparr>)) + 1 < 2 ^ 32" if "Suc (length ts) = unat threshold"
    using that n unat_less_exp [of threshold] by simp
  have "map_of (hs_statuses (fail_at addr threshold eject_for t h')) (key_from_addr addr)
      = Some (s\<lparr>consecutive_errors := 0, ejected_until := Some (t + eject_for)\<rparr>)" if "Suc (length ts) = unat threshold"
    using fail_at_status [OF st _ lt [OF that], of threshold eject_for t] assms(2) that n by simp
  with st show ?thesis by (simp add: h'_def)
qed

theorem ejected_at_threshold_witness:
  "map_of (hs_statuses (fold (fail_at (Endpoint_Dns ''a'' 80) 2 1000) ([10] @ [20]) (health_new (u_endpoints sample_cluster_config))))
     (key_from_addr (Endpoint_Dns ''a'' 80)) = Some (status_default\<lparr>ejected_until := Some 1020\<rparr>)"
proof -
  have "map_of (hs_statuses (health_new (u_endpoints sample_cluster_config))) (key_from_addr (Endpoint_Dns ''a'' 80)) = Some status_default"
    by (simp add: health_new_def sample_cluster_config_def key_from_endpoint_def update_conv')
  from ejected_at_threshold [OF this, of "[10]" 2 1000 20] show ?thesis
    by (simp add: status_default_def)
qed

lemma move_statuses_map_of:
  "distinct (map fst old) \<Longrightarrow>
   map_of (move_statuses es old new) k =
     (if k \<notin> key_from_endpoint ` set es then map_of new k
      else if count_list (map key_from_endpoint es) k = 1
      then Some (case map_of old k of Some s \<Rightarrow> s | None \<Rightarrow> status_default) else Some status_default)"
proof (induction es arbitrary: old new)
  case (Cons e es)
  have d: "distinct (map fst (AList.delete (key_from_endpoint e) old))"
    using Cons.prems by (rule distinct_delete)

  have "count_list (map key_from_endpoint es) k = 0 \<longleftrightarrow> k \<notin> key_from_endpoint ` set es"
    by (simp add: count_list_0_iff)
  then show ?case
    using Cons.IH [OF d] by (auto simp: Let_def delete_conv' update_conv')
qed simp

text \<open>
  What a change of the endpoint list (a DNS refresh) does to their health. An endpoint that is
  listed once keeps its status, error count and ejection included; a new one starts healthy; a removed
  one is forgotten. An endpoint whose address is listed more than once loses its status: its second
  occurrence finds the status already moved and overwrites it with the default.
\<close>

theorem update_endpoints_status:
  assumes "distinct (map fst (hs_statuses h))"
  shows "map_of (hs_statuses (health_update_endpoints es h)) k =
    (if k \<notin> key_from_endpoint ` set es then None
     else if count_list (map key_from_endpoint es) k = 1
     then Some (case map_of (hs_statuses h) k of Some s \<Rightarrow> s | None \<Rightarrow> status_default)
     else Some status_default)"
  by (simp add: health_update_endpoints_def move_statuses_map_of [OF assms])

theorem update_endpoints_status_witness:
  "map_of (hs_statuses (health_update_endpoints (u_endpoints sample_cluster_config)
     \<lparr>hs_endpoints = u_endpoints sample_cluster_config, hs_statuses = [(''a:80'', status_default\<lparr>ejected_until := Some 9\<rparr>)]\<rparr>))
     (key_from_addr (Endpoint_Dns ''a'' 80)) = Some (status_default\<lparr>ejected_until := Some 9\<rparr>)"
proof -
  have d80: "to_dec 80 = ''80''" by code_simp
  show ?thesis
    by (subst update_endpoints_status)
      (simp_all add: sample_cluster_config_def key_from_endpoint_def d80)
qed

end
