(* ===== verification/Pool.thy ===== *)
theory Pool
  imports Core_Types
begin

text \<open>
  Admission to an upstream: the connection pool limiter of crates/pavis/src/upstream/cluster/pool.rs and
  the circuit breaker of \<open>acquire_breaker_permit\<close> (upstream/cluster/mod.rs), as step relations of the
  requests that go through them concurrently.

  A request is counted at the program point it has reached; the atomic counters of the source are words
  and the requests between two atomic operations are visible. The semaphores are tokio's: a permit is
  granted only while fewer than the limit are out, and is returned when it is dropped; a refusal may
  happen at any time. A request whose future is dropped while it waits is the step \<open>cancel\<close>. At most
  \<open>2 ^ 32 - 1\<close> requests are inside \<open>acquire\<close> at once.
\<close>

section \<open>The pool limiter\<close>

datatype PoolRejection = QueueFull | QueueTimeout | Closed

record PoolLimiter =
  permits_limit :: nat
  queue_capacity :: u32
  queue_timeout :: duration
  queued :: u32
  active_conns :: u32
  \<comment> \<open>requests by program point\<close>
  at_permit :: nat      \<comment> \<open>has a permit, before \<open>start_pool_use\<close>\<close>
  at_use :: nat         \<comment> \<open>holds a \<open>PoolPermit\<close>\<close>
  at_release :: nat     \<comment> \<open>after \<open>finish_pool_use\<close>, before the permit is returned\<close>
  at_wait :: nat        \<comment> \<open>waits for the semaphore\<close>
  at_full :: nat        \<comment> \<open>found the queue full, before \<open>queued\<close> is decremented\<close>
  at_granted :: nat     \<comment> \<open>got a permit after waiting, before \<open>finish_queue_wait\<close>\<close>
  at_timeout :: nat     \<comment> \<open>waited in vain, before \<open>finish_queue_wait\<close>\<close>
  cancelled :: nat      \<comment> \<open>dropped while waiting\<close>

definition pool_new :: "Upstream \<Rightarrow> PoolLimiter" where
  "pool_new config =
     \<lparr>permits_limit = unat (pool_max (u_pool config)), queue_capacity = pq_capacity (pool_queue (u_pool config)),
      queue_timeout = from_millis (unat (pq_timeout_ms (pool_queue (u_pool config)))), queued = 0, active_conns = 0,
      at_permit = 0, at_use = 0, at_release = 0, at_wait = 0, at_full = 0, at_granted = 0, at_timeout = 0, cancelled = 0\<rparr>"

definition permits_out :: "PoolLimiter \<Rightarrow> nat" where
  "permits_out p = at_permit p + at_use p + at_release p + at_granted p"

definition in_queue :: "PoolLimiter \<Rightarrow> nat" where
  "in_queue p = at_wait p + at_full p + at_granted p + at_timeout p + cancelled p"

text \<open>
  What an \<open>acquire\<close> that finds no permit answers at once: the early returns before the queue.
\<close>

definition early_rejection :: "PoolLimiter \<Rightarrow> PoolRejection option" where
  "early_rejection p =
     (if queue_capacity p = 0 then Some QueueFull
      else if queue_timeout p = 0 then Some QueueTimeout
      else None)"

inductive pool_step :: "PoolLimiter \<Rightarrow> PoolLimiter \<Rightarrow> bool" where
  try_acquire: "permits_out p < permits_limit p \<Longrightarrow> pool_step p (p\<lparr>at_permit := at_permit p + 1\<rparr>)"
| start_use: "at_permit p > 0 \<Longrightarrow>
    pool_step p (p\<lparr>at_permit := at_permit p - 1, at_use := at_use p + 1, active_conns := active_conns p + 1\<rparr>)"
| reject_early: "early_rejection p \<noteq> None \<Longrightarrow> pool_step p p"
| enqueue: "early_rejection p = None \<Longrightarrow> in_queue p < 2 ^ 32 - 1 \<Longrightarrow> queued p < queue_capacity p \<Longrightarrow>
    pool_step p (p\<lparr>queued := queued p + 1, at_wait := at_wait p + 1\<rparr>)"
| enqueue_full: "early_rejection p = None \<Longrightarrow> in_queue p < 2 ^ 32 - 1 \<Longrightarrow> queued p \<ge> queue_capacity p \<Longrightarrow>
    pool_step p (p\<lparr>queued := queued p + 1, at_full := at_full p + 1\<rparr>)"
| leave_full: "at_full p > 0 \<Longrightarrow> pool_step p (p\<lparr>queued := queued p - 1, at_full := at_full p - 1\<rparr>)"
| grant: "at_wait p > 0 \<Longrightarrow> permits_out p < permits_limit p \<Longrightarrow>
    pool_step p (p\<lparr>at_wait := at_wait p - 1, at_granted := at_granted p + 1\<rparr>)"
| finish_wait: "at_granted p > 0 \<Longrightarrow>
    pool_step p (p\<lparr>queued := queued p - 1, at_granted := at_granted p - 1, at_permit := at_permit p + 1\<rparr>)"
| wait_timeout: "at_wait p > 0 \<Longrightarrow> pool_step p (p\<lparr>at_wait := at_wait p - 1, at_timeout := at_timeout p + 1\<rparr>)"
| finish_timeout: "at_timeout p > 0 \<Longrightarrow>
    pool_step p (p\<lparr>queued := queued p - 1, at_timeout := at_timeout p - 1\<rparr>)"
| cancel: "at_wait p > 0 \<Longrightarrow> pool_step p (p\<lparr>at_wait := at_wait p - 1, cancelled := cancelled p + 1\<rparr>)"
| finish_use: "at_use p > 0 \<Longrightarrow>
    pool_step p (p\<lparr>at_use := at_use p - 1, at_release := at_release p + 1, active_conns := active_conns p - 1\<rparr>)"
| release: "at_release p > 0 \<Longrightarrow> pool_step p (p\<lparr>at_release := at_release p - 1\<rparr>)"

inductive pool_reachable :: "Upstream \<Rightarrow> PoolLimiter \<Rightarrow> bool" for config where
  pool_start: "pool_reachable config (pool_new config)"
| pool_next: "pool_reachable config p \<Longrightarrow> pool_step p p' \<Longrightarrow> pool_reachable config p'"

text \<open>
  The counters count what they are meant to, except that \<open>queued\<close> also counts the cancelled waiters.
\<close>

definition pool_inv :: "Upstream \<Rightarrow> PoolLimiter \<Rightarrow> bool" where
  "pool_inv config p \<longleftrightarrow>
     permits_limit p = unat (pool_max (u_pool config)) \<and> queue_capacity p = pq_capacity (pool_queue (u_pool config))
   \<and> permits_out p \<le> permits_limit p \<and> unat (active_conns p) = at_use p
   \<and> in_queue p < 2 ^ 32 \<and> unat (queued p) = in_queue p
   \<and> at_wait p + at_granted p + at_timeout p + cancelled p \<le> unat (queue_capacity p)"

lemmas pool_defs = pool_inv_def permits_out_def in_queue_def

lemma unat_succ: "unat (w :: u32) + 1 < 2 ^ 32 \<Longrightarrow> unat (w + 1) = unat w + 1"
  by (simp add: unat_word_ariths)

lemma unat_prec: "0 < unat (w :: u32) \<Longrightarrow> unat (w - 1) = unat w - 1"
proof -
  assume "0 < unat w"
  then have "(1 :: u32) \<le> w" by (simp add: word_le_nat_alt)
  then show "unat (w - 1) = unat w - 1" by (simp add: unat_sub)
qed

lemma pool_step_inv: "pool_step p p' \<Longrightarrow> pool_inv config p \<Longrightarrow> pool_inv config p'"
proof (induction rule: pool_step.induct)
  case (start_use p)
  have "unat (active_conns p) + 1 < 2 ^ 32"
    using start_use unat_less_exp [of "pool_max (u_pool config)"] by (simp add: pool_defs)
  from unat_succ [OF this] start_use show ?case by (auto simp: pool_defs)
next
  case (enqueue p)
  then have "unat (queued p) + 1 < 2 ^ 32" by (simp add: pool_inv_def)
  from unat_succ [OF this] enqueue show ?case by (auto simp: pool_defs word_less_nat_alt)
next
  case (enqueue_full p)
  then have "unat (queued p) + 1 < 2 ^ 32" by (simp add: pool_inv_def)
  from unat_succ [OF this] enqueue_full show ?case by (auto simp: pool_defs)
next
  case (leave_full p)
  then have "0 < unat (queued p)" by (simp add: pool_defs)
  from unat_prec [OF this] leave_full show ?case by (auto simp: pool_defs)
next
  case (finish_wait p)
  then have "0 < unat (queued p)" by (simp add: pool_defs)
  from unat_prec [OF this] finish_wait show ?case by (auto simp: pool_defs)
next
  case (finish_timeout p)
  then have "0 < unat (queued p)" by (simp add: pool_defs)
  from unat_prec [OF this] finish_timeout show ?case by (auto simp: pool_defs)
next
  case (finish_use p)
  then have "0 < unat (active_conns p)" by (simp add: pool_defs)
  from unat_prec [OF this] finish_use show ?case by (auto simp: pool_defs)
qed (auto simp: pool_defs)

lemma pool_reachable_inv: "pool_reachable config p \<Longrightarrow> pool_inv config p"
  by (induction rule: pool_reachable.induct) (simp add: pool_new_def pool_defs, rule pool_step_inv)

text \<open>
  C27: the pool limits hold under every interleaving. At most \<open>pool.max\<close> requests hold a permit, the
  gauge of active connections is exactly the number of requests that use one, and at most
  \<open>queue.capacity\<close> requests wait for one.
\<close>

theorem pool_limits:
  assumes "pool_reachable config p"
  shows "permits_out p \<le> unat (pool_max (u_pool config)) \<and> unat (active_conns p) = at_use p
    \<and> at_wait p \<le> unat (pq_capacity (pool_queue (u_pool config)))
    \<and> unat (queued p) = in_queue p"
  using pool_reachable_inv [OF assms] by (auto simp: pool_inv_def)

definition tiny_pool :: Upstream where
  "tiny_pool = \<lparr>u_id = 1, u_name = ''backend'', u_discovery = Discovery_Static, u_balancer = RoundRobin,
     u_protocol = H1, u_pool = pool_default\<lparr>pool_max := 1, pool_queue := \<lparr>pq_capacity = 1, pq_timeout_ms = 100\<rparr>\<rparr>,
     u_outlier_detection = Outlier_Disabled, u_circuit_breaker = Breaker_Disabled, u_health_check = Health_Disabled,
     u_tls = TlsPolicy_Disabled, u_endpoints = []\<rparr>"

lemma cancelled_mono: "pool_step p p' \<Longrightarrow> cancelled p \<le> cancelled p'"
  by (induction rule: pool_step.induct) auto

lemma full_of_cancelled:
  assumes "rtranclp pool_step p p'" "pool_reachable config p"
    and "unat (pq_capacity (pool_queue (u_pool config))) \<le> cancelled p"
  shows "\<not> queued p' < queue_capacity p'"
proof -
  have "pool_reachable config p' \<and> cancelled p \<le> cancelled p'"
    using assms(1,2) by (induction rule: rtranclp_induct) (auto intro: pool_next dest: cancelled_mono)
  with pool_reachable_inv [of config p'] assms(3) show ?thesis
    by (simp add: pool_defs word_less_nat_alt)
qed

lemmas tiny_defs = pool_new_def tiny_pool_def pool_default_def early_rejection_def in_queue_def permits_out_def
  from_millis_def

theorem pool_limits_witness:
  "\<exists>p. pool_reachable tiny_pool p \<and> at_use p = 1 \<and> at_wait p = 1 \<and> permits_out p \<le> 1 \<and> unat (active_conns p) = 1"
proof -
  define p1 where "p1 = (pool_new tiny_pool)\<lparr>at_permit := 1\<rparr>"
  define p2 where "p2 = p1\<lparr>at_permit := 0, at_use := 1, active_conns := 1\<rparr>"
  define p3 where "p3 = p2\<lparr>queued := 1, at_wait := 1\<rparr>"
  note ps = p1_def p2_def p3_def tiny_defs
  have "pool_step (pool_new tiny_pool) p1" using pool_step.try_acquire [of "pool_new tiny_pool"] by (simp add: ps)
  moreover have "pool_step p1 p2" using pool_step.start_use [of p1] by (simp add: ps)
  moreover have "pool_step p2 p3" using pool_step.enqueue [of p2] by (simp add: ps)
  ultimately have r: "pool_reachable tiny_pool p3" by (meson pool_next pool_start)
  have "at_use p3 = 1" "at_wait p3 = 1" "pool_max (u_pool tiny_pool) = 1" by (simp_all add: ps)
  with pool_limits [OF r] r show ?thesis by auto
qed

text \<open>
  A waiter that is dropped leaves its place in the queue taken for good. In a pool of one connection
  and a queue of one place, a second request waits while the first is served and is dropped; when the
  first is done the pool is idle and nobody waits, yet from then on no request ever finds a place in
  the queue: whenever the connection is in use, the next request is turned away with \<open>QueueFull\<close>.
\<close>

theorem cancelled_waiter_leaks:
  "\<exists>p. pool_reachable tiny_pool p \<and> at_wait p = 0 \<and> permits_out p = 0 \<and> early_rejection p = None
     \<and> \<not> (\<exists>p'. rtranclp pool_step p p' \<and> queued p' < queue_capacity p')"
proof -
  define p0 where "p0 = pool_new tiny_pool"
  define p1 where "p1 = p0\<lparr>at_permit := 1\<rparr>"
  define p2 where "p2 = p1\<lparr>at_permit := 0, at_use := 1, active_conns := 1\<rparr>"
  define p3 where "p3 = p2\<lparr>queued := 1, at_wait := 1\<rparr>"
  define p4 where "p4 = p3\<lparr>at_wait := 0, cancelled := 1\<rparr>"
  define p5 where "p5 = p4\<lparr>at_use := 0, at_release := 1, active_conns := 0\<rparr>"
  define p6 where "p6 = p5\<lparr>at_release := 0\<rparr>"
  note ps = p0_def p1_def p2_def p3_def p4_def p5_def p6_def tiny_defs
  have "pool_step p0 p1" using pool_step.try_acquire [of p0] by (simp add: ps)
  moreover have "pool_step p1 p2" using pool_step.start_use [of p1] by (simp add: ps)
  moreover have "pool_step p2 p3" using pool_step.enqueue [of p2] by (simp add: ps)
  moreover have "pool_step p3 p4" using pool_step.cancel [of p3] by (simp add: ps)
  moreover have "pool_step p4 p5" using pool_step.finish_use [of p4] by (simp add: ps)
  moreover have "pool_step p5 p6" using pool_step.release [of p5] by (simp add: ps)
  moreover have "pool_reachable tiny_pool p0" unfolding p0_def by (rule pool_start)
  ultimately have r: "pool_reachable tiny_pool p6" by (meson pool_next)
  have "\<not> queued p' < queue_capacity p'" if "rtranclp pool_step p6 p'" for p'
    using full_of_cancelled [OF that r] by (simp add: ps)
  moreover have "at_wait p6 = 0 \<and> permits_out p6 = 0 \<and> early_rejection p6 = None" by (simp add: ps)
  ultimately show ?thesis using r by blast
qed

section \<open>The circuit breaker\<close>

text \<open>
  \<open>acquire_breaker_permit\<close>: a request takes a connection permit if one is free; otherwise it takes a pending permit, or is refused when
  none is free, and waits for a connection permit; the pending permit is dropped after that was granted. \<open>None\<close> is a breaker that is
  disabled. A semaphore is the number of its free permits: a permit that is taken is subtracted and one that is dropped is added again. The
  requests are counted by the permits they hold; a waiter's future may be dropped, also after a permit was assigned to it.
\<close>

datatype CircuitBreakerRejection = PendingLimit | BreakerClosed

record breaker =
  free_connections :: nat    \<comment> \<open>free permits of \<open>max_connections\<close>\<close>
  free_pending :: nat        \<comment> \<open>free permits of \<open>max_pending_requests\<close>\<close>
  missed :: nat              \<comment> \<open>found no connection permit, before it asks for a pending one\<close>
  pending :: nat             \<comment> \<open>holds a pending permit and waits\<close>
  promoted :: nat            \<comment> \<open>holds both, before \<open>drop(pending)\<close>\<close>
  connected :: nat           \<comment> \<open>holds a connection permit\<close>
  rejections :: nat

definition breaker_new :: "CircuitBreakerPolicy \<Rightarrow> breaker option" where
  "breaker_new policy =
     (case policy of
        Breaker_Disabled \<Rightarrow> None
      | Breaker_Enabled conns pend \<Rightarrow> Some \<lparr>free_connections = unat conns, free_pending = unat pend,
          missed = 0, pending = 0, promoted = 0, connected = 0, rejections = 0\<rparr>)"

inductive breaker_step :: "breaker \<Rightarrow> breaker \<Rightarrow> bool" where
  connect: "free_connections b > 0 \<Longrightarrow>
    breaker_step b (b\<lparr>free_connections := free_connections b - 1, connected := connected b + 1\<rparr>)"
| miss: "free_connections b = 0 \<Longrightarrow> breaker_step b (b\<lparr>missed := missed b + 1\<rparr>)"
| pend: "missed b > 0 \<Longrightarrow> free_pending b > 0 \<Longrightarrow>
    breaker_step b (b\<lparr>missed := missed b - 1, free_pending := free_pending b - 1, pending := pending b + 1\<rparr>)"
| reject: "missed b > 0 \<Longrightarrow> free_pending b = 0 \<Longrightarrow>
    breaker_step b (b\<lparr>missed := missed b - 1, rejections := rejections b + 1\<rparr>)"
| promote: "pending b > 0 \<Longrightarrow> free_connections b > 0 \<Longrightarrow>
    breaker_step b (b\<lparr>pending := pending b - 1, free_connections := free_connections b - 1, promoted := promoted b + 1\<rparr>)"
| drop_pending: "promoted b > 0 \<Longrightarrow>
    breaker_step b (b\<lparr>promoted := promoted b - 1, free_pending := free_pending b + 1, connected := connected b + 1\<rparr>)"
| abandon: "pending b > 0 \<Longrightarrow> breaker_step b (b\<lparr>pending := pending b - 1, free_pending := free_pending b + 1\<rparr>)"
| abandon_granted: "promoted b > 0 \<Longrightarrow>
    breaker_step b (b\<lparr>promoted := promoted b - 1, free_pending := free_pending b + 1, free_connections := free_connections b + 1\<rparr>)"
| disconnect: "connected b > 0 \<Longrightarrow>
    breaker_step b (b\<lparr>connected := connected b - 1, free_connections := free_connections b + 1\<rparr>)"

definition breaker_inv :: "nat \<Rightarrow> nat \<Rightarrow> breaker \<Rightarrow> bool" where
  "breaker_inv conns pend b \<longleftrightarrow> connected b + promoted b + free_connections b = conns \<and> pending b + promoted b + free_pending b = pend"

lemma breaker_step_inv: "breaker_step b b' \<Longrightarrow> breaker_inv conns pend b \<Longrightarrow> breaker_inv conns pend b'"
  by (induction rule: breaker_step.induct) (auto simp: breaker_inv_def)

lemma breaker_steps_inv: "rtranclp breaker_step b b' \<Longrightarrow> breaker_inv conns pend b \<Longrightarrow> breaker_inv conns pend b'"
  by (induction rule: rtranclp_induct) (auto dest: breaker_step_inv)

lemma breaker_rejects: "breaker_step b b' \<Longrightarrow> rejections b' \<noteq> rejections b \<Longrightarrow> free_pending b = 0"
  by (induction rule: breaker_step.induct) auto

text \<open>
  C28: an enabled circuit breaker loses and invents no permit. Whatever requests are admitted, wait, are promoted, give up or end, in
  whatever order, the requests that hold a connection permit and the free ones are \<open>max_connections\<close> together, those that hold a pending
  permit and the free ones \<open>max_pending_requests\<close>; so the limits are never exceeded, a request is refused only while
  \<open>max_pending_requests\<close> others hold a pending permit, and when no request is left all permits are free again.
\<close>

theorem breaker_limits:
  assumes "breaker_new (Breaker_Enabled conns pend) = Some b" "rtranclp breaker_step b b'"
  shows "connected b' + promoted b' + free_connections b' = unat conns \<and> pending b' + promoted b' + free_pending b' = unat pend
    \<and> (\<forall>b''. breaker_step b' b'' \<and> rejections b'' \<noteq> rejections b' \<longrightarrow> pending b' + promoted b' = unat pend)"
proof -
  have "breaker_inv (unat conns) (unat pend) b" using assms(1) by (auto simp: breaker_new_def breaker_inv_def)
  with breaker_steps_inv [OF assms(2)] have "breaker_inv (unat conns) (unat pend) b'" by blast
  then show ?thesis using breaker_rejects by (fastforce simp: breaker_inv_def)
qed

theorem breaker_limits_witness:
  "\<exists>b b'. breaker_new (Breaker_Enabled 1 1) = Some b \<and> rtranclp breaker_step b b' \<and> connected b' = 1 \<and> pending b' = 1
     \<and> free_connections b' = 0 \<and> free_pending b' = 0"
proof -
  obtain b where b: "breaker_new (Breaker_Enabled 1 1) = Some b" by (simp add: breaker_new_def)
  define b1 where "b1 = b\<lparr>free_connections := 0, connected := 1\<rparr>"
  define b2 where "b2 = b1\<lparr>missed := 1\<rparr>"
  define b3 where "b3 = b2\<lparr>missed := 0, free_pending := 0, pending := 1\<rparr>"
  note bs = b1_def b2_def b3_def
  have "breaker_step b b1" using breaker_step.connect [of b] b by (auto simp: bs breaker_new_def)
  moreover have "breaker_step b1 b2" using breaker_step.miss [of b1] b by (auto simp: bs breaker_new_def)
  moreover have "breaker_step b2 b3" using breaker_step.pend [of b2] b by (auto simp: bs breaker_new_def)
  ultimately have run: "rtranclp breaker_step b b3" by (auto intro: converse_rtranclp_into_rtranclp)
  have "connected b3 = 1" "pending b3 = 1" "promoted b3 = 0" using b by (auto simp: bs breaker_new_def)
  with breaker_limits [OF b run] b run show ?thesis by auto
qed

end
