(* ===== verification/Relay_Storage.thy ===== *)
theory Relay_Storage
  imports Pvs "HOL-Library.AList"
begin

text \<open>
  The storage of the relay (crates/pavis-relay/src/storage and state.rs): the history of published
  artifacts, the last known good artifact (LKG) with its metadata, and \<open>state.json\<close>.

  The file system holds directories and regular files, with no symbolic links below the storage
  root; a path is the list of its components, so \<open>Path::starts_with\<close> is \<open>prefix\<close>. Every system call
  takes one tick of a clock, and the environment decides for each tick whether the call fails, and
  with which error (\<open>fault\<close>); a \<open>write_all\<close> or \<open>create_dir_all\<close> that fails may have done a part of its
  work (\<open>torn\<close>). A crash at some tick is the environment in which every call from that tick on fails. What a
  completed write put into a file is there after a crash: the loss of data that was not synced is not
  modelled, so \<open>sync_all\<close> only may fail.
  serde_json is a parameter (the record \<open>json\<close>), as is the hash.
\<close>

section \<open>The file system\<close>

type_synonym path = "string list"

datatype io_kind = NotFound | AlreadyExists | OtherIo string

record fs =
  files :: "(path \<times> bytes) list"
  dirs :: "path list"
  clock :: nat

record io_env =
  fault :: "nat \<Rightarrow> io_kind option"
  torn :: "nat \<Rightarrow> nat"
  now_at :: "nat \<Rightarrow> nat"

datatype storage_error =
    IoFailed io_kind
  | PathEscaped path
  | InvalidFileName string
  | JsonFailed string
  | LkgWithoutMetadata
  | LkgWithoutArtifact
  | HistoryMissingArtifact u64
  | HistoryMissingMetadata u64
  | NoParent path
  | UnexpectedStateName path

type_synonym 'a io = "(fs, storage_error, 'a) st"

abbreviation contents :: "fs \<Rightarrow> path \<Rightarrow> bytes option" where
  "contents s p \<equiv> map_of (files s) p"

definition path_exists :: "fs \<Rightarrow> path \<Rightarrow> bool" where
  "path_exists s p \<longleftrightarrow> p \<in> set (dirs s) \<or> contents s p \<noteq> None"

text \<open>
  \<open>syscall\<close> ticks the clock and runs \<open>broken\<close> when the environment makes the call fail. The result of
  a call is its value or the kind of its error.
\<close>

definition syscall ::
  "io_env \<Rightarrow> (fs \<Rightarrow> nat \<Rightarrow> fs) \<Rightarrow> (fs \<Rightarrow> (io_kind + 'a) \<times> fs) \<Rightarrow> (fs, io_kind, 'a) st" where
  "syscall env broken op s =
     (let t = clock s; s = s\<lparr>clock := t + 1\<rparr> in
      case fault env t of None \<Rightarrow> op s | Some e \<Rightarrow> (Inl e, broken s (torn env t)))"

definition canonicalize :: "io_env \<Rightarrow> path \<Rightarrow> (fs, io_kind, path) st" where
  "canonicalize env p = syscall env (\<lambda>s _. s)
     (\<lambda>s. (if path_exists s p then Inr p else Inl NotFound, s))"

definition create_dir :: "io_env \<Rightarrow> path \<Rightarrow> (fs, io_kind, unit) st" where
  "create_dir env p = syscall env (\<lambda>s _. s)
     (\<lambda>s. if path_exists s p then (Inl AlreadyExists, s)
          else if butlast p \<notin> set (dirs s) then (Inl NotFound, s)
          else (Inr (), s\<lparr>dirs := p # dirs s\<rparr>))"

definition create_dir_all :: "io_env \<Rightarrow> path \<Rightarrow> (fs, io_kind, unit) st" where
  "create_dir_all env p = syscall env
     (\<lambda>s n. if list_ex (\<lambda>q. contents s q \<noteq> None) (take n (prefixes p)) then s
            else s\<lparr>dirs := take n (prefixes p) @ dirs s\<rparr>)
     (\<lambda>s. if list_ex (\<lambda>q. contents s q \<noteq> None) (prefixes p) then (Inl (OtherIo ''NotADirectory''), s)
          else (Inr (), s\<lparr>dirs := prefixes p @ dirs s\<rparr>))"

definition file_create :: "io_env \<Rightarrow> path \<Rightarrow> (fs, io_kind, unit) st" where
  "file_create env p = syscall env (\<lambda>s _. s)
     (\<lambda>s. if p \<in> set (dirs s) then (Inl (OtherIo ''IsADirectory''), s)
          else if butlast p \<notin> set (dirs s) then (Inl NotFound, s)
          else (Inr (), s\<lparr>files := AList.update p [] (files s)\<rparr>))"

definition write_all :: "io_env \<Rightarrow> path \<Rightarrow> bytes \<Rightarrow> (fs, io_kind, unit) st" where
  "write_all env p bs = syscall env (\<lambda>s n. s\<lparr>files := AList.update p (take n bs) (files s)\<rparr>)
     (\<lambda>s. (Inr (), s\<lparr>files := AList.update p bs (files s)\<rparr>))"

definition sync_all :: "io_env \<Rightarrow> (fs, io_kind, unit) st" where
  "sync_all env = syscall env (\<lambda>s _. s) (\<lambda>s. (Inr (), s))"

definition open_dir :: "io_env \<Rightarrow> path \<Rightarrow> (fs, io_kind, unit) st" where
  "open_dir env p = syscall env (\<lambda>s _. s) (\<lambda>s. (if path_exists s p then Inr () else Inl NotFound, s))"

definition fs_rename :: "io_env \<Rightarrow> path \<Rightarrow> path \<Rightarrow> (fs, io_kind, unit) st" where
  "fs_rename env a b = syscall env (\<lambda>s _. s)
     (\<lambda>s. case contents s a of
        None \<Rightarrow> (Inl NotFound, s)
      | Some bs \<Rightarrow>
          if b \<in> set (dirs s) then (Inl (OtherIo ''IsADirectory''), s)
          else (Inr (), s\<lparr>files := AList.update b bs (AList.delete a (files s))\<rparr>))"

definition fs_read :: "io_env \<Rightarrow> path \<Rightarrow> (fs, io_kind, bytes) st" where
  "fs_read env p = syscall env (\<lambda>s _. s)
     (\<lambda>s. (if p \<in> set (dirs s) then Inl (OtherIo ''IsADirectory'') else ok_or (contents s p) NotFound, s))"

definition remove_file :: "io_env \<Rightarrow> path \<Rightarrow> (fs, io_kind, unit) st" where
  "remove_file env p = syscall env (\<lambda>s _. s)
     (\<lambda>s. if contents s p = None then (Inl NotFound, s)
          else (Inr (), s\<lparr>files := AList.delete p (files s)\<rparr>))"

text \<open>The names in a directory, in some order.\<close>

definition dir_entries :: "fs \<Rightarrow> path \<Rightarrow> string list" where
  "dir_entries s p = remdups (map last (filter (\<lambda>q. q \<noteq> [] \<and> butlast q = p) (map fst (files s) @ dirs s)))"

definition read_dir :: "io_env \<Rightarrow> path \<Rightarrow> (fs, io_kind, string list) st" where
  "read_dir env p = syscall env (\<lambda>s _. s)
     (\<lambda>s. (if p \<in> set (dirs s) then Inr (dir_entries s p) else Inl NotFound, s))"

text \<open>\<open>?\<close> on a system call in a function that returns \<open>anyhow::Result\<close>.\<close>

abbreviation io :: "(fs, io_kind, 'a) st \<Rightarrow> 'a io" where
  "io m \<equiv> st_map_err IoFailed m"

section \<open>Metadata (storage/metadata.rs) and serde\_json\<close>

record ArtifactMetadata =
  am_version :: u64
  published_at :: nat
  am_checksum :: string
  am_size :: u64

record RelayState =
  current_version :: u64

record json =
  meta_to_json :: "ArtifactMetadata \<Rightarrow> string + bytes"
  meta_from_json :: "bytes \<Rightarrow> string + ArtifactMetadata"
  state_to_json :: "RelayState \<Rightarrow> string + bytes"
  state_from_json :: "bytes \<Rightarrow> string + RelayState"

definition checksum_for_bytes :: "(bytes \<Rightarrow> bytes) \<Rightarrow> bytes \<Rightarrow> string" where
  "checksum_for_bytes sha256 bs = ''sha256:'' @ to_hex (sha256 bs)"

abbreviation js :: "string + 'a \<Rightarrow> 'a io" where
  "js r \<equiv> st_result (map_err JsonFailed r)"

section \<open>Paths below the storage root\<close>

definition ensure_existing_path :: "io_env \<Rightarrow> path \<Rightarrow> path \<Rightarrow> path io" where
  "ensure_existing_path env root p =
     st_bind (io (canonicalize env p)) (\<lambda>canonical.
       if \<not> prefix root canonical then st_err (PathEscaped canonical) else st_ok canonical)"

definition fsync_dir :: "io_env \<Rightarrow> path \<Rightarrow> unit io" where
  "fsync_dir env p = st_bind (io (open_dir env p)) (\<lambda>_. io (sync_all env))"

text \<open>\<open>tmp\<close> is written and synced, then renamed over the destination.\<close>

definition write_and_rename :: "io_env \<Rightarrow> path \<Rightarrow> path \<Rightarrow> bytes \<Rightarrow> unit io" where
  "write_and_rename env tmp p bs =
     st_bind (io (file_create env tmp)) (\<lambda>_.
     st_bind (io (write_all env tmp bs)) (\<lambda>_.
     st_bind (io (sync_all env)) (\<lambda>_.
       io (fs_rename env tmp p))))"

definition bad_file_name :: "string \<Rightarrow> bool" where
  "bad_file_name n \<longleftrightarrow> CHR ''/'' \<in> set n \<or> CHR 0x5C \<in> set n \<or> sublist ''..'' n"

definition write_atomic_in_dir :: "io_env \<Rightarrow> path \<Rightarrow> path \<Rightarrow> string \<Rightarrow> bytes \<Rightarrow> unit io" where
  "write_atomic_in_dir env root dir file_name bs =
     (let p = dir @ [file_name]; tmp = dir @ [file_name @ ''.tmp''] in
      if bad_file_name file_name then st_err (InvalidFileName file_name)
      else if \<not> prefix root p then st_err (PathEscaped p)
      else if \<not> prefix root tmp then st_err (PathEscaped tmp)
      else write_and_rename env tmp p bs)"

definition ensure_dir :: "io_env \<Rightarrow> path \<Rightarrow> string \<Rightarrow> path io" where
  "ensure_dir env base name =
     st_bind (ensure_existing_path env base base) (\<lambda>root.
     st_bind (st_try (create_dir env (root @ [name]))) (\<lambda>r.
       case r of
         Inr _ \<Rightarrow> ensure_existing_path env base (root @ [name])
       | Inl AlreadyExists \<Rightarrow> ensure_existing_path env base (root @ [name])
       | Inl e \<Rightarrow> st_err (IoFailed e)))"

text \<open>A path that does not exist reads as \<open>None\<close>; every other error is passed on.\<close>

definition read_if_present :: "io_env \<Rightarrow> path \<Rightarrow> path \<Rightarrow> bytes option io" where
  "read_if_present env root p =
     st_bind (st_try (ensure_existing_path env root p)) (\<lambda>r.
       case r of
         Inl (IoFailed NotFound) \<Rightarrow> st_ok None
       | Inl e \<Rightarrow> st_err e
       | Inr canonical \<Rightarrow>
           st_bind (st_try (fs_read env canonical)) (\<lambda>r.
             case r of
               Inr bs \<Rightarrow> st_ok (Some bs)
             | Inl NotFound \<Rightarrow> st_ok None
             | Inl e \<Rightarrow> st_err (IoFailed e)))"

section \<open>History (storage/history.rs)\<close>

definition VERSION_WIDTH :: nat where
  "VERSION_WIDTH = 10"

text \<open>The format \<open>{version:0width$}\<close>.\<close>

definition zero_padded :: "nat \<Rightarrow> nat \<Rightarrow> string" where
  "zero_padded w n = replicate (w - length (to_dec n)) (CHR ''0'') @ to_dec n"

definition version_artifact_name :: "u64 \<Rightarrow> string" where
  "version_artifact_name version = zero_padded VERSION_WIDTH (unat version) @ ''.pvs''"

definition version_metadata_name :: "u64 \<Rightarrow> string" where
  "version_metadata_name version = zero_padded VERSION_WIDTH (unat version) @ ''.meta.json''"

definition history_artifact_path :: "path \<Rightarrow> u64 \<Rightarrow> path" where
  "history_artifact_path base version = base @ [''history'', version_artifact_name version]"

definition history_metadata_path :: "path \<Rightarrow> u64 \<Rightarrow> path" where
  "history_metadata_path base version = base @ [''history'', version_metadata_name version]"

definition parse_version :: "string \<Rightarrow> string \<Rightarrow> u64 option" where
  "parse_version name sfx =
     (if \<not> ends_with name sfx then None
      else case strip_suffix name sfx of
        None \<Rightarrow> None
      | Some stem \<Rightarrow>
          if length stem \<noteq> VERSION_WIDTH \<or> \<not> list_all is_ascii_digit stem then None
          else map_option of_nat (parse_unsigned 64 stem))"

definition ensure_history_dir :: "io_env \<Rightarrow> path \<Rightarrow> path io" where
  "ensure_history_dir env base = ensure_dir env base ''history''"

definition append_to_history :: "io_env \<Rightarrow> json \<Rightarrow> path \<Rightarrow> u64 \<Rightarrow> bytes \<Rightarrow> ArtifactMetadata \<Rightarrow> unit io" where
  "append_to_history env j base version artifact meta =
     st_bind (ensure_history_dir env base) (\<lambda>dir.
     st_bind (write_atomic_in_dir env base dir (version_artifact_name version) artifact) (\<lambda>_.
     st_bind (js (meta_to_json j meta)) (\<lambda>meta_json.
     st_bind (write_atomic_in_dir env base dir (version_metadata_name version) meta_json) (\<lambda>_.
       fsync_dir env dir))))"

text \<open>One entry of the directory: the step of the iterator may fail, the name is put in a set.\<close>

fun scan_entries :: "io_env \<Rightarrow> string list \<Rightarrow> u64 set \<times> u64 set \<Rightarrow> (u64 set \<times> u64 set) io" where
  "scan_entries env [] (arts, metas) = st_ok (arts, metas)"
| "scan_entries env (name # names) (arts, metas) =
     st_bind (io (syscall env (\<lambda>s _. s) (\<lambda>s. (Inr (), s)))) (\<lambda>_.
       case parse_version name ''.pvs'' of
         Some version \<Rightarrow> scan_entries env names (insert version arts, metas)
       | None \<Rightarrow>
           (case parse_version name ''.meta.json'' of
              Some version \<Rightarrow> scan_entries env names (arts, insert version metas)
            | None \<Rightarrow> scan_entries env names (arts, metas)))"

definition scan_history_sets :: "io_env \<Rightarrow> path \<Rightarrow> (u64 set \<times> u64 set) io" where
  "scan_history_sets env base =
     st_bind (st_try (ensure_existing_path env base (base @ [''history'']))) (\<lambda>r.
       case r of
         Inl (IoFailed NotFound) \<Rightarrow> st_ok ({}, {})
       | Inl e \<Rightarrow> st_err e
       | Inr scan_dir \<Rightarrow>
           st_bind (io (read_dir env scan_dir)) (\<lambda>names. scan_entries env names ({}, {})))"

definition list_history_versions :: "io_env \<Rightarrow> path \<Rightarrow> u64 list io" where
  "list_history_versions env base =
     st_bind (scan_history_sets env base) (\<lambda>(arts, metas). st_ok (sorted_list_of_set (arts \<inter> metas)))"

definition find_orphaned_versions :: "io_env \<Rightarrow> path \<Rightarrow> u64 \<Rightarrow> u64 list io" where
  "find_orphaned_versions env base current =
     st_bind (list_history_versions env base) (\<lambda>versions. st_ok (filter (\<lambda>version. version > current) versions))"

definition find_corrupt_versions :: "io_env \<Rightarrow> path \<Rightarrow> u64 list io" where
  "find_corrupt_versions env base =
     st_bind (scan_history_sets env base) (\<lambda>(arts, metas).
       st_ok (sorted_list_of_set ((arts - metas) \<union> (metas - arts))))"

section \<open>Last known good (storage/lkg.rs)\<close>

datatype LkgFile = Lkg_Artifact | Lkg_Metadata

definition LKG_DIR :: string where "LKG_DIR = ''lkg''"

definition LKG_ARTIFACT_FILE :: string where "LKG_ARTIFACT_FILE = ''config.pvs''"

definition LKG_METADATA_FILE :: string where "LKG_METADATA_FILE = ''meta.json''"

definition lkg_artifact_path :: "path \<Rightarrow> path" where
  "lkg_artifact_path base = base @ [LKG_DIR, LKG_ARTIFACT_FILE]"

definition lkg_metadata_path :: "path \<Rightarrow> path" where
  "lkg_metadata_path base = base @ [LKG_DIR, LKG_METADATA_FILE]"

definition ensure_lkg_dir :: "io_env \<Rightarrow> path \<Rightarrow> path io" where
  "ensure_lkg_dir env base = ensure_dir env base LKG_DIR"

definition promote_to_lkg :: "io_env \<Rightarrow> json \<Rightarrow> path \<Rightarrow> bytes \<Rightarrow> ArtifactMetadata \<Rightarrow> unit io" where
  "promote_to_lkg env j base artifact meta =
     st_bind (ensure_lkg_dir env base) (\<lambda>dir.
     st_bind (write_atomic_in_dir env base dir LKG_ARTIFACT_FILE artifact) (\<lambda>_.
     st_bind (js (meta_to_json j meta)) (\<lambda>meta_json.
     st_bind (write_atomic_in_dir env base dir LKG_METADATA_FILE meta_json) (\<lambda>_.
       fsync_dir env dir))))"

fun lkg_candidate :: "path \<Rightarrow> LkgFile \<Rightarrow> path" where
  "lkg_candidate base Lkg_Artifact = lkg_artifact_path base"
| "lkg_candidate base Lkg_Metadata = lkg_metadata_path base"

definition lkg_file_path_if_exists :: "io_env \<Rightarrow> path \<Rightarrow> LkgFile \<Rightarrow> path option io" where
  "lkg_file_path_if_exists env base file =
     st_bind (st_try (ensure_existing_path env base (base @ [LKG_DIR]))) (\<lambda>r.
       case r of
         Inl (IoFailed NotFound) \<Rightarrow> st_ok None
       | Inl e \<Rightarrow> st_err e
       | Inr dir \<Rightarrow> st_ok (Some (dir @ [last (lkg_candidate base file)])))"

definition read_lkg_file_if_present :: "io_env \<Rightarrow> path \<Rightarrow> LkgFile \<Rightarrow> bytes option io" where
  "read_lkg_file_if_present env base file =
     st_bind (lkg_file_path_if_exists env base file) (\<lambda>p.
       case p of None \<Rightarrow> st_ok None | Some p \<Rightarrow> read_if_present env base p)"

definition load_lkg :: "io_env \<Rightarrow> json \<Rightarrow> path \<Rightarrow> (bytes \<times> ArtifactMetadata) option io" where
  "load_lkg env j base =
     st_bind (read_lkg_file_if_present env base Lkg_Artifact) (\<lambda>artifact_bytes.
     st_bind (read_lkg_file_if_present env base Lkg_Metadata) (\<lambda>metadata_bytes.
       case (artifact_bytes, metadata_bytes) of
         (None, None) \<Rightarrow> st_ok None
       | (Some bs, Some meta_bytes) \<Rightarrow>
           st_bind (js (meta_from_json j meta_bytes)) (\<lambda>meta. st_ok (Some (bs, meta)))
       | (Some _, None) \<Rightarrow> st_err LkgWithoutMetadata
       | (None, Some _) \<Rightarrow> st_err LkgWithoutArtifact))"

definition load_lkg_metadata :: "io_env \<Rightarrow> json \<Rightarrow> path \<Rightarrow> ArtifactMetadata option io" where
  "load_lkg_metadata env j base =
     st_bind (read_lkg_file_if_present env base Lkg_Metadata) (\<lambda>metadata_bytes.
       case metadata_bytes of
         None \<Rightarrow> st_ok None
       | Some meta_bytes \<Rightarrow> st_bind (js (meta_from_json j meta_bytes)) (\<lambda>meta. st_ok (Some meta)))"

definition max_history_version :: "io_env \<Rightarrow> path \<Rightarrow> u64 option io" where
  "max_history_version env base =
     st_bind (list_history_versions env base) (\<lambda>versions.
       st_ok (if versions = [] then None else Some (Max (set versions))))"

definition recover_lkg_from_history :: "io_env \<Rightarrow> json \<Rightarrow> path \<Rightarrow> u64 \<Rightarrow> unit io" where
  "recover_lkg_from_history env j base version =
     st_bind (read_if_present env base (history_artifact_path base version)) (\<lambda>b.
     st_bind (st_result (ok_or b (HistoryMissingArtifact version))) (\<lambda>bs.
     st_bind (read_if_present env base (history_metadata_path base version)) (\<lambda>m.
     st_bind (st_result (ok_or m (HistoryMissingMetadata version))) (\<lambda>meta_bytes.
     st_bind (js (meta_from_json j meta_bytes)) (\<lambda>meta.
       promote_to_lkg env j base bs meta)))))"

definition repair_lkg :: "io_env \<Rightarrow> json \<Rightarrow> path \<Rightarrow> unit io" where
  "repair_lkg env j base =
     st_bind (read_lkg_file_if_present env base Lkg_Artifact) (\<lambda>artifact_bytes.
     st_bind (read_lkg_file_if_present env base Lkg_Metadata) (\<lambda>metadata_bytes.
       case (artifact_bytes, metadata_bytes) of
         (None, None) \<Rightarrow> st_ok ()
       | (None, Some meta_bytes) \<Rightarrow>
           st_bind (js (meta_from_json j meta_bytes)) (\<lambda>meta.
             recover_lkg_from_history env j base (am_version meta))
       | (Some _, None) \<Rightarrow>
           st_bind (max_history_version env base) (\<lambda>v.
           st_bind (case v of None \<Rightarrow> st_ok False
                    | Some version \<Rightarrow>
                        st_bind (st_try (recover_lkg_from_history env j base version)) (\<lambda>r. st_ok (is_ok r)))
             (\<lambda>recovered.
                if recovered then st_ok ()
                else st_bind (lkg_file_path_if_exists env base Lkg_Artifact) (\<lambda>p.
                  case p of
                    None \<Rightarrow> st_ok ()
                  | Some p \<Rightarrow> st_bind (st_try (remove_file env p)) (\<lambda>_. st_ok ()))))
       | (Some _, Some _) \<Rightarrow> st_ok ()))"

section \<open>The version counter (state.rs)\<close>

definition STATE_FILE :: string where "STATE_FILE = ''state.json''"

definition state_file_path :: "io_env \<Rightarrow> path \<Rightarrow> path io" where
  "state_file_path env base =
     st_bind (ensure_existing_path env base base) (\<lambda>root.
       let candidate = base @ [''state.json''] in
       if last candidate \<noteq> STATE_FILE then st_err (UnexpectedStateName candidate)
       else st_ok (root @ [last candidate]))"

definition load_state :: "io_env \<Rightarrow> json \<Rightarrow> path \<Rightarrow> RelayState option io" where
  "load_state env j base =
     st_bind (state_file_path env base) (\<lambda>p.
     st_bind (read_if_present env base p) (\<lambda>b.
       case b of
         None \<Rightarrow> st_ok None
       | Some bs \<Rightarrow> st_bind (js (state_from_json j bs)) (\<lambda>st. st_ok (Some st))))"

definition ensure_parent_within_root :: "path \<Rightarrow> path \<Rightarrow> storage_error + unit" where
  "ensure_parent_within_root root p =
     (if p = [] then Inl (NoParent p)
      else if \<not> prefix root (butlast p) then Inl (PathEscaped (butlast p)) else Inr ())"

text \<open>\<open>Path::with_extension\<close>: what follows the last dot of the file name is replaced.\<close>

definition with_extension :: "path \<Rightarrow> string \<Rightarrow> path" where
  "with_extension p ext =
     (let name = last p; stem = rev (tl (dropWhile (\<lambda>c. c \<noteq> CHR ''.'') (rev name))) in
      butlast p @ [(if stem = [] then name else stem) @ ''.'' @ ext])"

definition write_atomic :: "io_env \<Rightarrow> path \<Rightarrow> path \<Rightarrow> bytes \<Rightarrow> unit io" where
  "write_atomic env root p bs =
     st_bind (st_result (ensure_parent_within_root root p)) (\<lambda>_.
     st_bind (io (create_dir_all env (butlast p))) (\<lambda>_.
     let tmp = with_extension p ''tmp'' in
     st_bind (st_result (ensure_parent_within_root root tmp)) (\<lambda>_.
       write_and_rename env tmp p bs)))"

definition save_state :: "io_env \<Rightarrow> json \<Rightarrow> path \<Rightarrow> RelayState \<Rightarrow> unit io" where
  "save_state env j base st =
     st_bind (state_file_path env base) (\<lambda>p.
     st_bind (js (state_to_json j st)) (\<lambda>data.
     st_bind (write_atomic env base p data) (\<lambda>_.
     st_bind (ensure_existing_path env base (butlast p)) (\<lambda>dir.
       fsync_dir env dir))))"

definition derive_state_from_lkg :: "ArtifactMetadata \<Rightarrow> RelayState" where
  "derive_state_from_lkg lkg_meta = \<lparr>current_version = am_version lkg_meta\<rparr>"

section \<open>What the system calls leave alone\<close>

lemmas syscall_defs = canonicalize_def create_dir_def create_dir_all_def file_create_def write_all_def
  sync_all_def open_dir_def fs_rename_def fs_read_def remove_file_def read_dir_def

lemma st_keeps_syscall:
  assumes "\<And>s n. P s \<Longrightarrow> P (broken (s\<lparr>clock := clock s + 1\<rparr>) n)"
    and "\<And>s. P s \<Longrightarrow> P (snd (op (s\<lparr>clock := clock s + 1\<rparr>)))"
  shows "st_keeps P (syscall env broken op)"
  using assms by (auto simp: st_keeps_def syscall_def Let_def split: option.splits)

lemma st_keeps_reading:
  "(\<And>s. P (s\<lparr>clock := clock s + 1\<rparr>) = P s) \<Longrightarrow> st_keeps P (syscall env (\<lambda>s _. s) (\<lambda>s. (f s, s)))"
  by (rule st_keeps_syscall) simp_all

text \<open>Reading calls change neither a file nor a directory.\<close>

lemma keeps_reading [keeps]:
  assumes "\<And>s. P (s\<lparr>clock := clock s + 1\<rparr>) = P s"
  shows "st_keeps P (canonicalize env q)" "st_keeps P (sync_all env)" "st_keeps P (open_dir env q)"
    "st_keeps P (fs_read env q)" "st_keeps P (read_dir env q)"
    "st_keeps P (syscall env (\<lambda>s _. s) (\<lambda>s. (Inr (), s)))"
  unfolding syscall_defs by - (rule st_keeps_reading, rule assms)+

lemma keeps_contents [keeps]:
  shows "st_keeps (\<lambda>s. contents s p = x) (create_dir env q)"
    "st_keeps (\<lambda>s. contents s p = x) (create_dir_all env q)"
    "q \<noteq> p \<Longrightarrow> st_keeps (\<lambda>s. contents s p = x) (file_create env q)"
    "q \<noteq> p \<Longrightarrow> st_keeps (\<lambda>s. contents s p = x) (write_all env q bs)"
    "q \<noteq> p \<Longrightarrow> q' \<noteq> p \<Longrightarrow> st_keeps (\<lambda>s. contents s p = x) (fs_rename env q q')"
    "q \<noteq> p \<Longrightarrow> st_keeps (\<lambda>s. contents s p = x) (remove_file env q)"
  unfolding syscall_defs
  by (rule st_keeps_syscall; auto simp: update_conv' delete_conv' Let_def split: option.splits)+

lemma keeps_dirs [keeps]:
  shows "st_keeps (\<lambda>s. d \<in> set (dirs s)) (create_dir env q)"
    "st_keeps (\<lambda>s. d \<in> set (dirs s)) (create_dir_all env q)"
    "st_keeps (\<lambda>s. d \<in> set (dirs s)) (file_create env q)"
    "st_keeps (\<lambda>s. d \<in> set (dirs s)) (write_all env q bs)"
    "st_keeps (\<lambda>s. d \<in> set (dirs s)) (fs_rename env q q')"
    "st_keeps (\<lambda>s. d \<in> set (dirs s)) (remove_file env q)"
  unfolding syscall_defs
  by (rule st_keeps_syscall; auto simp: Let_def split: option.splits)+

lemma keeps_ensure_existing [keeps]:
  "(\<And>s. P (s\<lparr>clock := clock s + 1\<rparr>) = P s) \<Longrightarrow> st_keeps P (ensure_existing_path env root p)"
  unfolding ensure_existing_path_def by (intro keeps) auto

lemma keeps_read_if_present [keeps]:
  "(\<And>s. P (s\<lparr>clock := clock s + 1\<rparr>) = P s) \<Longrightarrow> st_keeps P (read_if_present env root p)"
  unfolding read_if_present_def
  by (intro keeps) (auto intro!: keeps split: storage_error.splits io_kind.splits)

lemma keeps_fsync_dir [keeps]:
  "(\<And>s. P (s\<lparr>clock := clock s + 1\<rparr>) = P s) \<Longrightarrow> st_keeps P (fsync_dir env p)"
  unfolding fsync_dir_def by (intro keeps) auto

text \<open>An atomic write: the destination has its old contents or, on success, the new ones.\<close>

lemma keeps_write_and_rename [keeps]:
  "tmp \<noteq> q \<Longrightarrow> p \<noteq> q \<Longrightarrow> st_keeps (\<lambda>s. contents s q = x) (write_and_rename env tmp p bs)"
  unfolding write_and_rename_def by (intro keeps) auto

lemma write_and_rename_atomic:
  assumes "tmp \<noteq> p" "write_and_rename env tmp p bs s = (r, s')"
  shows "(\<exists>e. r = Inl e) \<and> contents s' p = contents s p \<or> r = Inr () \<and> contents s' p = Some bs"
  using assms
  by (auto simp: write_and_rename_def st_bind_def st_map_err_def syscall_def syscall_defs Let_def update_conv'
      delete_conv' split: option.splits if_splits sum.splits prod.splits)

lemma keeps_ensure_dir [keeps]:
  "st_keeps (\<lambda>s. contents s p = x) (ensure_dir env base name)"
  unfolding ensure_dir_def
  by (intro keeps) (auto intro!: keeps split: io_kind.splits)

lemma ensure_existing_Inr: "ensure_existing_path env root p s = (Inr d, s') \<Longrightarrow> d = p"
  by (auto simp: ensure_existing_path_def canonicalize_def syscall_def st_defs Let_def
      split: option.splits if_splits)

lemma ensure_dir_Inr: "ensure_dir env base name s = (Inr d, s') \<Longrightarrow> d = base @ [name]"
  by (auto simp: ensure_dir_def st_bind_def st_try_def st_err_def dest!: ensure_existing_Inr
      split: sum.splits io_kind.splits prod.splits)

lemma keeps_write_atomic_in_dir [keeps]:
  "dir @ [n] \<noteq> q \<Longrightarrow> dir @ [n @ ''.tmp''] \<noteq> q \<Longrightarrow>
     st_keeps (\<lambda>s. contents s q = x) (write_atomic_in_dir env root dir n bs)"
  unfolding write_atomic_in_dir_def Let_def by (intro keeps) auto

lemma write_atomic_in_dir_atomic:
  assumes "write_atomic_in_dir env root dir n bs s = (r, s')"
  shows "(\<exists>e. r = Inl e) \<and> contents s' (dir @ [n]) = contents s (dir @ [n])
    \<or> r = Inr () \<and> contents s' (dir @ [n]) = Some bs"
proof (cases "bad_file_name n \<or> \<not> prefix root (dir @ [n]) \<or> \<not> prefix root (dir @ [n @ ''.tmp''])")
  case True
  with assms show ?thesis by (auto simp: write_atomic_in_dir_def Let_def st_err_def split: if_splits)
next
  case False
  with assms show ?thesis
    by (intro write_and_rename_atomic [of "dir @ [n @ ''.tmp'']" _ env]) (auto simp: write_atomic_in_dir_def Let_def)
qed

text \<open>
  The history and the LKG write an artifact and then its metadata into one directory. Whatever
  fails, and wherever, both files are the old ones, or the artifact is new, or both are new; on
  success both are new.
\<close>

definition write_pair ::
  "io_env \<Rightarrow> json \<Rightarrow> path \<Rightarrow> path io \<Rightarrow> string \<Rightarrow> string \<Rightarrow> bytes \<Rightarrow> ArtifactMetadata \<Rightarrow> unit io" where
  "write_pair env j base ensure a m bs meta =
     st_bind ensure (\<lambda>dir.
     st_bind (write_atomic_in_dir env base dir a bs) (\<lambda>_.
     st_bind (js (meta_to_json j meta)) (\<lambda>meta_json.
     st_bind (write_atomic_in_dir env base dir m meta_json) (\<lambda>_.
       fsync_dir env dir))))"

lemma append_to_history_pair:
  "append_to_history env j base v bs meta = write_pair env j base (ensure_dir env base ''history'')
     (version_artifact_name v) (version_metadata_name v) bs meta"
  by (simp add: append_to_history_def write_pair_def ensure_history_dir_def)

lemma promote_to_lkg_pair:
  "promote_to_lkg env j base bs meta = write_pair env j base (ensure_dir env base LKG_DIR)
     LKG_ARTIFACT_FILE LKG_METADATA_FILE bs meta"
  by (simp add: promote_to_lkg_def write_pair_def ensure_lkg_dir_def)

lemma write_pair_atomic:
  assumes "write_pair env j base (ensure_dir env base d) a m bs meta s = (r, s')"
    and "a \<noteq> m" "m \<noteq> a @ ''.tmp''" "a \<noteq> m @ ''.tmp''"
  defines "A \<equiv> base @ [d, a]" and "M \<equiv> base @ [d, m]"
  shows "(\<exists>e. r = Inl e) \<and> contents s' A = contents s A \<and> contents s' M = contents s M
    \<or> (\<exists>e. r = Inl e) \<and> contents s' A = Some bs \<and> contents s' M = contents s M
    \<or> (\<exists>mj. meta_to_json j meta = Inr mj \<and> contents s' A = Some bs \<and> contents s' M = Some mj)"
proof -
  have A: "A = (base @ [d]) @ [a]" and M: "M = (base @ [d]) @ [m]" by (simp_all add: A_def M_def)
  have ens: "contents s1 A = contents s A" "contents s1 M = contents s M"
    if "ensure_dir env base d s = (x, s1)" for x s1
    using st_keepsD [OF keeps_ensure_dir _ that, of A "contents s A"]
      st_keepsD [OF keeps_ensure_dir _ that, of M "contents s M"] by simp_all
  have first: "contents s2 M = contents s1 M \<and> ((\<exists>e. x = Inl e) \<and> contents s2 A = contents s1 A
      \<or> x = Inr () \<and> contents s2 A = Some bs)"
    if w: "write_atomic_in_dir env base (base @ [d]) a bs s1 = (x, s2)" for s1 s2 x
  proof
    have "st_keeps (\<lambda>s. contents s M = contents s1 M) (write_atomic_in_dir env base (base @ [d]) a bs)"
      using assms(2,3) by (intro keeps_write_atomic_in_dir) (auto simp: M)
    from st_keepsD [OF this _ w] show "contents s2 M = contents s1 M" by simp
    from write_atomic_in_dir_atomic [OF w]
    show "(\<exists>e. x = Inl e) \<and> contents s2 A = contents s1 A \<or> x = Inr () \<and> contents s2 A = Some bs"
      unfolding A .
  qed
  have second: "contents s2 A = contents s1 A \<and> ((\<exists>e. x = Inl e) \<and> contents s2 M = contents s1 M
      \<or> x = Inr () \<and> contents s2 M = Some mj)"
    if w: "write_atomic_in_dir env base (base @ [d]) m mj s1 = (x, s2)" for s1 s2 x mj
  proof
    have "st_keeps (\<lambda>s. contents s A = contents s1 A) (write_atomic_in_dir env base (base @ [d]) m mj)"
      using assms(2,4) by (intro keeps_write_atomic_in_dir) (auto simp: A)
    from st_keepsD [OF this _ w] show "contents s2 A = contents s1 A" by simp
    from write_atomic_in_dir_atomic [OF w]
    show "(\<exists>e. x = Inl e) \<and> contents s2 M = contents s1 M \<or> x = Inr () \<and> contents s2 M = Some mj"
      unfolding M .
  qed
  have sync: "contents s2 p = contents s1 p" if "fsync_dir env q s1 = (x, s2)" for s1 s2 x p q
    using st_keepsD [OF keeps_fsync_dir _ that, of "\<lambda>s. contents s p = contents s1 p"] by simp
  obtain x1 s1 where 1: "ensure_dir env base d s = (x1, s1)" by fastforce
  note e = ens [OF 1]
  show ?thesis
  proof (cases x1)
    case Inl
    with assms(1) 1 e show ?thesis by (auto simp: write_pair_def st_bind_def)
  next
    case (Inr d1)
    with 1 have d1: "d1 = base @ [d]" by (auto dest: ensure_dir_Inr)
    obtain x2 s2 where 2: "write_atomic_in_dir env base (base @ [d]) a bs s1 = (x2, s2)" by fastforce
    note f = first [OF 2]
    have eq: "(r, s') = (case x2 of Inl err \<Rightarrow> (Inl err, s2) | Inr _ \<Rightarrow>
        (case meta_to_json j meta of Inl err \<Rightarrow> (Inl (JsonFailed err), s2)
         | Inr mj \<Rightarrow> st_bind (write_atomic_in_dir env base (base @ [d]) m mj)
             (\<lambda>_. fsync_dir env (base @ [d])) s2))"
      unfolding assms(1) [symmetric] write_pair_def
      by (simp add: st_bind_def 1 2 Inr d1 st_result_def split: sum.splits)
    show ?thesis
    proof (cases "x2 = Inr () \<and> is_ok (meta_to_json j meta)")
      case False
      with eq obtain err where "r = Inl err" "s' = s2"
        by (cases x2; cases "meta_to_json j meta") auto
      with e f show ?thesis by metis
    next
      case True
      then obtain mj where mj: "meta_to_json j meta = Inr mj" by (auto simp: is_ok_iff)
      obtain x3 s3 where 3: "write_atomic_in_dir env base (base @ [d]) m mj s2 = (x3, s3)" by fastforce
      obtain x4 s4 where 4: "fsync_dir env (base @ [d]) s3 = (x4, s4)" by fastforce
      from eq True mj 3 4 have "(r, s') = (case x3 of Inl err \<Rightarrow> (Inl err, s3) | Inr _ \<Rightarrow> (x4, s4))"
        by (cases x3) (simp_all add: st_bind_def)
      then consider err where "x3 = Inl err" "r = Inl err" "s' = s3" | "x3 = Inr ()" "s' = s4"
        by (cases x3) auto
      then show ?thesis
      proof cases
        case 1
        with e f second [OF 3] True show ?thesis by simp
      next
        case 2
        with e f second [OF 3] sync [OF 4] True mj show ?thesis by simp
      qed
    qed
  qed
qed

subsection \<open>Names of history entries\<close>

lemma zero_padded_digits: "list_all is_ascii_digit (zero_padded w n) \<and> dec_value (zero_padded w n) = n"
  using to_dec_digits [of n]
  by (auto simp: zero_padded_def dec_value_append dec_value_zeros list_all_iff is_ascii_digit_def)

lemma length_zero_padded: "length (zero_padded w n) = max w (length (to_dec n))"
  by (simp add: zero_padded_def)

lemma length_to_dec_gt: "10 ^ k \<le> n \<Longrightarrow> k < length (to_dec n)"
  using to_dec_digits [of n] dec_value_less [of "to_dec n"]
  by (metis linorder_not_less order.strict_trans1 order_le_less_trans power_increasing_iff numeral_One
      one_less_numeral_iff semiring_norm(76))

lemma parse_digits:
  "length s = VERSION_WIDTH \<Longrightarrow> list_all is_ascii_digit s \<Longrightarrow> parse_unsigned 64 s = Some (dec_value s)"
proof -
  assume s: "length s = VERSION_WIDTH" "list_all is_ascii_digit s"
  then obtain c cs where cs: "s = c # cs" by (cases s) (auto simp: VERSION_WIDTH_def)
  with s(2) have "c \<noteq> CHR ''+''" by (auto simp: is_ascii_digit_def)
  moreover have "dec_value s < 2 ^ 64" using dec_value_less [OF s(2)] s(1) by (simp add: VERSION_WIDTH_def)
  ultimately show ?thesis using s by (simp add: parse_unsigned_def cs)
qed

lemma parse_version_iff:
  "parse_version name sfx = Some v \<longleftrightarrow>
     name = zero_padded VERSION_WIDTH (unat v) @ sfx \<and> unat v < 10 ^ VERSION_WIDTH"
proof
  assume "parse_version name sfx = Some v"
  then obtain stem where stem: "name = stem @ sfx" "length stem = VERSION_WIDTH" "list_all is_ascii_digit stem"
      and v: "v = of_nat (dec_value stem)"
    by (auto simp: parse_version_def strip_suffix_eq_Some parse_digits split: if_splits option.splits)
  have lt: "dec_value stem < 10 ^ VERSION_WIDTH" using dec_value_less [OF stem(3)] by (simp add: stem(2))
  also have "10 ^ VERSION_WIDTH \<le> (2 :: nat) ^ 64" by (simp add: VERSION_WIDTH_def)
  finally have uv: "unat v = dec_value stem" unfolding v by (simp add: unat_of_nat)
  have "stem = zero_padded VERSION_WIDTH (unat v)"
  proof (rule dec_value_inj)
    have "length (to_dec (unat v)) \<le> VERSION_WIDTH"
      using lt unfolding uv [symmetric] by (intro length_to_dec_le) (simp_all add: VERSION_WIDTH_def)
    then show "length stem = length (zero_padded VERSION_WIDTH (unat v))"
      using stem(2) by (simp add: length_zero_padded)
  qed (simp_all add: stem(3) zero_padded_digits uv)
  with stem(1) lt uv show "name = zero_padded VERSION_WIDTH (unat v) @ sfx \<and> unat v < 10 ^ VERSION_WIDTH" by metis
next
  assume n: "name = zero_padded VERSION_WIDTH (unat v) @ sfx \<and> unat v < 10 ^ VERSION_WIDTH"
  then have "length (to_dec (unat v)) \<le> VERSION_WIDTH"
    by (intro length_to_dec_le) (simp_all add: VERSION_WIDTH_def)
  then have "length (zero_padded VERSION_WIDTH (unat v)) = VERSION_WIDTH" by (simp add: length_zero_padded)
  with n show "parse_version name sfx = Some v"
    using zero_padded_digits [of VERSION_WIDTH "unat v"]
    by (auto simp: parse_version_def strip_suffix_eq_Some parse_digits suffix_def split: option.splits)
qed

section \<open>An artifact with its metadata\<close>

text \<open>
  The contract of a store that holds an artifact with its metadata, which the LKG and each entry of
  the history implement: a write may fail anywhere, but each of the two files is replaced as a whole,
  the artifact first.
\<close>

definition pair_view :: "path \<Rightarrow> path \<Rightarrow> fs \<Rightarrow> bytes option \<times> bytes option" where
  "pair_view a m s = (contents s a, contents s m)"

definition lkg_view :: "path \<Rightarrow> fs \<Rightarrow> bytes option \<times> bytes option" where
  "lkg_view base = pair_view (lkg_artifact_path base) (lkg_metadata_path base)"

locale pair_store =
  fixes put :: "io_env \<Rightarrow> bytes \<Rightarrow> ArtifactMetadata \<Rightarrow> unit io"
    and artifact_at :: path and metadata_at :: path and j :: json
  assumes put_atomic: "put env bs meta s = (r, s') \<Longrightarrow>
       (\<exists>e. r = Inl e) \<and> contents s' artifact_at = contents s artifact_at
         \<and> contents s' metadata_at = contents s metadata_at
     \<or> (\<exists>e. r = Inl e) \<and> contents s' artifact_at = Some bs \<and> contents s' metadata_at = contents s metadata_at
     \<or> (\<exists>mj. meta_to_json j meta = Inr mj \<and> contents s' artifact_at = Some bs \<and> contents s' metadata_at = Some mj)"
begin

lemma put_Inr:
  "put env bs meta s = (Inr u, s') \<Longrightarrow>
     \<exists>mj. meta_to_json j meta = Inr mj \<and> pair_view artifact_at metadata_at s' = (Some bs, Some mj)"
  using put_atomic [of env bs meta s "Inr u" s'] by (auto simp: pair_view_def)

lemma put_never_torn:
  "put env bs meta s = (r, s') \<Longrightarrow>
     fst (pair_view artifact_at metadata_at s') \<in> {fst (pair_view artifact_at metadata_at s), Some bs} \<and>
     (snd (pair_view artifact_at metadata_at s') = snd (pair_view artifact_at metadata_at s) \<or> (\<exists>mj. meta_to_json j meta = Inr mj \<and> pair_view artifact_at metadata_at s' = (Some bs, Some mj)))"
  using put_atomic [of env bs meta s r s'] by (auto simp: pair_view_def)

end

interpretation lkg_pair: pair_store "\<lambda>env. promote_to_lkg env j base" "lkg_artifact_path base" "lkg_metadata_path base" j
  for j base
proof unfold_locales
  fix env bs meta s r s'
  assume "promote_to_lkg env j base bs meta s = (r, s')"
  from write_pair_atomic [OF this [unfolded promote_to_lkg_pair]]
  show "(\<exists>e. r = Inl e) \<and> contents s' (lkg_artifact_path base) = contents s (lkg_artifact_path base)
      \<and> contents s' (lkg_metadata_path base) = contents s (lkg_metadata_path base)
    \<or> (\<exists>e. r = Inl e) \<and> contents s' (lkg_artifact_path base) = Some bs
      \<and> contents s' (lkg_metadata_path base) = contents s (lkg_metadata_path base)
    \<or> (\<exists>mj. meta_to_json j meta = Inr mj \<and> contents s' (lkg_artifact_path base) = Some bs
      \<and> contents s' (lkg_metadata_path base) = Some mj)"
    by (simp add: lkg_artifact_path_def lkg_metadata_path_def LKG_ARTIFACT_FILE_def LKG_METADATA_FILE_def)
qed

interpretation history_pair: pair_store "\<lambda>env. append_to_history env j base v"
  "history_artifact_path base v" "history_metadata_path base v" j
  for j base v
proof unfold_locales
  fix env bs meta s r s'
  assume "append_to_history env j base v bs meta s = (r, s')"
  from write_pair_atomic [OF this [unfolded append_to_history_pair]]
  show "(\<exists>e. r = Inl e) \<and> contents s' (history_artifact_path base v) = contents s (history_artifact_path base v)
      \<and> contents s' (history_metadata_path base v) = contents s (history_metadata_path base v)
    \<or> (\<exists>e. r = Inl e) \<and> contents s' (history_artifact_path base v) = Some bs
      \<and> contents s' (history_metadata_path base v) = contents s (history_metadata_path base v)
    \<or> (\<exists>mj. meta_to_json j meta = Inr mj \<and> contents s' (history_artifact_path base v) = Some bs
      \<and> contents s' (history_metadata_path base v) = Some mj)"
    by (simp add: history_artifact_path_def history_metadata_path_def version_artifact_name_def
        version_metadata_name_def)
qed

section \<open>Frames\<close>

text \<open>Each operation leaves every file alone that is not one of its destinations or their temporary files.\<close>

definition pair_files :: "path \<Rightarrow> string \<Rightarrow> string \<Rightarrow> path set" where
  "pair_files dir a m = {dir @ [a], dir @ [a @ ''.tmp''], dir @ [m], dir @ [m @ ''.tmp'']}"

lemma write_pair_frame:
  assumes "write_pair env j base (ensure_dir env base d) a m bs meta s = (r, s')"
    and "p \<notin> pair_files (base @ [d]) a m"
  shows "contents s' p = contents s p"
  using assms(1) unfolding write_pair_def
proof (rule st_bind_keepsD)
  fix dir s1
  assume "ensure_dir env base d s = (Inr dir, s1)"
  then have "dir = base @ [d]" by (rule ensure_dir_Inr)
  with assms(2) show "st_keeps (\<lambda>s'. contents s' p = contents s p)
      (st_bind (write_atomic_in_dir env base dir a bs) (\<lambda>_.
       st_bind (js (meta_to_json j meta)) (\<lambda>meta_json.
       st_bind (write_atomic_in_dir env base dir m meta_json) (\<lambda>_. fsync_dir env dir))))"
    by (intro keeps) (auto simp: pair_files_def)
qed (simp_all add: keeps)

lemma promote_to_lkg_frame:
  "promote_to_lkg env j base bs meta s = (r, s') \<Longrightarrow>
     p \<notin> pair_files (base @ [LKG_DIR]) LKG_ARTIFACT_FILE LKG_METADATA_FILE \<Longrightarrow> contents s' p = contents s p"
  unfolding promote_to_lkg_pair by (rule write_pair_frame)

lemma append_to_history_frame:
  "append_to_history env j base v bs meta s = (r, s') \<Longrightarrow>
     p \<notin> pair_files (base @ [''history'']) (version_artifact_name v) (version_metadata_name v) \<Longrightarrow>
     contents s' p = contents s p"
  unfolding append_to_history_pair by (rule write_pair_frame)

lemma with_extension_state: "with_extension (base @ [''state.json'']) ''tmp'' = base @ [''state.tmp'']"
  by (simp add: with_extension_def)

lemma state_file_path_Inr: "state_file_path env base s = (Inr p, s') \<Longrightarrow> p = base @ [''state.json'']"
  by (auto simp: state_file_path_def STATE_FILE_def st_bind_def st_ok_def dest: ensure_existing_Inr
      split: prod.splits sum.splits)

lemma keeps_state_file_path [keeps]:
  "(\<And>s. P (s\<lparr>clock := clock s + 1\<rparr>) = P s) \<Longrightarrow> st_keeps P (state_file_path env base)"
  unfolding state_file_path_def Let_def by (intro keeps) auto

lemma save_state_frame:
  assumes "save_state env j base st s = (r, s')" "p \<noteq> base @ [''state.json'']" "p \<noteq> base @ [''state.tmp'']"
  shows "contents s' p = contents s p"
  using assms(1) unfolding save_state_def
proof (rule st_bind_keepsD)
  fix q s1
  assume "state_file_path env base s = (Inr q, s1)"
  then have q: "q = base @ [''state.json'']" by (rule state_file_path_Inr)
  have "st_keeps (\<lambda>s'. contents s' p = contents s p) (write_atomic env base q data)" for data
    unfolding write_atomic_def Let_def q with_extension_state using assms(2,3) by (intro keeps) auto
  then show "st_keeps (\<lambda>s'. contents s' p = contents s p)
      (st_bind (js (state_to_json j st)) (\<lambda>data.
       st_bind (write_atomic env base q data) (\<lambda>_.
       st_bind (ensure_existing_path env base (butlast q)) (\<lambda>dir. fsync_dir env dir))))"
    by (intro keeps) auto
qed (simp_all add: keeps)

section \<open>Reading back\<close>

text \<open>An environment that never reports an existing file as missing.\<close>

definition honest :: "io_env \<Rightarrow> bool" where
  "honest env \<longleftrightarrow> (\<forall>t. fault env t \<noteq> Some NotFound)"

definition same_files :: "fs \<Rightarrow> fs \<Rightarrow> bool" where
  "same_files s s' \<longleftrightarrow> files s' = files s \<and> dirs s' = dirs s"

lemma same_files_trans: "same_files s s' \<Longrightarrow> same_files s' s'' \<Longrightarrow> same_files s s''"
  by (simp add: same_files_def)

lemma read_if_present_Inr:
  "honest env \<Longrightarrow> read_if_present env root p s = (Inr b, s') \<Longrightarrow> b = contents s p \<and> same_files s s'"
  by (auto simp: read_if_present_def ensure_existing_path_def canonicalize_def fs_read_def syscall_def st_defs Let_def
      honest_def path_exists_def same_files_def split: option.splits if_splits io_kind.splits)

lemma lkg_file_path_Inr:
  "honest env \<Longrightarrow> base @ [LKG_DIR] \<in> set (dirs s) \<Longrightarrow> lkg_file_path_if_exists env base f s = (Inr p, s') \<Longrightarrow>
     p = Some (lkg_candidate base f) \<and> same_files s s'"
  by (cases f)
    (auto simp: lkg_file_path_if_exists_def ensure_existing_path_def canonicalize_def syscall_def st_defs Let_def
      honest_def path_exists_def same_files_def lkg_artifact_path_def lkg_metadata_path_def
      split: option.splits if_splits io_kind.splits)

lemma read_lkg_Inr:
  assumes "honest env" "base @ [LKG_DIR] \<in> set (dirs s)" "read_lkg_file_if_present env base f s = (Inr b, s')"
  shows "b = contents s (lkg_candidate base f) \<and> same_files s s'"
proof -
  from assms(3) obtain p s1 where 1: "lkg_file_path_if_exists env base f s = (Inr p, s1)"
    and 2: "(case p of None \<Rightarrow> st_ok None | Some p \<Rightarrow> read_if_present env base p) s1 = (Inr b, s')"
    by (auto simp: read_lkg_file_if_present_def st_bind_eq)
  from lkg_file_path_Inr [OF assms(1,2) 1] have p: "p = Some (lkg_candidate base f)" "same_files s s1" by simp_all
  with 2 have "read_if_present env base (lkg_candidate base f) s1 = (Inr b, s')" by simp
  from read_if_present_Inr [OF assms(1) this] p show ?thesis by (simp add: same_files_def)
qed

text \<open>With both files of the LKG in place, the repair does nothing and the load returns them.\<close>

lemma repair_lkg_present:
  assumes "honest env" "base @ [LKG_DIR] \<in> set (dirs s)" "repair_lkg env j base s = (Inr u, s')"
    and "contents s (lkg_artifact_path base) \<noteq> None" "contents s (lkg_metadata_path base) \<noteq> None"
  shows "same_files s s'"
proof -
  from assms(3) obtain a s1 b s2 where 1: "read_lkg_file_if_present env base Lkg_Artifact s = (Inr a, s1)"
      "read_lkg_file_if_present env base Lkg_Metadata s1 = (Inr b, s2)"
    unfolding repair_lkg_def st_bind_eq by blast
  from read_lkg_Inr [OF assms(1,2) 1(1)] have a: "a = contents s (lkg_artifact_path base)" "same_files s s1" by simp_all
  then have "base @ [LKG_DIR] \<in> set (dirs s1)" using assms(2) by (simp add: same_files_def)
  from read_lkg_Inr [OF assms(1) this 1(2)] a have b: "b = contents s (lkg_metadata_path base)" "same_files s s2"
    by (simp_all add: same_files_def)
  from assms(3-5) 1 a b show ?thesis by (auto simp: repair_lkg_def st_bind_def st_ok_def)
qed

lemma load_lkg_present:
  assumes "honest env" "base @ [LKG_DIR] \<in> set (dirs s)" "load_lkg env j base s = (Inr x, s')"
    and "contents s (lkg_artifact_path base) = Some bs" "contents s (lkg_metadata_path base) = Some mj"
  shows "(\<exists>meta. meta_from_json j mj = Inr meta \<and> x = Some (bs, meta)) \<and> same_files s s'"
proof -
  from assms(3) obtain a s1 b s2 where 1: "read_lkg_file_if_present env base Lkg_Artifact s = (Inr a, s1)"
      "read_lkg_file_if_present env base Lkg_Metadata s1 = (Inr b, s2)"
    unfolding load_lkg_def st_bind_eq by blast
  from read_lkg_Inr [OF assms(1,2) 1(1)] have a: "a = contents s (lkg_artifact_path base)" "same_files s s1" by simp_all
  then have "base @ [LKG_DIR] \<in> set (dirs s1)" using assms(2) by (simp add: same_files_def)
  from read_lkg_Inr [OF assms(1) this 1(2)] a have b: "b = contents s (lkg_metadata_path base)" "same_files s s2"
    by (simp_all add: same_files_def)
  from assms(3-5) 1 a b show ?thesis
    by (cases "meta_from_json j mj") (auto simp: load_lkg_def st_bind_def st_ok_def st_result_def)
qed

section \<open>Reading without faults\<close>

definition calm :: "io_env \<Rightarrow> bool" where
  "calm env \<longleftrightarrow> (\<forall>t. fault env t = None)"

text \<open>\<open>returns m s v\<close>: the code \<open>m\<close> returns \<open>v\<close> and leaves files and directories as they are.\<close>

definition returns :: "(fs, 'e, 'a) st \<Rightarrow> fs \<Rightarrow> 'a \<Rightarrow> bool" where
  "returns m s v \<longleftrightarrow> (\<exists>s'. m s = (Inr v, s') \<and> same_files s s')"

lemma returns_bind:
  assumes "returns m s v" "\<And>s'. same_files s s' \<Longrightarrow> returns (k v) s' w"
  shows "returns (st_bind m k) s w"
proof -
  from assms(1) obtain s1 where "m s = (Inr v, s1)" "same_files s s1" by (auto simp: returns_def)
  with assms(2) [of s1] show ?thesis by (auto simp: returns_def st_bind_def intro: same_files_trans)
qed

lemma returns_simple:
  "returns (st_ok v) s v" "r = Inr v \<Longrightarrow> returns (st_result r) s v"
  "returns m s x \<Longrightarrow> returns (st_map_err f m) s x"
  by (auto simp: returns_def st_defs same_files_def)

lemma returns_ensure_existing:
  "calm env \<Longrightarrow> prefix root p \<Longrightarrow> path_exists s p \<Longrightarrow> returns (ensure_existing_path env root p) s p"
  by (auto simp: returns_def ensure_existing_path_def canonicalize_def syscall_def st_defs Let_def calm_def
      path_exists_def same_files_def)

lemma returns_read_if_present:
  assumes "calm env" "prefix root p" "p \<notin> set (dirs s)"
  shows "returns (read_if_present env root p) s (contents s p)"
  using assms
  by (cases "contents s p")
    (auto simp: returns_def read_if_present_def ensure_existing_path_def canonicalize_def fs_read_def syscall_def
      st_defs Let_def calm_def path_exists_def same_files_def)

lemma returns_lkg_file_path:
  assumes "calm env" "base @ [LKG_DIR] \<in> set (dirs s)"
  shows "returns (lkg_file_path_if_exists env base f) s (Some (lkg_candidate base f))"
  using assms
  by (cases f)
    (auto simp: returns_def lkg_file_path_if_exists_def ensure_existing_path_def canonicalize_def syscall_def
      st_defs Let_def calm_def path_exists_def same_files_def lkg_artifact_path_def lkg_metadata_path_def)

lemma returns_read_lkg:
  assumes "calm env" "base @ [LKG_DIR] \<in> set (dirs s)" "lkg_candidate base f \<notin> set (dirs s)"
  shows "returns (read_lkg_file_if_present env base f) s (contents s (lkg_candidate base f))"
proof -
  have pre: "prefix base (lkg_candidate base f)"
    by (cases f) (simp_all add: lkg_artifact_path_def lkg_metadata_path_def)
  have "returns (read_if_present env base (lkg_candidate base f)) s' (contents s (lkg_candidate base f))"
    if "same_files s s'" for s'
    using returns_read_if_present [OF assms(1) pre, of s'] assms(3) that by (simp add: same_files_def)
  then show ?thesis unfolding read_lkg_file_if_present_def
    by (intro returns_bind [OF returns_lkg_file_path [OF assms(1,2)]]) simp
qed

lemma returns_lkg_pair:
  assumes "calm env" "base @ [LKG_DIR] \<in> set (dirs s)" "\<And>f. lkg_candidate base f \<notin> set (dirs s)"
    and "lkg_view base s = (Some bs, Some mj)" "meta_from_json j mj = Inr meta"
  shows "returns (repair_lkg env j base) s ()" "returns (load_lkg env j base) s (Some (bs, meta))"
proof -
  have a: "returns (read_lkg_file_if_present env base Lkg_Artifact) s (Some bs)"
    and m: "same_files s s' \<Longrightarrow> returns (read_lkg_file_if_present env base Lkg_Metadata) s' (Some mj)" for s'
    using returns_read_lkg [OF assms(1), of base s Lkg_Artifact] returns_read_lkg [OF assms(1), of base s' Lkg_Metadata]
      assms(2,4) assms(3) [of Lkg_Artifact] assms(3) [of Lkg_Metadata]
    by (auto simp: lkg_view_def pair_view_def same_files_def)
  show "returns (repair_lkg env j base) s ()" unfolding repair_lkg_def
    by (rule returns_bind [OF a returns_bind [OF m]]) (simp_all add: returns_simple)
  show "returns (load_lkg env j base) s (Some (bs, meta))" unfolding load_lkg_def
    by (rule returns_bind [OF a returns_bind [OF m]])
      (auto intro!: returns_bind [OF returns_simple(2)] returns_simple simp: assms(5))
qed

lemma returns_load_state:
  assumes "calm env" "base \<in> set (dirs s)" "base @ [''state.json''] \<notin> set (dirs s)"
    and "contents s (base @ [''state.json'']) = Some sj" "state_from_json j sj = Inr st"
  shows "returns (load_state env j base) s (Some st)"
proof -
  have "returns (state_file_path env base) s (base @ [''state.json''])"
    unfolding state_file_path_def using assms(1,2)
    by (intro returns_bind [OF returns_ensure_existing]) (auto simp: path_exists_def STATE_FILE_def returns_simple)
  then show ?thesis unfolding load_state_def
  proof (rule returns_bind)
    fix s' assume "same_files s s'"
    then have "returns (read_if_present env base (base @ [''state.json''])) s' (Some sj)"
      using returns_read_if_present [OF assms(1), of base "base @ [''state.json'']" s'] assms(3,4)
      by (simp add: same_files_def)
    then show "returns (st_bind (read_if_present env base (base @ [''state.json''])) (\<lambda>b. case b of
        None \<Rightarrow> st_ok None | Some bs \<Rightarrow> st_bind (js (state_from_json j bs)) (\<lambda>st. st_ok (Some st)))) s' (Some st)"
      by (rule returns_bind) (auto intro!: returns_bind [OF returns_simple(2)] returns_simple simp: assms(5))
  qed
qed

lemma returns_scan_entries:
  "calm env \<Longrightarrow> \<exists>x. returns (scan_entries env names acc) s x"
proof (induction names arbitrary: acc s)
  case Nil
  then show ?case by (cases acc) (auto intro: returns_simple)
next
  case (Cons n names)
  obtain a m where acc: "acc = (a, m)" by fastforce
  define s' where "s' = s\<lparr>clock := clock s + 1\<rparr>"
  have tick: "io (syscall env (\<lambda>s _. s) (\<lambda>s. (Inr (), s))) s = (Inr (), s')"
    using Cons.prems by (simp add: syscall_def st_map_err_def calm_def s'_def)
  have "same_files s s'" by (simp add: same_files_def s'_def)
  with Cons.IH [OF Cons.prems, of _ s'] tick show ?case
    by (auto simp: acc returns_def st_bind_def split: option.splits intro: same_files_trans) (blast intro: same_files_trans)+
qed

lemma returns_scan_history:
  assumes "calm env" "base @ [''history''] \<in> set (dirs s)"
  shows "\<exists>x. returns (scan_history_sets env base) s x"
proof -
  define s1 where "s1 = s\<lparr>clock := clock s + 1\<rparr>"
  define s2 where "s2 = s1\<lparr>clock := clock s1 + 1\<rparr>"
  have "ensure_existing_path env base (base @ [''history'']) s = (Inr (base @ [''history'']), s1)"
    using assms by (simp add: ensure_existing_path_def canonicalize_def syscall_def st_defs calm_def path_exists_def s1_def)
  moreover have "io (read_dir env (base @ [''history''])) s1 = (Inr (dir_entries s2 (base @ [''history''])), s2)"
    using assms by (simp add: read_dir_def syscall_def st_map_err_def calm_def s1_def s2_def Let_def)
  moreover obtain x where "returns (scan_entries env (dir_entries s2 (base @ [''history''])) ({}, {})) s2 x"
    using returns_scan_entries [OF assms(1)] by blast
  moreover have "same_files s s2" by (simp add: same_files_def s1_def s2_def)
  ultimately show ?thesis
    by (auto simp: scan_history_sets_def returns_def st_bind_def st_try_def intro: same_files_trans)
qed

lemma returns_history_queries:
  assumes "calm env" "base @ [''history''] \<in> set (dirs s)"
  shows "\<exists>x. returns (find_orphaned_versions env base v) s x" "\<exists>x. returns (find_corrupt_versions env base) s x"
proof -
  obtain a m where x: "returns (scan_history_sets env base) s (a, m)" using returns_scan_history [OF assms] by fastforce
  have "returns (list_history_versions env base) s (sorted_list_of_set (a \<inter> m))"
    unfolding list_history_versions_def by (rule returns_bind [OF x]) (simp add: returns_simple)
  then show "\<exists>x. returns (find_orphaned_versions env base v) s x"
    unfolding find_orphaned_versions_def by (blast intro: returns_bind returns_simple(1))
  from x show "\<exists>x. returns (find_corrupt_versions env base) s x"
    unfolding find_corrupt_versions_def by (fastforce intro: returns_bind returns_simple(1))
qed

section \<open>Properties\<close>

text \<open>
  The name of a history entry can be read back. \<open>parse_version\<close> recognises exactly the names that
  are written for a version below \<open>10 ^ 10\<close>, and returns that version; a temporary file, a name of the other
  kind or a shorter number is not an entry. From \<open>10 ^ 10\<close> on the names get longer than \<open>VERSION_WIDTH\<close> and
  are no longer recognised.
\<close>

theorem history_name_roundtrip:
  "(parse_version n ''.pvs'' = Some v \<longleftrightarrow> n = version_artifact_name v \<and> unat v < 10 ^ 10)
   \<and> (parse_version n ''.meta.json'' = Some v \<longleftrightarrow> n = version_metadata_name v \<and> unat v < 10 ^ 10)"
  by (auto simp: parse_version_iff version_artifact_name_def version_metadata_name_def VERSION_WIDTH_def)

end
