(* ===== verification/Relay_Config.thy ===== *)
theory Relay_Config
  imports Prelude
begin

text \<open>
  The configuration of the relay: its types with their defaults (crates/pavis-relay/src/config/types.rs),
  the expansion of environment variables (config/env.rs) and the normalisation of the document's
  root (config/load.rs). Reading the file and the YAML library are not modelled: a document is a value of
  \<open>yaml\<close>, a mapping the list of its entries. The record that is decoded from a document is described here
  by its fields and defaults.
\<close>

section \<open>Types and defaults (config/types.rs)\<close>

record IdentityConfig =
  id_name :: string
  id_cluster :: string
  id_instance :: string

record HttpConfig =
  http_bind :: string
  http_admin_bind :: "string option"

record StorageConfig =
  storage_type :: string
  root_dir :: string

record ArtifactLimits =
  limit_pvs_bytes :: u64
  limit_routes :: "u64 option"

record ArtifactConfig =
  ac_name :: string
  pvs_filename :: string
  ac_lkg_path :: string
  artifacts_dir :: string
  ac_limits :: ArtifactLimits

record RetryBackoffConfig =
  rb_min :: u64
  rb_max :: u64

definition retry_backoff_default :: RetryBackoffConfig where
  "retry_backoff_default = \<lparr>rb_min = 250, rb_max = 5000\<rparr>"

record RetryConfig =
  rt_max :: u32
  rt_backoff :: RetryBackoffConfig

definition retry_config_default :: RetryConfig where
  "retry_config_default = \<lparr>rt_max = 5, rt_backoff = retry_backoff_default\<rparr>"

record PersistenceConfig =
  ps_enabled :: bool
  flush_interval :: u64
  ps_retry :: RetryConfig

definition persistence_default :: PersistenceConfig where
  "persistence_default = \<lparr>ps_enabled = True, flush_interval = 1000, ps_retry = retry_config_default\<rparr>"

record FileSourceConfig =
  fs_path :: string

datatype IngestSource = Source_File FileSourceConfig | Source_None

definition ingest_source_default :: IngestSource where
  "ingest_source_default = Source_File \<lparr>fs_path = []\<rparr>"

record IngestMode =
  im_kind :: string
  debounce :: u64

definition ingest_mode_default :: IngestMode where
  "ingest_mode_default = \<lparr>im_kind = [], debounce = 100\<rparr>"

record IngestConfig =
  ing_source :: IngestSource
  ing_mode :: IngestMode

datatype CodecKind = Serde

datatype PipelineCompaction = Compaction_Off | Compaction_Trim | Compaction_Prune

record CodecModeConfig =
  cm_compaction :: PipelineCompaction

record CodecConfig =
  codec_kind :: CodecKind
  codec_mode :: CodecModeConfig

definition codec_config_default :: CodecConfig where
  "codec_config_default = \<lparr>codec_kind = Serde, codec_mode = \<lparr>cm_compaction = Compaction_Off\<rparr>\<rparr>"

record VersioningConfig =
  vc_scheme :: string
  state_file :: string

record PublishConfig =
  atomic_write :: bool
  pc_fsync :: bool

record ExecutionConfig =
  ex_versioning :: VersioningConfig
  ex_publish :: PublishConfig

record RestartBackoffConfig =
  rs_min :: u64
  rs_max :: u64

definition restart_backoff_default :: RestartBackoffConfig where
  "restart_backoff_default = \<lparr>rs_min = 500, rs_max = 30000\<rparr>"

record PublishRetryConfig =
  pr_max :: u32
  pr_backoff :: RetryBackoffConfig

definition publish_retry_default :: PublishRetryConfig where
  "publish_retry_default = \<lparr>pr_max = 5, pr_backoff = retry_backoff_default\<rparr>"

record PipelineRuntimeConfig =
  rt_max_in_flight :: nat
  rt_restart_backoff :: RestartBackoffConfig
  rt_publish_retry :: PublishRetryConfig

definition pipeline_runtime_default :: PipelineRuntimeConfig where
  "pipeline_runtime_default =
     \<lparr>rt_max_in_flight = 8, rt_restart_backoff = restart_backoff_default, rt_publish_retry = publish_retry_default\<rparr>"

record PipelineConfig =
  source_id :: string
  pl_ingest :: IngestConfig
  pl_codec :: CodecConfig
  pl_execution :: ExecutionConfig
  pl_runtime :: PipelineRuntimeConfig

record LongPollTimeouts =
  hold_seconds :: u64
  idle_seconds :: u64

record LongPollConfig =
  lp_enabled :: bool
  lp_timeouts :: LongPollTimeouts

record DirectFetchConfig =
  df_enabled :: bool

record DistributionConfig =
  long_poll :: LongPollConfig
  direct_fetch :: DirectFetchConfig

record BearerConfig =
  token :: string

record AuthConfig =
  auth_mode :: string
  bearer :: BearerConfig

record SecurityConfig =
  auth :: AuthConfig

record LoggingConfig =
  log_level :: string
  access_log :: bool

record MetricsConfig =
  prometheus_bind :: string

record RelayConfig =
  identity :: IdentityConfig
  http :: HttpConfig
  storage :: StorageConfig
  cfg_artifact :: ArtifactConfig
  pipeline :: PipelineConfig
  distribution :: DistributionConfig
  security :: SecurityConfig
  logging :: LoggingConfig
  cfg_metrics :: MetricsConfig
  persistence :: PersistenceConfig

definition relay_config_default :: RelayConfig where
  "relay_config_default =
     \<lparr>identity = \<lparr>id_name = [], id_cluster = [], id_instance = []\<rparr>,
      http = \<lparr>http_bind = [], http_admin_bind = None\<rparr>,
      storage = \<lparr>storage_type = [], root_dir = []\<rparr>,
      cfg_artifact = \<lparr>ac_name = [], pvs_filename = [], ac_lkg_path = [], artifacts_dir = [],
        ac_limits = \<lparr>limit_pvs_bytes = 0, limit_routes = None\<rparr>\<rparr>,
      pipeline = \<lparr>source_id = [], pl_ingest = \<lparr>ing_source = ingest_source_default, ing_mode = ingest_mode_default\<rparr>,
        pl_codec = codec_config_default,
        pl_execution = \<lparr>ex_versioning = \<lparr>vc_scheme = [], state_file = []\<rparr>,
          ex_publish = \<lparr>atomic_write = False, pc_fsync = False\<rparr>\<rparr>,
        pl_runtime = pipeline_runtime_default\<rparr>,
      distribution = \<lparr>long_poll = \<lparr>lp_enabled = False, lp_timeouts = \<lparr>hold_seconds = 0, idle_seconds = 0\<rparr>\<rparr>,
        direct_fetch = \<lparr>df_enabled = False\<rparr>\<rparr>,
      security = \<lparr>auth = \<lparr>auth_mode = [], bearer = \<lparr>token = []\<rparr>\<rparr>\<rparr>,
      logging = \<lparr>log_level = [], access_log = False\<rparr>,
      cfg_metrics = \<lparr>prometheus_bind = []\<rparr>,
      persistence = persistence_default\<rparr>"

record BackoffConfig =
  base_delay :: duration
  max_delay :: duration

record RetryPolicy =
  pub_max_attempts :: u32
  pub_base_delay :: duration
  pub_max_delay :: duration

record PipelineOptions =
  max_in_flight :: nat
  compaction :: PipelineCompaction
  restart_backoff :: BackoffConfig
  publish_retry :: RetryPolicy

definition pipeline_options_from_config :: "PipelineConfig \<Rightarrow> PipelineOptions" where
  "pipeline_options_from_config config =
     (let runtime = pl_runtime config in
      \<lparr>max_in_flight = rt_max_in_flight runtime, compaction = cm_compaction (codec_mode (pl_codec config)),
       restart_backoff = \<lparr>base_delay = from_millis (unat (rs_min (rt_restart_backoff runtime))),
         max_delay = from_millis (unat (rs_max (rt_restart_backoff runtime)))\<rparr>,
       publish_retry = \<lparr>pub_max_attempts = pr_max (rt_publish_retry runtime),
         pub_base_delay = from_millis (unat (rb_min (pr_backoff (rt_publish_retry runtime)))),
         pub_max_delay = from_millis (unat (rb_max (pr_backoff (rt_publish_retry runtime))))\<rparr>\<rparr>)"

section \<open>Environment variables (config/env.rs)\<close>

datatype env_error = Unterminated | MissingVariable string

text \<open>\<open>lookup\<close> is \<open>std::env::var\<close>: \<open>None\<close> for a variable that is not set or not valid Unicode.\<close>

function expand_env_str :: "(string \<rightharpoonup> string) \<Rightarrow> string \<Rightarrow> env_error + string" where
  "expand_env_str lookup rest =
     (case split_once rest ''${'' of
        None \<Rightarrow> Inr rest
      | Some (before, remaining) \<Rightarrow>
          (case split_once remaining ''}'' of
             None \<Rightarrow> Inl Unterminated
           | Some (key, rest') \<Rightarrow>
               (case lookup key of
                  None \<Rightarrow> Inl (MissingVariable key)
                | Some val \<Rightarrow> and_then (expand_env_str lookup rest') (\<lambda>out. Inr (before @ val @ out)))))"
  by pat_completeness auto
termination
  by (relation "measure (\<lambda>(lookup, rest). length rest)") (auto dest!: split_once_Some_eq)

declare expand_env_str.simps [simp del]

text \<open>A YAML value; a mapping is the list of its entries, numbers and tags are opaque.\<close>

datatype yaml =
    Null
  | Bool bool
  | Number string
  | String string
  | Sequence "yaml list"
  | Mapping "(yaml \<times> yaml) list"
  | Tagged string

fun expand_env :: "(string \<rightharpoonup> string) \<Rightarrow> yaml \<Rightarrow> env_error + yaml"
  and expand_seq :: "(string \<rightharpoonup> string) \<Rightarrow> yaml list \<Rightarrow> env_error + yaml list"
  and expand_map :: "(string \<rightharpoonup> string) \<Rightarrow> (yaml \<times> yaml) list \<Rightarrow> env_error + (yaml \<times> yaml) list" where
  "expand_env lookup (String s) = and_then (expand_env_str lookup s) (\<lambda>s'. Inr (String s'))"
| "expand_env lookup (Sequence vs) = and_then (expand_seq lookup vs) (\<lambda>vs'. Inr (Sequence vs'))"
| "expand_env lookup (Mapping kvs) = and_then (expand_map lookup kvs) (\<lambda>kvs'. Inr (Mapping kvs'))"
| "expand_env lookup v = Inr v"
| "expand_seq lookup [] = Inr []"
| "expand_seq lookup (v # vs) =
     and_then (expand_env lookup v) (\<lambda>v'. and_then (expand_seq lookup vs) (\<lambda>vs'. Inr (v' # vs')))"
| "expand_map lookup [] = Inr []"
| "expand_map lookup ((k, v) # kvs) =
     and_then (expand_env lookup v) (\<lambda>v'. and_then (expand_map lookup kvs) (\<lambda>kvs'. Inr ((k, v') # kvs')))"

section \<open>The root of the document (config/load.rs)\<close>

definition remove_key :: "yaml \<Rightarrow> (yaml \<times> yaml) list \<Rightarrow> (yaml \<times> yaml) list" where
  "remove_key k kvs = filter (\<lambda>(k', _). k' \<noteq> k) kvs"

definition set_key :: "yaml \<Rightarrow> yaml \<Rightarrow> (yaml \<times> yaml) list \<Rightarrow> (yaml \<times> yaml) list" where
  "set_key k v kvs = map (\<lambda>(k', v'). (k', if k' = k then v else v')) kvs"

definition lift_security :: "(yaml \<times> yaml) list \<Rightarrow> (yaml \<times> yaml) list" where
  "lift_security kvs =
     (if map_of kvs (String ''security'') \<noteq> None then kvs
      else case map_of kvs (String ''distribution'') of
        Some (Mapping dist) \<Rightarrow>
          (case map_of dist (String ''security'') of
             None \<Rightarrow> kvs
           | Some sec \<Rightarrow>
               set_key (String ''distribution'') (Mapping (remove_key (String ''security'') dist)) kvs
                 @ [(String ''security'', sec)])
      | _ \<Rightarrow> kvs)"

definition normalize_root :: "yaml \<Rightarrow> yaml" where
  "normalize_root v =
     (case v of
        Mapping kvs \<Rightarrow>
          (case (case map_of kvs (String ''relay'') of Some r \<Rightarrow> r | None \<Rightarrow> Mapping kvs) of
             Mapping kvs' \<Rightarrow> Mapping (lift_security kvs')
           | w \<Rightarrow> w)
      | _ \<Rightarrow> v)"

section \<open>Properties\<close>

text \<open>
  The specification of the expansion: a template is a list of texts and variables; a text has no
  \<open>${\<close> in it, a variable's name has no closing brace.
\<close>

datatype segment = Text string | Var string

fun show_segment :: "segment \<Rightarrow> string" where
  "show_segment (Text t) = t"
| "show_segment (Var x) = ''${'' @ x @ ''}''"

fun template_ok :: "segment list \<Rightarrow> bool" where
  "template_ok [] \<longleftrightarrow> True"
| "template_ok [Text t] \<longleftrightarrow> split_once t ''${'' = None"
| "template_ok (Text t # Var x # ss) \<longleftrightarrow> split_once t ''${'' = None \<and> CHR ''}'' \<notin> set x \<and> template_ok ss"
| "template_ok (Var x # ss) \<longleftrightarrow> CHR ''}'' \<notin> set x \<and> template_ok ss"
| "template_ok (Text t # Text u # ss) \<longleftrightarrow> False"

fun segment_value :: "(string \<rightharpoonup> string) \<Rightarrow> segment \<Rightarrow> env_error + string" where
  "segment_value lookup (Text t) = Inr t"
| "segment_value lookup (Var x) = ok_or (lookup x) (MissingVariable x)"

fun template_value :: "(string \<rightharpoonup> string) \<Rightarrow> segment list \<Rightarrow> env_error + string" where
  "template_value lookup [] = Inr []"
| "template_value lookup (s # ss) =
     and_then (segment_value lookup s) (\<lambda>v. and_then (template_value lookup ss) (\<lambda>vs. Inr (v @ vs)))"

lemma split_once_template:
  "split_once t ''${'' = None \<Longrightarrow> split_once (t @ ''${'' @ r) ''${'' = Some (t, r)"
proof (induction t)
  case (Cons c t)
  then show ?case by (cases t) (auto split: option.splits if_splits)
qed simp

lemma expand_text: "split_once t ''${'' = None \<Longrightarrow> expand_env_str lookup t = Inr t"
  by (simp add: expand_env_str.simps)

lemma split_once_brace: "CHR ''}'' \<notin> set x \<Longrightarrow> split_once (x @ CHR ''}'' # r) ''}'' = Some (x, r)"
  by (simp add: split_once_char)

lemma expand_var:
  assumes "split_once t ''${'' = None" "CHR ''}'' \<notin> set x"
  shows "expand_env_str lookup (t @ ''${'' @ x @ ''}'' @ r) =
    and_then (ok_or (lookup x) (MissingVariable x)) (\<lambda>v. and_then (expand_env_str lookup r) (\<lambda>out. Inr (t @ v @ out)))"
  using split_once_template [OF assms(1), of "x @ ''}'' @ r"] split_once_brace [OF assms(2)]
  by (subst expand_env_str.simps) (auto split: option.splits)

lemma and_then_assoc: "and_then (and_then r f) g = and_then r (\<lambda>x. and_then (f x) g)"
  by (cases r) auto

text \<open>
  Environment variables in the relay's configuration are expanded as the template says: texts are
  kept, every \<open>${NAME}\<close> is replaced by the variable's value, which is not scanned again, and the first variable that is not
  set, from the left, is the error.
\<close>

theorem expand_env_str_template:
  assumes "template_ok ss"
  shows "expand_env_str lookup (concat (map show_segment ss)) = template_value lookup ss"
  using assms
proof (induction ss rule: template_ok.induct)
  case (3 t x ss)
  then show ?case
    using expand_var [of t x lookup "concat (map show_segment ss)"] by (cases "lookup x") (simp_all add: and_then_assoc)
next
  case (4 x ss)
  then show ?case
    using expand_var [of "[]" x lookup "concat (map show_segment ss)"] by (cases "lookup x") simp_all
qed (simp_all add: expand_text)

theorem expand_env_str_template_witness:
  "expand_env_str [''HOME'' \<mapsto> ''/${X}''] ''a$${HOME}/b'' = Inr ''a$/${X}/b''"
  using expand_env_str_template [of "[Text ''a$'', Var ''HOME'', Text ''/b'']" "[''HOME'' \<mapsto> ''/${X}'']"]
  by simp

end
