(* ===== verification/Relay_Runtime.thy ===== *)
theory Relay_Runtime
  imports Relay_Storage Relay_Config
begin

text \<open>
  The relay's state and its publication (crates/pavis-relay/src/runtime.rs) and its start-up
  (\<open>init_state\<close> of app.rs). The state of the process is \<open>RelayRuntimeState\<close>; the relay is that state
  with the file system of \<open>Relay_Storage\<close>. \<open>publish_lock\<close> serialises \<open>publish_bytes\<close>, so a
  publication is a function on the relay. \<open>notify\<close> counts the calls of \<open>notify_waiters\<close>. The version
  is a 64-bit word that wraps as in a release build. The text of an error that only goes into
  a message is kept as the error itself.
\<close>

section \<open>State\<close>

datatype RelayError =
    SingleSource string
  | VersionMonotonicity u64 u64
  | Cache string
  | Storage storage_error
  | Policy u64 u64
  | Http string
  | Config PvsError

definition execute_plan :: "u64 \<Rightarrow> u64 \<Rightarrow> RelayError + unit" where
  "execute_plan current proposed =
     (if proposed \<le> current then Inl (VersionMonotonicity current proposed) else Inr ())"

record RelayMeta =
  meta_checksum :: string
  meta_algorithm :: string
  schema_version :: u32

definition relay_meta_empty :: RelayMeta where
  "relay_meta_empty = \<lparr>meta_checksum = [], meta_algorithm = [], schema_version = 0\<rparr>"

definition from_header :: "PvsHeader \<Rightarrow> RelayMeta" where
  "from_header h = \<lparr>meta_checksum = checksum_hex h, meta_algorithm = algorithm_label h,
     schema_version = hdr_version h\<rparr>"

record RelayArtifact =
  art_bytes :: bytes
  art_meta :: RelayMeta
  generated_at :: nat

record RelaySnapshot =
  snap_version :: u64
  snap_artifact :: RelayArtifact
  updated_at :: nat
  artifact_checksum :: string

record RelayOptions =
  version_header :: string
  checksum_header :: string
  checksum_alg_header :: string
  generated_at_header :: string
  long_poll_enabled :: bool
  identity_name :: string
  lkg_path :: "path option"
  storage_root :: path
  max_pvs_bytes :: u64

record RelayMetrics =
  publish_ok :: u64
  publish_fail :: u64
  long_poll_wait :: u64

definition inc_publish_ok :: "RelayMetrics \<Rightarrow> RelayMetrics" where
  "inc_publish_ok m = m\<lparr>publish_ok := publish_ok m + 1\<rparr>"

definition inc_publish_fail :: "RelayMetrics \<Rightarrow> RelayMetrics" where
  "inc_publish_fail m = m\<lparr>publish_fail := publish_fail m + 1\<rparr>"

definition inc_long_poll_wait :: "RelayMetrics \<Rightarrow> RelayMetrics" where
  "inc_long_poll_wait m = m\<lparr>long_poll_wait := long_poll_wait m + 1\<rparr>"

record RelayRuntimeState =
  inner :: RelaySnapshot
  history :: "u64 \<rightharpoonup> RelayArtifact"
  notify :: nat
  options :: RelayOptions
  metrics :: RelayMetrics
  last_error :: "RelayError option"
  started_at :: nat
  ready :: bool

definition new_with_options ::
  "(bytes \<Rightarrow> bytes) \<Rightarrow> nat \<Rightarrow> u64 \<Rightarrow> bytes \<Rightarrow> RelayOptions \<Rightarrow> RelayError + RelayRuntimeState" where
  "new_with_options sha256 now version bs opts =
     and_then (if bs = [] then Inr (relay_meta_empty, [])
               else and_then (map_err Config (inspect sha256 bs)) (\<lambda>h.
                 Inr (from_header h, checksum_for_bytes sha256 bs))) (\<lambda>(meta, checksum).
       let artifact = \<lparr>art_bytes = bs, art_meta = meta, generated_at = now\<rparr> in
       Inr \<lparr>inner = \<lparr>snap_version = version, snap_artifact = artifact, updated_at = now,
              artifact_checksum = checksum\<rparr>,
            history = [version \<mapsto> artifact], notify = 0, options = opts,
            metrics = \<lparr>publish_ok = 0, publish_fail = 0, long_poll_wait = 0\<rparr>,
            last_error = None, started_at = now, ready = (bs \<noteq> [])\<rparr>)"

section \<open>Publishing\<close>

definition enforce_limits :: "RelayRuntimeState \<Rightarrow> nat \<Rightarrow> RelayError + unit" where
  "enforce_limits st sz =
     (let limit = max_pvs_bytes (options st) in
      if limit > 0 \<and> of_nat sz > limit then Inl (Policy (of_nat sz) limit) else Inr ())"

text \<open>The update of the snapshot and the history, the wake-up and the ready flag.\<close>

definition install ::
  "nat \<Rightarrow> u64 \<Rightarrow> bytes \<Rightarrow> RelayMeta \<Rightarrow> string \<Rightarrow> RelayRuntimeState \<Rightarrow> RelayRuntimeState" where
  "install now version bs meta checksum st =
     (let etag_changed = artifact_checksum (inner st) \<noteq> checksum;
          artifact = \<lparr>art_bytes = bs, art_meta = meta, generated_at = now\<rparr> in
      st\<lparr>inner := \<lparr>snap_version = version, snap_artifact = artifact, updated_at = now,
           artifact_checksum = checksum\<rparr>,
         history := (history st)(version \<mapsto> artifact),
         notify := (if etag_changed then notify st + 1 else notify st),
         ready := True\<rparr>)"

definition publish ::
  "nat \<Rightarrow> u64 \<Rightarrow> bytes \<Rightarrow> RelayMeta \<Rightarrow> string \<Rightarrow> (RelayRuntimeState, RelayError, unit) st" where
  "publish now proposed bs meta checksum st =
     (case and_then (enforce_limits st (length bs)) (\<lambda>_. execute_plan (snap_version (inner st)) proposed) of
        Inl e \<Rightarrow> (Inl e, st)
      | Inr _ \<Rightarrow> (Inr (), install now proposed bs meta checksum st))"

definition publish_auto ::
  "(bytes \<Rightarrow> bytes) \<Rightarrow> nat \<Rightarrow> bytes \<Rightarrow> (RelayRuntimeState, RelayError, u64) st" where
  "publish_auto sha256 now bs st =
     (case and_then (enforce_limits st (length bs)) (\<lambda>_. map_err Config (inspect sha256 bs)) of
        Inl e \<Rightarrow> (Inl e, st)
      | Inr h \<Rightarrow>
          let proposed = snap_version (inner st) + 1;
              st' = install now proposed bs (from_header h) (checksum_for_bytes sha256 bs) st
          in (Inr proposed, st'\<lparr>metrics := inc_publish_ok (metrics st')\<rparr>))"

record relay =
  rl_fs :: fs
  rl_state :: RelayRuntimeState

definition on_fs :: "'a io \<Rightarrow> (relay, RelayError, 'a) st" where
  "on_fs m r = (case m (rl_fs r) of (x, s) \<Rightarrow> (map_err Storage x, r\<lparr>rl_fs := s\<rparr>))"

definition on_state :: "(RelayRuntimeState, RelayError, 'a) st \<Rightarrow> (relay, RelayError, 'a) st" where
  "on_state m r = (case m (rl_state r) of (x, st) \<Rightarrow> (x, r\<lparr>rl_state := st\<rparr>))"

text \<open>\<open>canonicalize\<close> and the check that the path is below the root, then \<open>remove_file\<close>; errors are ignored.\<close>

definition discard_below :: "io_env \<Rightarrow> path \<Rightarrow> path \<Rightarrow> unit io" where
  "discard_below env root p =
     st_bind (st_try (canonicalize env p)) (\<lambda>r.
       case r of
         Inl _ \<Rightarrow> st_ok ()
       | Inr q \<Rightarrow> if prefix root q then st_bind (st_try (remove_file env q)) (\<lambda>_. st_ok ()) else st_ok ())"

definition clock_now :: "io_env \<Rightarrow> (relay, RelayError, nat) st" where
  "clock_now env r = (Inr (now_at env (clock (rl_fs r))), r)"

text \<open>\<open>publish_bytes\<close> from the write of the history on, for a verified artifact.\<close>

definition publish_verified ::
  "io_env \<Rightarrow> json \<Rightarrow> bytes \<Rightarrow> RelayMeta \<Rightarrow> path \<Rightarrow> ArtifactMetadata \<Rightarrow> (relay, RelayError, ArtifactMetadata) st" where
  "publish_verified env j bs meta root metadata =
     (let proposed = am_version metadata in
     st_bind (on_fs (append_to_history env j root proposed bs metadata)) (\<lambda>_.
     st_bind (st_try (on_fs (promote_to_lkg env j root bs metadata))) (\<lambda>promoted.
       case promoted of
         Inl err \<Rightarrow>
           st_bind (on_fs (discard_below env root (history_artifact_path root proposed))) (\<lambda>_.
           st_bind (on_fs (discard_below env root (history_metadata_path root proposed))) (\<lambda>_.
             st_err err))
       | Inr _ \<Rightarrow>
           st_bind (st_try (on_fs (save_state env j root \<lparr>current_version = proposed\<rparr>))) (\<lambda>_.
           st_bind (clock_now env) (\<lambda>now.
           st_bind (on_state (publish now proposed bs meta (am_checksum metadata))) (\<lambda>_.
           st_bind (on_state (\<lambda>st. (Inr (), st\<lparr>metrics := inc_publish_ok (metrics st)\<rparr>))) (\<lambda>_.
             st_ok metadata)))))))"

definition publish_bytes ::
  "io_env \<Rightarrow> json \<Rightarrow> (bytes \<Rightarrow> bytes) \<Rightarrow> ('c, 'v) rkyv \<Rightarrow> bytes \<Rightarrow> (relay, RelayError, ArtifactMetadata) st" where
  "publish_bytes env j sha256 rk bs r =
     st_bind (st_result (enforce_limits (rl_state r) (length bs))) (\<lambda>_.
     st_bind (st_result (map_err Config (verify_owned sha256 rk bs))) (\<lambda>verified.
     st_bind (clock_now env) (\<lambda>published.
       publish_verified env j bs (from_header (pvs_header verified)) (storage_root (options (rl_state r)))
         \<lparr>am_version = snap_version (inner (rl_state r)) + 1, published_at = published,
          am_checksum = checksum_for_bytes sha256 bs, am_size = of_nat (length bs)\<rparr>))) r"

definition publish_config ::
  "io_env \<Rightarrow> json \<Rightarrow> (bytes \<Rightarrow> bytes) \<Rightarrow> ('c, 'v) rkyv \<Rightarrow> 'c \<Rightarrow> (relay, RelayError, u64) st" where
  "publish_config env j sha256 rk config =
     st_bind (st_result (map_err Config (encode sha256 rk config))) (\<lambda>bs.
     st_bind (publish_bytes env j sha256 rk bs) (\<lambda>metadata. st_ok (am_version metadata)))"

definition artifact :: "RelayRuntimeState \<Rightarrow> u64 \<Rightarrow> RelayArtifact option" where
  "artifact st version = history st version"

section \<open>Start-up (app.rs)\<close>

datatype ValidationError =
    EmptyPath
  | CanonicalizationFailed io_kind
  | DirectoryCreationFailed io_kind
  | NotAbsolute path

datatype init_error =
    InvalidListenAddress
  | InvalidOptions string
  | InvalidRoot ValidationError
  | StorageInit storage_error
  | LkgTooLarge u64
  | StateInit RelayError

definition resolve_data_dir :: "RelayConfig \<Rightarrow> string option \<Rightarrow> string" where
  "resolve_data_dir config data_dir =
     (case data_dir of
        Some d \<Rightarrow> if d \<noteq> [] then d
          else if root_dir (storage config) \<noteq> [] then root_dir (storage config) else ''/var/lib/pavis-relay''
      | None \<Rightarrow> if root_dir (storage config) \<noteq> [] then root_dir (storage config) else ''/var/lib/pavis-relay'')"

text \<open>
  The checks of \<open>build_options\<close> and the options it fills in. The temporary storage root it makes is
  replaced by \<open>init_state\<close>, so \<open>storage_root\<close> is an argument here.
\<close>

definition build_options :: "RelayConfig \<Rightarrow> path \<Rightarrow> init_error + RelayOptions" where
  "build_options config root =
     (if flush_interval (persistence config) = 0
      then Inl (InvalidOptions ''persistence.flush_interval must be greater than zero'')
      else if rb_min (rt_backoff (ps_retry (persistence config))) = 0
      then Inl (InvalidOptions ''persistence.retry.backoff.min must be greater than zero'')
      else if rb_max (rt_backoff (ps_retry (persistence config))) < rb_min (rt_backoff (ps_retry (persistence config)))
      then Inl (InvalidOptions ''persistence.retry.backoff.max must be >= persistence.retry.backoff.min'')
      else Inr \<lparr>version_header = ''x-config-version'', checksum_header = ''x-pavis-checksum'',
        checksum_alg_header = ''x-pavis-checksum-alg'', generated_at_header = ''x-pavis-generated-at'',
        long_poll_enabled = lp_enabled (long_poll (distribution config)), identity_name = id_name (identity config),
        lkg_path = None, storage_root = root, max_pvs_bytes = limit_pvs_bytes (ac_limits (cfg_artifact config))\<rparr>)"

text \<open>
  A path as the operating system reads it: the components between slashes, without empty ones and
  without \<open>.\<close>; a relative path is resolved against the current directory.
\<close>

fun split_slash :: "string \<Rightarrow> string list" where
  "split_slash [] = [[]]"
| "split_slash (c # cs) =
     (if c = CHR ''/'' then [] # split_slash cs
      else case split_slash cs of [] \<Rightarrow> [[c]] | x # xs \<Rightarrow> (c # x) # xs)"

definition absolute_path :: "path \<Rightarrow> string \<Rightarrow> path" where
  "absolute_path cwd s =
     (let comps = filter (\<lambda>x. x \<noteq> [] \<and> x \<noteq> ''.'') (split_slash s) in
      if starts_with s ''/'' then comps else cwd @ comps)"

text \<open>\<open>ValidatedStorageRoot::new\<close>; the canonical path is absolute by its type, so \<open>NotAbsolute\<close> does not arise.\<close>

definition validated_storage_root :: "io_env \<Rightarrow> io_kind + path \<Rightarrow> string \<Rightarrow> (fs, ValidationError, path) st" where
  "validated_storage_root env cwd p =
     (if p = [] then st_err EmptyPath
      else st_bind (st_result (if starts_with p ''/'' then Inr [] else map_err CanonicalizationFailed cwd)) (\<lambda>dir.
        let abs = absolute_path dir p in
        st_bind (st_map_err DirectoryCreationFailed (create_dir_all env abs)) (\<lambda>_.
          st_map_err CanonicalizationFailed (canonicalize env abs))))"

definition ensure_storage_dirs :: "io_env \<Rightarrow> path \<Rightarrow> (fs, storage_error, unit) st" where
  "ensure_storage_dirs env base_dir =
     st_bind (io (create_dir_all env (base_dir @ [''lkg'']))) (\<lambda>_.
       io (create_dir_all env (base_dir @ [''history''])))"

definition check_lkg_size :: "RelayOptions \<Rightarrow> (bytes \<times> ArtifactMetadata) option \<Rightarrow> init_error + unit" where
  "check_lkg_size opts lkg =
     (case lkg of
        None \<Rightarrow> Inr ()
      | Some (bs, meta) \<Rightarrow>
          fail_if (max_pvs_bytes opts > 0 \<and> of_nat (length bs) > max_pvs_bytes opts) (LkgTooLarge (max_pvs_bytes opts)))"

fun derived_state :: "(bytes \<times> ArtifactMetadata) option \<Rightarrow> RelayState" where
  "derived_state None = \<lparr>current_version = 0\<rparr>"
| "derived_state (Some (bs, meta)) = derive_state_from_lkg meta"

fun lkg_bytes :: "(bytes \<times> ArtifactMetadata) option \<Rightarrow> bytes" where
  "lkg_bytes None = []"
| "lkg_bytes (Some (bs, meta)) = bs"

text \<open>
  \<open>init_state\<close>; \<open>addr\<close> is the result of parsing the listen address, \<open>cwd\<close> the current directory. The
  warnings about orphaned and corrupt history entries have no effect but the scans may fail.
\<close>

definition init_state ::
  "io_env \<Rightarrow> json \<Rightarrow> (bytes \<Rightarrow> bytes) \<Rightarrow> io_kind + path \<Rightarrow> 'addr option \<Rightarrow> RelayConfig \<Rightarrow> string option
   \<Rightarrow> (fs, init_error, 'addr \<times> RelayRuntimeState) st" where
  "init_state env j sha256 cwd addr config data_dir =
     st_bind (st_result (ok_or addr InvalidListenAddress)) (\<lambda>listen_addr.
     let base_dir = resolve_data_dir config data_dir in
     st_bind (st_map_err StorageInit
       (ensure_storage_dirs env (absolute_path (case cwd of Inl _ \<Rightarrow> [] | Inr d \<Rightarrow> d) base_dir))) (\<lambda>_.
     st_bind (st_map_err InvalidRoot (validated_storage_root env cwd base_dir)) (\<lambda>root.
     st_bind (st_map_err StorageInit (repair_lkg env j root)) (\<lambda>_.
     st_bind (st_result (build_options config root)) (\<lambda>opts.
     let opts = opts\<lparr>lkg_path := Some (lkg_artifact_path root)\<rparr> in
     st_bind (st_map_err StorageInit (load_lkg env j root)) (\<lambda>lkg.
     st_bind (st_result (check_lkg_size opts lkg)) (\<lambda>_.
     let derived = derived_state lkg in
     st_bind (st_map_err StorageInit (load_state env j root)) (\<lambda>cached.
     st_bind (if cached \<noteq> Some derived then st_map_err StorageInit (save_state env j root derived) else st_ok ()) (\<lambda>_.
     st_bind (st_map_err StorageInit (find_orphaned_versions env root (current_version derived))) (\<lambda>_.
     st_bind (st_map_err StorageInit (find_corrupt_versions env root)) (\<lambda>_.
     st_bind (st_map_err StateInit (\<lambda>s.
       (new_with_options sha256 (now_at env (clock s)) (current_version derived) (lkg_bytes lkg) opts, s))) (\<lambda>st.
       st_ok (listen_addr, st)))))))))))))"

section \<open>What a publication does\<close>

definition publication_metadata :: "io_env \<Rightarrow> (bytes \<Rightarrow> bytes) \<Rightarrow> bytes \<Rightarrow> relay \<Rightarrow> ArtifactMetadata" where
  "publication_metadata env sha256 bs r =
     \<lparr>am_version = snap_version (inner (rl_state r)) + 1, published_at = now_at env (clock (rl_fs r)),
      am_checksum = checksum_for_bytes sha256 bs, am_size = of_nat (length bs)\<rparr>"

definition relay_root :: "relay \<Rightarrow> path" where
  "relay_root r = storage_root (options (rl_state r))"

text \<open>The ways the storing of a verified artifact ends, with the file systems in between.\<close>

inductive storing ::
  "io_env \<Rightarrow> json \<Rightarrow> bytes \<Rightarrow> RelayMeta \<Rightarrow> path \<Rightarrow> ArtifactMetadata \<Rightarrow> relay
   \<Rightarrow> RelayError + ArtifactMetadata \<Rightarrow> relay \<Rightarrow> bool"
  for env j bs meta root md r where
  history_failed:
    "append_to_history env j root (am_version md) bs md (rl_fs r) = (Inl e, s1) \<Longrightarrow>
     storing env j bs meta root md r (Inl (Storage e)) (r\<lparr>rl_fs := s1\<rparr>)"
| promote_failed:
    "append_to_history env j root (am_version md) bs md (rl_fs r) = (Inr (), s1) \<Longrightarrow>
     promote_to_lkg env j root bs md s1 = (Inl e, s2) \<Longrightarrow>
     discard_below env root (history_artifact_path root (am_version md)) s2 = (x3, s3) \<Longrightarrow>
     discard_below env root (history_metadata_path root (am_version md)) s3 = (x4, s4) \<Longrightarrow>
     storing env j bs meta root md r (Inl (Storage e)) (r\<lparr>rl_fs := s4\<rparr>)"
| refused:
    "append_to_history env j root (am_version md) bs md (rl_fs r) = (Inr (), s1) \<Longrightarrow>
     promote_to_lkg env j root bs md s1 = (Inr (), s2) \<Longrightarrow>
     save_state env j root \<lparr>current_version = am_version md\<rparr> s2 = (x3, s3) \<Longrightarrow>
     publish (now_at env (clock s3)) (am_version md) bs meta (am_checksum md) (rl_state r) = (Inl e, st) \<Longrightarrow>
     storing env j bs meta root md r (Inl e) (r\<lparr>rl_fs := s3, rl_state := st\<rparr>)"
| stored:
    "append_to_history env j root (am_version md) bs md (rl_fs r) = (Inr (), s1) \<Longrightarrow>
     promote_to_lkg env j root bs md s1 = (Inr (), s2) \<Longrightarrow>
     save_state env j root \<lparr>current_version = am_version md\<rparr> s2 = (x3, s3) \<Longrightarrow>
     publish (now_at env (clock s3)) (am_version md) bs meta (am_checksum md) (rl_state r) = (Inr u, st) \<Longrightarrow>
     storing env j bs meta root md r (Inr md)
       (r\<lparr>rl_fs := s3, rl_state := st\<lparr>metrics := inc_publish_ok (metrics st)\<rparr>\<rparr>)"

lemma discard_below_Inr: "\<exists>s'. discard_below env root p s = (Inr (), s')"
  by (auto simp: discard_below_def st_defs split: prod.splits sum.splits)

lemma publish_verified_storing:
  "publish_verified env j bs meta root md r = (x, r') \<Longrightarrow> storing env j bs meta root md r x r'"
proof -
  assume p: "publish_verified env j bs meta root md r = (x, r')"
  note run = publish_verified_def Let_def st_bind_def st_try_def st_err_def st_ok_def clock_now_def
  let ?h = "append_to_history env j root (am_version md) bs md"
  obtain x1 s1 where 1: "?h (rl_fs r) = (x1, s1)" by fastforce
  show ?thesis
  proof (cases x1)
    case (Inl e)
    with p 1 show ?thesis by (auto simp: run on_fs_def intro: storing.history_failed)
  next
    case app: (Inr u1)
    obtain x2 s2 where 2: "promote_to_lkg env j root bs md s1 = (x2, s2)" by fastforce
    show ?thesis
    proof (cases x2)
      case (Inl e)
      obtain s3 where 3: "discard_below env root (history_artifact_path root (am_version md)) s2 = (Inr (), s3)"
        using discard_below_Inr by blast
      obtain s4 where 4: "discard_below env root (history_metadata_path root (am_version md)) s3 = (Inr (), s4)"
        using discard_below_Inr by blast
      from p 1 2 3 4 app Inl show ?thesis
        by (auto simp: run on_fs_def intro: storing.promote_failed)
    next
      case (Inr u2)
      obtain x3 s3 where 3: "save_state env j root \<lparr>current_version = am_version md\<rparr> s2 = (x3, s3)" by fastforce
      obtain x4 st where 4: "publish (now_at env (clock s3)) (am_version md) bs meta (am_checksum md) (rl_state r) = (x4, st)"
        by fastforce
      with p 1 2 3 app Inr show ?thesis
        by (cases x4) (auto simp: run on_fs_def on_state_def intro: storing.refused storing.stored)
    qed
  qed
qed

lemma publish_bytes_cases:
  assumes "publish_bytes env j sha256 rk bs r = (x, r')"
  obtains (rejected) e where "x = Inl e" "r' = r"
  | (storing) verified where "enforce_limits (rl_state r) (length bs) = Inr ()" "verify_owned sha256 rk bs = Inr verified"
      "storing env j bs (from_header (pvs_header verified)) (relay_root r) (publication_metadata env sha256 bs r) r x r'"
proof (cases "enforce_limits (rl_state r) (length bs)")
  case Inl
  with assms that(1) show ?thesis by (auto simp: publish_bytes_def st_bind_def st_result_def)
next
  case lim: (Inr u)
  show ?thesis
  proof (cases "verify_owned sha256 rk bs")
    case Inl
    with lim assms that(1) show ?thesis by (auto simp: publish_bytes_def st_bind_def st_result_def)
  next
    case (Inr verified)
    with lim assms have "publish_verified env j bs (from_header (pvs_header verified)) (relay_root r)
        (publication_metadata env sha256 bs r) r = (x, r')"
      by (simp add: publish_bytes_def st_bind_def st_result_def clock_now_def publication_metadata_def relay_root_def)
    from publish_verified_storing [OF this] Inr lim that(2) show ?thesis by simp
  qed
qed

lemma discard_below_frame:
  "discard_below env root p s = (x, s') \<Longrightarrow> p \<noteq> q \<Longrightarrow> contents s' q = contents s q"
  by (auto simp: discard_below_def st_defs canonicalize_def remove_file_def syscall_def Let_def delete_conv'
      split: option.splits if_splits)

text \<open>The files a publication of version \<open>v\<close> may change.\<close>

definition publication_files :: "path \<Rightarrow> u64 \<Rightarrow> path set" where
  "publication_files root v =
     pair_files (root @ [''history'']) (version_artifact_name v) (version_metadata_name v)
     \<union> pair_files (root @ [LKG_DIR]) LKG_ARTIFACT_FILE LKG_METADATA_FILE
     \<union> {root @ [''state.json''], root @ [''state.tmp'']}"

lemma storing_frame:
  assumes "storing env j bs meta root md r x r'" "p \<notin> publication_files root (am_version md)"
  shows "contents (rl_fs r') p = contents (rl_fs r) p"
proof -
  have hist: "history_artifact_path root (am_version md) \<noteq> p" "history_metadata_path root (am_version md) \<noteq> p"
    and pairs: "p \<notin> pair_files (root @ [''history'']) (version_artifact_name (am_version md)) (version_metadata_name (am_version md))"
      "p \<notin> pair_files (root @ [LKG_DIR]) LKG_ARTIFACT_FILE LKG_METADATA_FILE"
    and st: "p \<noteq> root @ [''state.json'']" "p \<noteq> root @ [''state.tmp'']"
    using assms(2) by (auto simp: publication_files_def pair_files_def history_artifact_path_def history_metadata_path_def)
  note frames = append_to_history_frame [OF _ pairs(1)] promote_to_lkg_frame [OF _ pairs(2)]
    discard_below_frame [OF _ hist(1)] discard_below_frame [OF _ hist(2)] save_state_frame [OF _ st]
  show ?thesis using assms(1) by cases (simp_all add: frames)
qed

section \<open>Properties\<close>

text \<open>
  A publication touches no file but the ones it is about. Whatever system calls fail, and whether it
  succeeds or not, it changes only the history entry of the next version, the LKG pair, \<open>state.json\<close>
  and their temporary files, all below the storage root; a rejected artifact changes nothing.
\<close>

theorem publish_confined:
  "\<not> (\<exists>p. p \<notin> publication_files (relay_root r) (snap_version (inner (rl_state r)) + 1)
       \<and> contents (rl_fs (snd (publish_bytes env j sha256 rk bs r))) p \<noteq> contents (rl_fs r) p)
   \<and> publication_files (relay_root r) v \<subseteq> {p. prefix (relay_root r) p}"
proof
  obtain x r' where p: "publish_bytes env j sha256 rk bs r = (x, r')" by fastforce
  then show "\<not> (\<exists>p. p \<notin> publication_files (relay_root r) (snap_version (inner (rl_state r)) + 1)
       \<and> contents (rl_fs (snd (publish_bytes env j sha256 rk bs r))) p \<noteq> contents (rl_fs r) p)"
  proof (cases rule: publish_bytes_cases)
    case (storing verified)
    from storing_frame [OF storing(3)] p show ?thesis
      by (auto simp: publication_metadata_def)
  qed (simp add: p)
qed (auto simp: publication_files_def pair_files_def)

lemma publish_bytes_served:
  "case publish_bytes env j sha256 rk bs r of
     (Inl e, r') \<Rightarrow> rl_state r' = rl_state r
   | (Inr m, r') \<Rightarrow>
       am_version m = snap_version (inner (rl_state r)) + 1 \<and> am_version m > snap_version (inner (rl_state r))
       \<and> am_checksum m = checksum_for_bytes sha256 bs \<and> am_size m = of_nat (length bs)
       \<and> (\<exists>verified now. verify_owned sha256 rk bs = Inr verified
           \<and> rl_state r' = (let st = install now (am_version m) bs (from_header (pvs_header verified)) (am_checksum m)
               (rl_state r) in st\<lparr>metrics := inc_publish_ok (metrics st)\<rparr>))"
proof -
  obtain x r' where p: "publish_bytes env j sha256 rk bs r = (x, r')" by fastforce
  then show ?thesis
  proof (cases rule: publish_bytes_cases)
    case (storing verified)
    from storing(3) show ?thesis
    proof cases
      case (stored s1 s2 x3 s3 u st)
      from stored(6) have "st = install (now_at env (clock s3)) (snap_version (inner (rl_state r)) + 1) bs
          (from_header (pvs_header verified)) (checksum_for_bytes sha256 bs) (rl_state r)"
        "snap_version (inner (rl_state r)) + 1 > snap_version (inner (rl_state r))"
        by (auto simp: publish_def execute_plan_def publication_metadata_def result_simps split: sum.splits if_splits)
      with stored(1,2) storing(2) p show ?thesis
        by (auto simp: publication_metadata_def Let_def)
    qed (use p in \<open>auto simp: publish_def split: sum.splits\<close>)
  qed (simp add: p)
qed

text \<open>The errors of a publication, by where they come from.\<close>

lemma storing_errors:
  assumes "storing env j bs meta root md r (Inl e) r'" "enforce_limits (rl_state r) (length bs) = Inr ()"
  shows "(\<exists>s. e = Storage s) \<or> (\<exists>c p. e = VersionMonotonicity c p)"
  using assms(1)
  by cases (auto simp: publish_def assms(2) execute_plan_def split: sum.splits if_splits)

lemma publish_bytes_errors:
  assumes "publish_bytes env j sha256 rk bs r = (Inl e, r')"
  shows "case e of
      Policy a b \<Rightarrow> enforce_limits (rl_state r) (length bs) \<noteq> Inr ()
    | Config c \<Rightarrow> verify_owned sha256 rk bs = Inl c
    | _ \<Rightarrow> True"
proof (cases "enforce_limits (rl_state r) (length bs)")
  case Inl
  with assms show ?thesis
    by (auto simp: publish_bytes_def st_bind_def st_result_def enforce_limits_def Let_def split: if_splits)
next
  case lim: (Inr u)
  show ?thesis
  proof (cases "verify_owned sha256 rk bs")
    case Inl
    with lim assms show ?thesis by (auto simp: publish_bytes_def st_bind_def st_result_def)
  next
    case (Inr verified)
    with lim assms have "storing env j bs (from_header (pvs_header verified)) (relay_root r)
        (publication_metadata env sha256 bs r) r (Inl e) r'"
      by (intro publish_verified_storing)
        (simp add: publish_bytes_def st_bind_def st_result_def clock_now_def publication_metadata_def relay_root_def)
    from storing_errors [OF this] lim show ?thesis by auto
  qed
qed


section \<open>Restart\<close>

definition configured_root :: "io_kind + path \<Rightarrow> RelayConfig \<Rightarrow> string option \<Rightarrow> path" where
  "configured_root cwd config data_dir =
     absolute_path (case cwd of Inl _ \<Rightarrow> [] | Inr d \<Rightarrow> d) (resolve_data_dir config data_dir)"

lemma create_dir_all_Inr: "create_dir_all env p s = (Inr u, s') \<Longrightarrow> p \<in> set (dirs s') \<and> files s' = files s \<and> set (dirs s) \<subseteq> set (dirs s')"
  by (auto simp: create_dir_all_def syscall_def Let_def split: option.splits if_splits)

lemma ensure_storage_dirs_Inr:
  "ensure_storage_dirs env p s = (Inr u, s') \<Longrightarrow> p @ [LKG_DIR] \<in> set (dirs s') \<and> files s' = files s"
  by (auto simp: ensure_storage_dirs_def st_success LKG_DIR_def dest!: create_dir_all_Inr)

lemma canonicalize_Inr: "canonicalize env p s = (Inr x, s') \<Longrightarrow> x = p \<and> same_files s s'"
  by (auto simp: canonicalize_def syscall_def Let_def same_files_def split: option.splits if_splits)

lemma validated_storage_root_Inr:
  "validated_storage_root env cwd p s = (Inr root, s') \<Longrightarrow>
     root = absolute_path (case cwd of Inl _ \<Rightarrow> [] | Inr d \<Rightarrow> d) p \<and> files s' = files s \<and> set (dirs s) \<subseteq> set (dirs s')"
  by (cases cwd)
    (auto simp: validated_storage_root_def st_success result_simps Let_def absolute_path_def same_files_def
      split: if_splits dest!: create_dir_all_Inr canonicalize_Inr)

text \<open>A relay that starts with an LKG serves its bytes under the version of its metadata.\<close>

lemma init_state_serves_lkg:
  assumes "honest env" "init_state env j sha256 cwd addr config data_dir s = (Inr (a, st), s')"
    and A: "contents s (lkg_artifact_path (configured_root cwd config data_dir)) = Some bs"
    and M: "contents s (lkg_metadata_path (configured_root cwd config data_dir)) = Some mj"
  shows "\<exists>meta. meta_from_json j mj = Inr meta \<and> snap_version (inner st) = am_version meta
    \<and> art_bytes (snap_artifact (inner st)) = bs"
proof -
  define root where "root = configured_root cwd config data_dir"
  from assms(2) obtain u s1 root' s2 u2 s3 opts lkg s4 now where
      1: "ensure_storage_dirs env root s = (Inr u, s1)"
    and 2: "validated_storage_root env cwd (resolve_data_dir config data_dir) s1 = (Inr root', s2)"
    and 3: "repair_lkg env j root' s2 = (Inr u2, s3)"
    and 4: "load_lkg env j root' s3 = (Inr lkg, s4)"
    and 5: "new_with_options sha256 now (current_version (derived_state lkg)) (lkg_bytes lkg) opts = Inr st"
    unfolding init_state_def Let_def configured_root_def root_def
    by (simp only: st_success prod.inject) blast
  have root': "root' = root" and f2: "files s2 = files s" and d2: "root @ [LKG_DIR] \<in> set (dirs s2)"
    using ensure_storage_dirs_Inr [OF 1] validated_storage_root_Inr [OF 2]
    by (auto simp: root_def configured_root_def)
  have "same_files s2 s3"
    using repair_lkg_present [OF assms(1) d2 3 [unfolded root']] A M f2 by (simp add: root_def)
  then have "root @ [LKG_DIR] \<in> set (dirs s3)" "files s3 = files s" using d2 f2 by (simp_all add: same_files_def)
  from load_lkg_present [OF assms(1) this(1) 4 [unfolded root'], of bs mj] this(2) A M
  obtain meta where "meta_from_json j mj = Inr meta" "lkg = Some (bs, meta)" by (auto simp: root_def)
  with 5 show ?thesis
    by (auto simp: new_with_options_def derive_state_from_lkg_def result_simps Let_def)
qed

lemma lkg_frames:
  shows "append_to_history env j root v bs md s = (x, s') \<Longrightarrow> lkg_view root s' = lkg_view root s"
    and "discard_below env root (history_artifact_path root v) s = (y, s') \<Longrightarrow> lkg_view root s' = lkg_view root s"
    and "discard_below env root (history_metadata_path root v) s = (y, s') \<Longrightarrow> lkg_view root s' = lkg_view root s"
    and "save_state env j root st s = (z, s') \<Longrightarrow> lkg_view root s' = lkg_view root s"
  unfolding lkg_view_def pair_view_def lkg_artifact_path_def lkg_metadata_path_def
  by (simp_all add: append_to_history_frame discard_below_frame save_state_frame pair_files_def LKG_DIR_def
      history_artifact_path_def history_metadata_path_def)

lemmas lkg_put_Inr = lkg_pair.put_Inr [folded lkg_view_def]
lemmas lkg_put_never_torn = lkg_pair.put_never_torn [folded lkg_view_def]

lemma storing_lkg:
  assumes "storing env j bs meta root md r x r'"
  shows "lkg_view root (rl_fs r') \<in> {lkg_view root (rl_fs r), (Some bs, snd (lkg_view root (rl_fs r)))}
      \<and> (\<exists>e. x = Inl e)
    \<or> (\<exists>mj. meta_to_json j md = Inr mj \<and> lkg_view root (rl_fs r') = (Some bs, Some mj))"
  using assms
proof cases
  case (promote_failed s1 e s2 x3 s3 x4 s4)
  have "lkg_view root s4 = lkg_view root s2" "lkg_view root s1 = lkg_view root (rl_fs r)"
    using lkg_frames promote_failed by metis+
  with lkg_put_never_torn [OF promote_failed(4)] promote_failed show ?thesis
    by (cases "lkg_view root s2"; cases "lkg_view root (rl_fs r)") auto
next
  case (refused s1 s2 x3 s3 e st)
  then show ?thesis using lkg_put_Inr [OF refused(4)] lkg_frames(4) [OF refused(5)] by auto
next
  case (stored s1 s2 x3 s3 u st)
  then show ?thesis using lkg_put_Inr [OF stored(4)] lkg_frames(4) [OF stored(5)] by auto
qed (use lkg_frames(1) in auto)

text \<open>
  C34: what a relay serves after a restart. Let the LKG be \<open>old\<close> with its metadata, and let a publication
  of \<open>bs\<close> end in any way, a crash at any system call included. If the relay then starts, it serves the
  old artifact under its version, or the new one under the next version; or, when the crash hit between
  the two files of the LKG, the new artifact under the OLD version. After a publication that was reported
  as successful it serves the new artifact under the new version.
\<close>

theorem restart_after_publication:
  assumes "publish_bytes env j sha256 rk bs r = (x, r')"
    and "honest env'" "init_state env' j sha256 cwd addr config data_dir (rl_fs r') = (Inr (a, st), s')"
    and root: "relay_root r = configured_root cwd config data_dir"
    and old: "lkg_view (relay_root r) (rl_fs r) = (Some old, Some mj)" "meta_from_json j mj = Inr meta0"
    and json: "\<And>m b. meta_to_json j m = Inr b \<Longrightarrow> meta_from_json j b = Inr m"
  shows "(snap_version (inner st), art_bytes (snap_artifact (inner st)))
      \<in> (case x of
           Inr m \<Rightarrow> {(am_version m, bs)}
         | Inl e \<Rightarrow> {(am_version meta0, old), (am_version meta0, bs), (snap_version (inner (rl_state r)) + 1, bs)})"
proof -
  have serves: "\<exists>meta. meta_from_json j m = Inr meta
      \<and> (snap_version (inner st), art_bytes (snap_artifact (inner st))) = (am_version meta, b)"
    if "lkg_view (relay_root r) (rl_fs r') = (Some b, Some m)" for b m
    using init_state_serves_lkg [OF assms(2,3), of b m] that by (auto simp: lkg_view_def pair_view_def root)
  from assms(1) show ?thesis
  proof (cases rule: publish_bytes_cases)
    case (rejected e)
    with serves old show ?thesis by auto
  next
    case (storing verified)
    have md: "x = Inr m \<Longrightarrow> m = publication_metadata env sha256 bs r" for m
      using storing(3) by cases auto
    from storing_lkg [OF storing(3)] old serves json md show ?thesis
      by (auto simp: publication_metadata_def split: sum.splits)
  qed
qed

text \<open>
  A relay with an intact storage starts when no system call fails: its LKG is complete and verifies,
  and \<open>state.json\<close> agrees with it.
\<close>

lemma create_dir_all_calm:
  "calm env \<Longrightarrow> \<forall>q\<in>set (prefixes p). contents s q = None \<Longrightarrow>
     create_dir_all env p s = (Inr (), s\<lparr>dirs := prefixes p @ dirs s, clock := clock s + 1\<rparr>)"
  by (auto simp: create_dir_all_def syscall_def calm_def Let_def list_ex_iff)

lemma storage_prepared:
  assumes calm: "calm env" and abs: "starts_with dir ''/''"
    and clear: "\<And>q n. prefix q (root @ [n]) \<Longrightarrow> n \<in> {''lkg'', ''history''} \<Longrightarrow> contents s q = None"
    and root: "\<And>d. absolute_path d dir = root"
  shows "\<exists>s1 s2. ensure_storage_dirs env root s = (Inr (), s1)
    \<and> validated_storage_root env cwd dir s1 = (Inr root, s2) \<and> files s2 = files s
    \<and> {root, root @ [LKG_DIR], root @ [''history'']} \<subseteq> set (dirs s2)
    \<and> (\<forall>p. contents s p \<noteq> None \<longrightarrow> p \<notin> set (dirs s) \<longrightarrow> p \<notin> set (dirs s2))"
proof (intro exI conjI allI impI)
  define s1 where "s1 = s\<lparr>dirs := prefixes (root @ [''history'']) @ prefixes (root @ [''lkg'']) @ dirs s, clock := clock s + 2\<rparr>"
  define s2 where "s2 = s1\<lparr>dirs := prefixes root @ dirs s1, clock := clock s1 + 2\<rparr>"
  have above: "contents s q = None" if "prefix q root" for q
    using that clear [of q "''lkg''"] by simp
  show "ensure_storage_dirs env root s = (Inr (), s1)"
    unfolding ensure_storage_dirs_def st_bind_def st_map_err_def
    using clear [of "root @ [''lkg'']"] clear [of "root @ [''history'']"] above
    by (auto simp: create_dir_all_calm [OF calm] s1_def)
  have "\<forall>q\<in>set (prefixes root). contents s1 q = None" using above by (auto simp: s1_def)
  with calm abs show "validated_storage_root env cwd dir s1 = (Inr root, s2)"
    by (auto simp: validated_storage_root_def root create_dir_all_calm st_defs canonicalize_def syscall_def
        calm_def path_exists_def s2_def)
  fix p
  assume "contents s p \<noteq> None" "p \<notin> set (dirs s)"
  then show "p \<notin> set (dirs s2)"
    using clear [of p "''lkg''"] clear [of p "''history''"] by (auto simp: s2_def s1_def)
qed (auto simp: LKG_DIR_def)

text \<open>The reads of \<open>init_state\<close> on a prepared storage all return.\<close>

lemma init_reads:
  assumes calm: "calm env" and dirs: "{root, root @ [LKG_DIR], root @ [''history'']} \<subseteq> set (dirs s)"
    and lkg: "lkg_view root s = (Some bs, Some mj)" "meta_from_json j mj = Inr meta"
    and state: "contents s (root @ [''state.json'']) = Some sj" "state_from_json j sj = Inr st"
    and files: "\<forall>p. contents s p \<noteq> None \<longrightarrow> p \<notin> set (dirs s)" and same: "same_files s t"
  shows "returns (repair_lkg env j root) t ()" "returns (load_lkg env j root) t (Some (bs, meta))"
    "returns (load_state env j root) t (Some st)" "\<exists>x. returns (find_orphaned_versions env root v) t x"
    "\<exists>x. returns (find_corrupt_versions env root) t x"
proof -
  have cand: "lkg_candidate root f \<notin> set (dirs t)" for f
    using lkg(1) same by (cases f) (auto simp: files [rule_format] lkg_view_def pair_view_def same_files_def)
  have view: "lkg_view root t = (Some bs, Some mj)"
    using lkg(1) same by (simp add: lkg_view_def pair_view_def same_files_def)
  have t: "root \<in> set (dirs t)" "root @ [LKG_DIR] \<in> set (dirs t)" "root @ [''history''] \<in> set (dirs t)"
    using dirs same by (auto simp: same_files_def)
  show "returns (repair_lkg env j root) t ()" "returns (load_lkg env j root) t (Some (bs, meta))"
    using returns_lkg_pair [OF calm t(2) cand view lkg(2)] by blast+
  show "returns (load_state env j root) t (Some st)"
    using returns_load_state [OF calm t(1) _ _ state(2)] state(1) files same by (auto simp: same_files_def)
  show "\<exists>x. returns (find_orphaned_versions env root v) t x" "\<exists>x. returns (find_corrupt_versions env root) t x"
    using returns_history_queries [OF calm t(3)] by blast+
qed

lemma init_state_starts:
  assumes calm: "calm env" and abs: "starts_with (resolve_data_dir config data_dir) ''/''"
    and root: "root = configured_root cwd config data_dir"
    and clear: "\<And>q n. prefix q (root @ [n]) \<Longrightarrow> n \<in> {''lkg'', ''history''} \<Longrightarrow> contents s q = None"
    and lkg: "lkg_view root s = (Some bs, Some mj)" "meta_from_json j mj = Inr meta"
    and state: "contents s (root @ [''state.json'']) = Some sj"
      "state_from_json j sj = Inr \<lparr>current_version = am_version meta\<rparr>"
    and files: "\<And>p. contents s p \<noteq> None \<Longrightarrow> p \<notin> set (dirs s)"
    and opts: "build_options config root = Inr opts" "check_lkg_size opts (Some (bs, meta)) = Inr ()"
    and art: "inspect sha256 bs = Inr h"
  shows "\<exists>st s'. init_state env j sha256 cwd (Some addr) config data_dir s = (Inr (addr, st), s')"
proof -
  have abspath: "absolute_path d (resolve_data_dir config data_dir) = root" for d
    using abs by (simp add: root configured_root_def absolute_path_def Let_def split: sum.splits)
  have "\<exists>s1 s2. ensure_storage_dirs env root s = (Inr (), s1)
    \<and> validated_storage_root env cwd (resolve_data_dir config data_dir) s1 = (Inr root, s2) \<and> files s2 = files s
    \<and> {root, root @ [LKG_DIR], root @ [''history'']} \<subseteq> set (dirs s2)
    \<and> (\<forall>p. contents s p \<noteq> None \<longrightarrow> p \<notin> set (dirs s) \<longrightarrow> p \<notin> set (dirs s2))"
    by (rule storage_prepared [OF calm abs _ abspath]) (rule clear)
  then obtain s1 s2 where 1: "ensure_storage_dirs env root s = (Inr (), s1)"
      "validated_storage_root env cwd (resolve_data_dir config data_dir) s1 = (Inr root, s2)"
    and s2: "files s2 = files s" "{root, root @ [LKG_DIR], root @ [''history'']} \<subseteq> set (dirs s2)"
      "\<And>p. contents s p \<noteq> None \<Longrightarrow> p \<notin> set (dirs s) \<Longrightarrow> p \<notin> set (dirs s2)"
    by blast
  have "lkg_view root s2 = (Some bs, Some mj)" "contents s2 (root @ [''state.json'']) = Some sj"
    "\<forall>p. contents s2 p \<noteq> None \<longrightarrow> p \<notin> set (dirs s2)"
    using lkg(1) state(1) files s2(1,3) by (auto simp: lkg_view_def pair_view_def)
  note reads = init_reads [OF calm s2(2) this(1) lkg(2) this(2) state(2) this(3)]
  define opts' where "opts' = opts\<lparr>lkg_path := Some (lkg_artifact_path root)\<rparr>"
  have size: "check_lkg_size opts' (Some (bs, meta)) = Inr ()" using opts(2) by (simp add: check_lkg_size_def opts'_def)
  have new: "\<exists>st. new_with_options sha256 now v bs opts' = Inr st" for now v
    using art by (simp add: new_with_options_def Let_def)
  have refl: "same_files s2 s2" by (simp add: same_files_def)
  obtain s3 where 3: "repair_lkg env j root s2 = (Inr (), s3)" "same_files s2 s3"
    using reads(1) [OF refl] by (auto simp: returns_def)
  obtain s4 where 4: "load_lkg env j root s3 = (Inr (Some (bs, meta)), s4)" "same_files s2 s4"
    using reads(2) [OF 3(2)] 3(2) by (auto simp: returns_def intro: same_files_trans)
  obtain s5 where 5: "load_state env j root s4 = (Inr (Some \<lparr>current_version = am_version meta\<rparr>), s5)" "same_files s2 s5"
    using reads(3) [OF 4(2)] 4(2) by (auto simp: returns_def intro: same_files_trans)
  obtain x6 s6 where 6: "find_orphaned_versions env root (am_version meta) s5 = (Inr x6, s6)" "same_files s2 s6"
    using reads(4) [OF 5(2)] 5(2) by (fastforce simp: returns_def intro: same_files_trans)
  obtain x7 s7 where 7: "find_corrupt_versions env root s6 = (Inr x7, s7)"
    using reads(5) [OF 6(2)] by (auto simp: returns_def)
  obtain st where 8: "new_with_options sha256 (now_at env (clock s7)) (am_version meta) bs opts' = Inr st" using new by blast
  show ?thesis
    using 1 3(1) 4(1) 5(1) 6(1) 7 8 opts(1) size
    by (auto simp: init_state_def st_bind_def st_map_err_def st_result_def st_ok_def abspath derive_state_from_lkg_def
        Let_def simp flip: opts'_def)
qed

text \<open>A relay that serves version 7 and publishes an artifact with an empty payload as version 8.\<close>

definition calm_env :: io_env where
  "calm_env = \<lparr>fault = \<lambda>_. None, torn = \<lambda>_. 0, now_at = \<lambda>_. 0\<rparr>"

definition flat_sha :: "bytes \<Rightarrow> bytes" where
  "flat_sha bs = replicate 32 0"

definition any_archive :: "(unit, unit) rkyv" where
  "any_archive = \<lparr>rkyv_to_bytes = \<lambda>_. Inr [], rkyv_access = \<lambda>_. Inr (), rkyv_deserialize = \<lambda>_. Inr ()\<rparr>"

definition sample_artifact :: bytes where
  "sample_artifact = header_bytes header_default"

definition sample_meta :: "u64 \<Rightarrow> ArtifactMetadata" where
  "sample_meta v = \<lparr>am_version = v, published_at = 0, am_checksum = checksum_for_bytes flat_sha sample_artifact, am_size = 64\<rparr>"

definition sample_json :: json where
  "sample_json = \<lparr>meta_to_json = \<lambda>m. if m = sample_meta 7 then Inr [7] else if m = sample_meta 8 then Inr [8] else Inl ''?'',
     meta_from_json = \<lambda>b. if b = [7] then Inr (sample_meta 7) else if b = [8] then Inr (sample_meta 8) else Inl ''?'',
     state_to_json = \<lambda>s. Inr [7], state_from_json = \<lambda>b. Inr \<lparr>current_version = 7\<rparr>\<rparr>"

definition sample_relay_config :: RelayConfig where
  "sample_relay_config = relay_config_default\<lparr>storage := \<lparr>storage_type = ''file'', root_dir = ''/data''\<rparr>\<rparr>"

definition sample_fs :: fs where
  "sample_fs = \<lparr>files = [([''data'', ''lkg'', ''config.pvs''], sample_artifact), ([''data'', ''lkg'', ''meta.json''], [7]),
       ([''data'', ''state.json''], [7])],
     dirs = [[], [''data''], [''data'', ''lkg''], [''data'', ''history'']], clock = 0\<rparr>"

definition sample_relay :: relay where
  "sample_relay = \<lparr>rl_fs = sample_fs, rl_state =
     (let art = \<lparr>art_bytes = sample_artifact, art_meta = from_header header_default, generated_at = 0\<rparr> in
      \<lparr>inner = \<lparr>snap_version = 7, snap_artifact = art, updated_at = 0,
         artifact_checksum = checksum_for_bytes flat_sha sample_artifact\<rparr>,
       history = [7 \<mapsto> art], notify = 0,
       options = \<lparr>version_header = ''x-config-version'', checksum_header = ''x-pavis-checksum'',
         checksum_alg_header = ''x-pavis-checksum-alg'', generated_at_header = ''x-pavis-generated-at'',
         long_poll_enabled = True, identity_name = ''relay'', lkg_path = None, storage_root = [''data''],
         max_pvs_bytes = 0\<rparr>,
       metrics = \<lparr>publish_ok = 0, publish_fail = 0, long_poll_wait = 0\<rparr>, last_error = None, started_at = 0,
       ready = True\<rparr>)\<rparr>"

definition full_disk :: io_env where
  "full_disk = calm_env\<lparr>fault := \<lambda>_. Some (OtherIo ''StorageFull'')\<rparr>"

lemma sample_artifact_verifies: "inspect flat_sha sample_artifact = Inr header_default"
proof -
  have "verify_bytes flat_sha sample_artifact = Inr (header_default, [])"
    by (simp add: verify_bytes_canonical sample_artifact_def flat_sha_def header_default_def)
  then show ?thesis by (simp add: inspect_def)
qed

lemmas sample_relay_defs = relay_config_default_def persistence_default_def retry_config_default_def
  retry_backoff_default_def sample_relay_def sample_fs_def sample_json_def sample_meta_def sample_relay_config_def
  calm_env_def lkg_view_def pair_view_def lkg_artifact_path_def lkg_metadata_path_def LKG_DIR_def
  LKG_ARTIFACT_FILE_def LKG_METADATA_FILE_def configured_root_def resolve_data_dir_def absolute_path_def

lemma full_disk_fails:
  "publish_bytes full_disk sample_json flat_sha any_archive sample_artifact sample_relay
   = (Inl (Storage (IoFailed (OtherIo ''StorageFull''))), sample_relay\<lparr>rl_fs := sample_fs\<lparr>clock := 1\<rparr>\<rparr>)"
proof -
  have "verify_owned flat_sha any_archive sample_artifact = Inr \<lparr>pvs_header = header_default, pvs_bytes = sample_artifact\<rparr>"
    using sample_artifact_verifies by (auto simp: verify_owned_def inspect_def any_archive_def result_simps)
  then show ?thesis
    by (simp add: publish_bytes_def publish_verified_def st_defs on_fs_def clock_now_def enforce_limits_def
        append_to_history_def ensure_history_dir_def ensure_dir_def ensure_existing_path_def canonicalize_def
        syscall_def full_disk_def sample_relay_def sample_fs_def Let_def)
qed

theorem restart_after_publication_witness:
  "\<exists>st s'. init_state calm_env sample_json flat_sha (Inr []) (Some ()) sample_relay_config None
      (rl_fs (snd (publish_bytes full_disk sample_json flat_sha any_archive sample_artifact sample_relay)))
      = (Inr ((), st), s')
    \<and> (snap_version (inner st), art_bytes (snap_artifact (inner st))) \<in> {(7, sample_artifact), (8, sample_artifact)}"
proof -
  let ?s = "sample_fs\<lparr>clock := 1\<rparr>"
  have "honest calm_env" "calm calm_env" by (simp_all add: honest_def calm_def calm_env_def)
  have start: "\<exists>st s'. init_state calm_env sample_json flat_sha (Inr []) (Some ()) sample_relay_config None ?s
      = (Inr ((), st), s')"
  proof (rule init_state_starts [OF \<open>calm calm_env\<close>])
    show "inspect flat_sha sample_artifact = Inr header_default" by (rule sample_artifact_verifies)
    show "meta_from_json sample_json [7] = Inr (sample_meta 7)" by (simp add: sample_json_def)
  qed (auto simp: sample_relay_defs build_options_def check_lkg_size_def fail_if_def prefix_Cons split: if_splits)
  then obtain st s' where st: "init_state calm_env sample_json flat_sha (Inr []) (Some ()) sample_relay_config None ?s
      = (Inr ((), st), s')" by blast
  have facts: "relay_root sample_relay = configured_root (Inr []) sample_relay_config None"
    "lkg_view (relay_root sample_relay) (rl_fs sample_relay) = (Some sample_artifact, Some [7])"
    "meta_from_json sample_json [7] = Inr (sample_meta 7)" "snap_version (inner (rl_state sample_relay)) = 7"
    by (simp_all add: sample_relay_defs relay_root_def Let_def)
  have json: "meta_from_json sample_json b = Inr m" if "meta_to_json sample_json m = Inr b" for m b
    using that by (auto simp: sample_json_def split: if_splits)
  have "init_state calm_env sample_json flat_sha (Inr []) (Some ()) sample_relay_config None
      (rl_fs (sample_relay\<lparr>rl_fs := ?s\<rparr>)) = (Inr ((), st), s')" using st by simp
  from restart_after_publication [OF full_disk_fails \<open>honest calm_env\<close> this facts(1-3) json]
  have "(snap_version (inner st), art_bytes (snap_artifact (inner st))) \<in> {(7, sample_artifact), (8, sample_artifact)}"
    by (simp add: facts(4) sample_meta_def)
  with st show ?thesis by (simp add: full_disk_fails)
qed

end
