(* ===== verification/Relay_Handlers.thy ===== *)
theory Relay_Handlers
  imports Relay_Runtime
begin

text \<open>
  The HTTP handlers of the relay (crates/pavis-relay/src/handlers.rs): the parsing of \<open>If-None-Match\<close>,
  the responses, \<open>get_config\<close> with its long poll, \<open>post_publish\<close>, \<open>get_artifact\<close> and \<open>get_ready\<close>.

  A header value arrives as text, or as \<open>None\<close> when it is missing or \<open>to_str\<close> fails. The long poll is a
  step relation: the handler's steps interleave with those of a publisher, which first changes the
  snapshot and then wakes the waiters, and with time. \<open>notified()\<close> remembers the number of calls of
  \<open>notify_waiters\<close> so far and is ready as soon as there are more, as tokio documents it.
\<close>

section \<open>ETags\<close>

definition is_ascii_whitespace :: "char \<Rightarrow> bool" where
  "is_ascii_whitespace c \<longleftrightarrow> c \<in> {CHR '' '', CHR 0x09, CHR 0x0A, CHR 0x0B, CHR 0x0C, CHR 0x0D}"

definition trim :: "string \<Rightarrow> string" where
  "trim s = rev (dropWhile is_ascii_whitespace (rev (dropWhile is_ascii_whitespace s)))"

definition quote :: char where
  "quote = CHR 0x22"

definition parse_if_none_match :: "string option \<Rightarrow> string option" where
  "parse_if_none_match value =
     (case value of
        None \<Rightarrow> None
      | Some s \<Rightarrow>
          let trimmed = trim s in
          if trimmed = ''*'' then None
          else if starts_with trimmed ''W/'' \<or> starts_with trimmed ''w/'' then None
          else if CHR '','' \<in> set trimmed then None
          else if \<not> starts_with trimmed [quote] \<or> \<not> ends_with trimmed [quote] \<or> length trimmed < 2 then None
          else let unquoted = take (length trimmed - 2) (drop 1 trimmed) in
            if quote \<in> set unquoted then None
            else if \<not> starts_with unquoted ''sha256:'' then None
            else let hex_part = drop 7 unquoted in
              if length hex_part \<noteq> 64 then None
              else if \<not> list_all is_ascii_hexdigit hex_part then None
              else Some (''sha256:'' @ to_ascii_lowercase hex_part))"

definition etag_from_checksum :: "string \<Rightarrow> string" where
  "etag_from_checksum checksum =
     (let normalized = to_ascii_lowercase checksum in
      if starts_with normalized ''sha256:'' then normalized else ''sha256:'' @ normalized)"

definition quote_etag :: "string \<Rightarrow> string" where
  "quote_etag etag = [quote] @ etag @ [quote]"

section \<open>Responses\<close>

record http_response =
  status :: nat
  headers :: "(string \<times> string) list"
  body :: "u8 list"

definition text_bytes :: "string \<Rightarrow> bytes" where
  "text_bytes s = map of_char s"

definition build_200_response :: "RelaySnapshot \<Rightarrow> string \<Rightarrow> http_response" where
  "build_200_response snapshot etag =
     \<lparr>status = 200,
      headers = [(''content-type'', ''application/octet-stream''), (''etag'', quote_etag etag),
        (''x-config-size'', to_dec (length (art_bytes (snap_artifact snapshot)))),
        (''x-config-version'', to_dec (unat (snap_version snapshot))), (''cache-control'', ''no-store'')],
      body = art_bytes (snap_artifact snapshot)\<rparr>"

definition build_204_response :: "string \<Rightarrow> http_response" where
  "build_204_response etag =
     \<lparr>status = 204, headers = [(''etag'', quote_etag etag), (''cache-control'', ''no-store'')], body = []\<rparr>"

definition build_304_response :: "string \<Rightarrow> http_response" where
  "build_304_response etag =
     \<lparr>status = 304, headers = [(''etag'', quote_etag etag), (''cache-control'', ''no-store'')], body = []\<rparr>"

definition build_503_response :: http_response where
  "build_503_response = \<lparr>status = 503, headers = [(''retry-after'', ''1'')], body = []\<rparr>"

definition build_400_response :: "string \<Rightarrow> http_response" where
  "build_400_response message =
     \<lparr>status = 400, headers = [(''content-type'', ''text/plain; charset=utf-8'')], body = text_bytes (message @ [CHR 0x0A])\<rparr>"

definition snapshot_etag :: "RelaySnapshot \<Rightarrow> string" where
  "snapshot_etag snapshot = etag_from_checksum (artifact_checksum snapshot)"

section \<open>get\_config\<close>

text \<open>
  Up to the loop: the response, or the ETag and the deadline with which the loop starts. \<open>now\<close> is the
  instant the deadline is counted from.
\<close>

definition get_config_start ::
  "RelayRuntimeState \<Rightarrow> u64 option \<Rightarrow> string option \<Rightarrow> instant \<Rightarrow> http_response + (string \<times> instant)" where
  "get_config_start st wait if_none_match now =
     (if \<not> ready st then Inl build_503_response
      else
        let wait_ms = (case wait of None \<Rightarrow> 0 | Some w \<Rightarrow> w) in
        if wait_ms > 60000 then Inl (build_400_response ''wait_ms must be in range 0..=60000 (milliseconds)'')
        else
          let client_etag = parse_if_none_match if_none_match;
              snapshot = inner st;
              current_etag = snapshot_etag snapshot in
          if client_etag \<noteq> None \<and> client_etag \<noteq> Some current_etag then Inl (build_200_response snapshot current_etag)
          else if client_etag = None \<and> wait_ms > 0 then Inl (build_200_response snapshot current_etag)
          else if wait_ms > 0 \<and> long_poll_enabled (options st)
          then Inr (current_etag, now + from_millis (unat wait_ms))
          else if client_etag = Some current_etag then Inl (build_304_response current_etag)
          else Inl (build_200_response snapshot current_etag))"

datatype poll_pc =
    Poll_Start
  | Poll_Check string instant
  | Poll_Waiting string instant nat
  | Poll_Woken string instant
  | Poll_Done http_response

text \<open>
  One request with the relay around it. \<open>pending\<close> is what a publisher inside \<open>publish\<close> has still to do:
  \<open>None\<close>, or \<open>Some changed\<close> between the write of the snapshot and the wake-up.
\<close>

record poll_system =
  ps_relay :: RelayRuntimeState
  ps_now :: instant
  ps_pending :: "bool option"
  ps_pc :: poll_pc

inductive handler_step :: "u64 option \<Rightarrow> string option \<Rightarrow> poll_system \<Rightarrow> poll_system \<Rightarrow> bool"
  for wait if_none_match where
  start_done: "ps_pc p = Poll_Start \<Longrightarrow> get_config_start (ps_relay p) wait if_none_match (ps_now p) = Inl resp \<Longrightarrow>
    handler_step wait if_none_match p (p\<lparr>ps_pc := Poll_Done resp\<rparr>)"
| start_poll: "ps_pc p = Poll_Start \<Longrightarrow>
    get_config_start (ps_relay p) wait if_none_match (ps_now p) = Inr (etag, deadline) \<Longrightarrow>
    handler_step wait if_none_match p (p\<lparr>ps_pc := Poll_Check etag deadline,
      ps_relay := (ps_relay p)\<lparr>metrics := inc_long_poll_wait (metrics (ps_relay p))\<rparr>\<rparr>)"
| expired: "ps_pc p = Poll_Check etag deadline \<Longrightarrow> deadline \<le> ps_now p \<Longrightarrow>
    handler_step wait if_none_match p (p\<lparr>ps_pc := Poll_Done (build_204_response etag)\<rparr>)"
| notified: "ps_pc p = Poll_Check etag deadline \<Longrightarrow> ps_now p < deadline \<Longrightarrow>
    handler_step wait if_none_match p (p\<lparr>ps_pc := Poll_Waiting etag deadline (notify (ps_relay p))\<rparr>)"
| woken: "ps_pc p = Poll_Waiting etag deadline seen \<Longrightarrow> seen < notify (ps_relay p) \<Longrightarrow>
    handler_step wait if_none_match p (p\<lparr>ps_pc := Poll_Woken etag deadline\<rparr>)"
| timeout: "ps_pc p = Poll_Waiting etag deadline seen \<Longrightarrow> notify (ps_relay p) \<le> seen \<Longrightarrow> deadline \<le> ps_now p \<Longrightarrow>
    handler_step wait if_none_match p (p\<lparr>ps_pc := Poll_Done (build_204_response etag)\<rparr>)"
| changed: "ps_pc p = Poll_Woken etag deadline \<Longrightarrow> snapshot_etag (inner (ps_relay p)) \<noteq> etag \<Longrightarrow>
    handler_step wait if_none_match p
      (p\<lparr>ps_pc := Poll_Done (build_200_response (inner (ps_relay p)) (snapshot_etag (inner (ps_relay p))))\<rparr>)"
| unchanged: "ps_pc p = Poll_Woken etag deadline \<Longrightarrow> snapshot_etag (inner (ps_relay p)) = etag \<Longrightarrow>
    handler_step wait if_none_match p (p\<lparr>ps_pc := Poll_Check etag deadline\<rparr>)"

text \<open>
  The rest of the world: time passes, and a publisher runs \<open>publish\<close>: first the snapshot and the
  history, then the wake-up if the checksum changed, and the ready flag.
\<close>

inductive world_step :: "(bytes \<Rightarrow> bytes) \<Rightarrow> poll_system \<Rightarrow> poll_system \<Rightarrow> bool" for sha256 where
  tick: "ps_now p \<le> t \<Longrightarrow> world_step sha256 p (p\<lparr>ps_now := t\<rparr>)"
| write_snapshot: "ps_pending p = None \<Longrightarrow> execute_plan (snap_version (inner (ps_relay p))) version = Inr () \<Longrightarrow>
    art = \<lparr>art_bytes = bs, art_meta = meta, generated_at = t\<rparr> \<Longrightarrow> bs \<noteq> [] \<Longrightarrow>
    world_step sha256 p (p\<lparr>ps_pending := Some (artifact_checksum (inner (ps_relay p)) \<noteq> checksum_for_bytes sha256 bs),
      ps_relay := (ps_relay p)\<lparr>inner := \<lparr>snap_version = version, snap_artifact = art, updated_at = t,
          artifact_checksum = checksum_for_bytes sha256 bs\<rparr>,
        history := (history (ps_relay p))(version \<mapsto> art)\<rparr>\<rparr>)"
| wake: "ps_pending p = Some etag_changed \<Longrightarrow>
    world_step sha256 p (p\<lparr>ps_pending := None,
      ps_relay := (ps_relay p)\<lparr>notify := (if etag_changed then notify (ps_relay p) + 1 else notify (ps_relay p)),
        ready := True\<rparr>\<rparr>)"

definition poll_step :: "(bytes \<Rightarrow> bytes) \<Rightarrow> u64 option \<Rightarrow> string option \<Rightarrow> poll_system \<Rightarrow> poll_system \<Rightarrow> bool" where
  "poll_step sha256 wait inm p p' \<longleftrightarrow> handler_step wait inm p p' \<or> world_step sha256 p p'"

section \<open>The other handlers\<close>

definition publish_error_status :: "RelayError \<Rightarrow> nat" where
  "publish_error_status err = (case err of Policy _ _ \<Rightarrow> 413 | Config _ \<Rightarrow> 400 | _ \<Rightarrow> 500)"

text \<open>
  \<open>post_publish\<close>: the status and, on success, the metadata that the body shows. The body limit that routes.rs puts in front of the
  handler when a size limit is set is axum's and is not modelled: it refuses the bodies that the handler refuses with \<open>413\<close>.
\<close>

definition post_publish ::
  "io_env \<Rightarrow> json \<Rightarrow> (bytes \<Rightarrow> bytes) \<Rightarrow> ('c, 'v) rkyv \<Rightarrow> bytes \<Rightarrow> relay \<Rightarrow> (nat \<times> ArtifactMetadata option) \<times> relay" where
  "post_publish env j sha256 rk bs r =
     (if bs = [] then
        ((400, None), r\<lparr>rl_state := (rl_state r)\<lparr>metrics := inc_publish_fail (metrics (rl_state r))\<rparr>\<rparr>)
      else case publish_bytes env j sha256 rk bs r of
        (Inl err, r') \<Rightarrow>
          ((publish_error_status err, None),
           r'\<lparr>rl_state := (rl_state r')\<lparr>metrics := inc_publish_fail (metrics (rl_state r')), last_error := Some err\<rparr>\<rparr>)
      | (Inr metadata, r') \<Rightarrow>
          ((200, Some metadata), r'\<lparr>rl_state := (rl_state r')\<lparr>last_error := None\<rparr>\<rparr>))"

definition get_ready :: "RelayRuntimeState \<Rightarrow> http_response" where
  "get_ready st =
     (if \<not> ready st then \<lparr>status = 503, headers = [], body = text_bytes (''no artifact'' @ [CHR 0x0A])\<rparr>
      else \<lparr>status = 200, headers = [], body = text_bytes (''ready'' @ [CHR 0x0A])\<rparr>)"

definition get_health :: http_response where
  "get_health = \<lparr>status = 200, headers = [], body = text_bytes (''ok'' @ [CHR 0x0A])\<rparr>"

text \<open>The body of \<open>get_status\<close> before it is serialised; errors of the storage count as nothing stored.\<close>

record StatusLkg =
  sl_version :: u64
  sl_size :: u64
  sl_checksum :: string
  sl_published_at :: string

record StatusResponse =
  sr_status :: string
  sr_uptime_s :: nat
  sr_current_version :: u64
  sr_lkg :: "StatusLkg option"
  sr_history_count :: nat

definition uptime_seconds :: "nat \<Rightarrow> nat \<Rightarrow> nat" where
  "uptime_seconds started now = (if started \<le> now then (now - started) div 1000000000 else 0)"

definition get_status :: "io_env \<Rightarrow> json \<Rightarrow> (nat \<Rightarrow> string) \<Rightarrow> relay \<Rightarrow> StatusResponse" where
  "get_status env j rfc3339 r =
     (let st = rl_state r; root = storage_root (options st);
          (versions, s1) = list_history_versions env root (rl_fs r);
          (meta, s2) = load_lkg_metadata env j root s1 in
      \<lparr>sr_status = ''healthy'', sr_uptime_s = uptime_seconds (started_at st) (now_at env (clock (rl_fs r))),
       sr_current_version = snap_version (inner st),
       sr_lkg = (case meta of
          Inr (Some m) \<Rightarrow> Some \<lparr>sl_version = am_version m, sl_size = am_size m, sl_checksum = am_checksum m,
            sl_published_at = rfc3339 (published_at m)\<rparr>
        | _ \<Rightarrow> None),
       sr_history_count = (case versions of Inr vs \<Rightarrow> length vs | Inl _ \<Rightarrow> 0)\<rparr>)"

definition metric :: "string \<Rightarrow> string \<Rightarrow> string \<Rightarrow> nat \<Rightarrow> string" where
  "metric name help kind n =
     ''# HELP '' @ name @ '' '' @ help @ [CHR 0x0A] @ ''# TYPE '' @ name @ '' '' @ kind @ [CHR 0x0A]
     @ name @ '' '' @ to_dec n @ [CHR 0x0A]"

definition get_metrics :: "RelayRuntimeState \<Rightarrow> http_response" where
  "get_metrics st =
     \<lparr>status = 200, headers = [], body = text_bytes
       (metric ''pavis_relay_version'' ''Current config version'' ''gauge'' (unat (snap_version (inner st)))
        @ metric ''pavis_relay_publish_ok_total'' ''Successful publishes'' ''counter'' (unat (publish_ok (metrics st)))
        @ metric ''pavis_relay_publish_fail_total'' ''Failed publishes'' ''counter'' (unat (publish_fail (metrics st)))
        @ metric ''pavis_relay_longpoll_wait_total'' ''Long poll waits'' ''counter'' (unat (long_poll_wait (metrics st))))\<rparr>"

text \<open>
  \<open>get_artifact\<close>; \<open>rfc3339\<close> renders a time, and a header value that \<open>HeaderValue::from_str\<close> refuses
  (\<open>header_ok\<close>) is replaced by the default of the source.
\<close>

definition get_artifact ::
  "(string \<Rightarrow> bool) \<Rightarrow> (nat \<Rightarrow> string) \<Rightarrow> RelayRuntimeState \<Rightarrow> u64 \<Rightarrow> http_response" where
  "get_artifact header_ok rfc3339 st version =
     (case artifact st version of
        None \<Rightarrow> \<lparr>status = 404, headers = [], body = text_bytes (''unknown version'' @ [CHR 0x0A])\<rparr>
      | Some a \<Rightarrow>
          let value = (\<lambda>s d. if header_ok s then s else d); opts = options st in
          \<lparr>status = 200,
           headers = [(''content-type'', ''application/octet-stream''),
             (version_header opts, value (to_dec (unat version)) ''0''),
             (checksum_header opts, value (meta_checksum (art_meta a)) []),
             (checksum_alg_header opts, value (meta_algorithm (art_meta a)) ''sha256''),
             (generated_at_header opts, value (rfc3339 (generated_at a)) []),
             (''cache-control'', ''no-store'')],
           body = art_bytes a\<rparr>)"

section \<open>Lemmas on ETags\<close>

lemma lowercase_hex: "list_all is_ascii_hexdigit h \<Longrightarrow> quote \<notin> set h \<and> CHR '','' \<notin> set h"
  by (auto simp: list_all_iff is_ascii_hexdigit_def quote_def Let_def)

lemma quoted_iff:
  "starts_with t [quote] \<and> ends_with t [quote] \<and> 2 \<le> length t \<longleftrightarrow> (\<exists>u. t = quote # u @ [quote])"
proof
  assume a: "starts_with t [quote] \<and> ends_with t [quote] \<and> 2 \<le> length t"
  then obtain u where "t = quote # u" by (auto simp: prefix_def)
  with a show "\<exists>u. t = quote # u @ [quote]"
    by (cases u rule: rev_cases) (auto simp: suffix_def)
qed (auto simp: suffix_def)

lemma parse_if_none_match_Some:
  "parse_if_none_match (Some s) = Some e \<longleftrightarrow>
     (\<exists>h. trim s = [quote] @ ''sha256:'' @ h @ [quote] \<and> length h = 64 \<and> list_all is_ascii_hexdigit h
        \<and> e = ''sha256:'' @ to_ascii_lowercase h)" (is "?l \<longleftrightarrow> ?r")
proof
  assume l: ?l
  then have "starts_with (trim s) [quote] \<and> ends_with (trim s) [quote] \<and> 2 \<le> length (trim s)"
    by (auto simp: parse_if_none_match_def Let_def split: if_splits)
  then obtain u where u: "trim s = quote # u @ [quote]" using quoted_iff by blast
  with l have "starts_with u ''sha256:'' \<and> length (drop 7 u) = 64 \<and> list_all is_ascii_hexdigit (drop 7 u)
      \<and> e = ''sha256:'' @ to_ascii_lowercase (drop 7 u)"
    by (auto simp: parse_if_none_match_def Let_def split: if_splits)
  moreover from this obtain h where "u = ''sha256:'' @ h" by (auto simp: prefix_def)
  ultimately show ?r using u by auto
next
  assume ?r
  then obtain h where h: "trim s = [quote] @ ''sha256:'' @ h @ [quote]" "length h = 64" "list_all is_ascii_hexdigit h"
    "e = ''sha256:'' @ to_ascii_lowercase h" by blast
  with lowercase_hex [OF h(3)] show ?l
    by (auto simp: parse_if_none_match_def quote_def suffix_def)
qed

lemma trim_quoted: "trim (quote_etag e) = quote_etag e"
  by (simp add: trim_def quote_etag_def is_ascii_whitespace_def quote_def)

lemma etag_of_checksum: "etag_from_checksum (checksum_for_bytes sha256 bs) = checksum_for_bytes sha256 bs"
proof -
  have "to_ascii_lowercase (checksum_for_bytes sha256 bs) = checksum_for_bytes sha256 bs"
    using to_hex_lowercase [of "sha256 bs"]
    by (simp add: checksum_for_bytes_def to_ascii_lowercase_def to_ascii_lowercase_char_def)
  then show ?thesis by (simp add: etag_from_checksum_def checksum_for_bytes_def)
qed

lemma parse_own_etag:
  "length (sha256 bs) = 32 \<Longrightarrow>
     parse_if_none_match (Some (quote_etag (checksum_for_bytes sha256 bs))) = Some (checksum_for_bytes sha256 bs)"
  unfolding parse_if_none_match_Some trim_quoted
  by (auto simp: quote_etag_def checksum_for_bytes_def to_hex_lowercase list_all_iff to_hex_hexdigits)

section \<open>Properties\<close>

text \<open>
  \<open>If-None-Match\<close> is read strictly. A value is accepted if and only if, without surrounding whitespace,
  it is one quoted \<open>sha256:\<close> with 64 hexadecimal digits of either case, which are lowercased; and the \<open>ETag\<close> the relay
  sends for an artifact is accepted and means that artifact.
\<close>

theorem if_none_match_roundtrip:
  assumes "length (sha256 bs) = 32"
  shows "(parse_if_none_match (Some s) = Some e) =
     (\<exists>h. trim s = [quote] @ ''sha256:'' @ h @ [quote] \<and> length h = 64 \<and> list_all is_ascii_hexdigit h
        \<and> e = ''sha256:'' @ to_ascii_lowercase h)
   \<and> parse_if_none_match (Some (quote_etag (etag_from_checksum (checksum_for_bytes sha256 bs))))
     = Some (etag_from_checksum (checksum_for_bytes sha256 bs))"
  using parse_if_none_match_Some parse_own_etag [of sha256 bs] assms by (simp add: etag_of_checksum)

theorem if_none_match_roundtrip_witness:
  "parse_if_none_match (Some (quote_etag (etag_from_checksum (checksum_for_bytes flat_sha []))))
   = Some (etag_from_checksum (checksum_for_bytes flat_sha []))"
  using if_none_match_roundtrip [of flat_sha "[]"] by (simp add: flat_sha_def)

text \<open>
  What holds of a request at every moment: the snapshot served has the checksum of its bytes, the loop
  waits only for a client that named the current artifact, and an answer says what it should.
\<close>

definition has_checksum :: "(bytes \<Rightarrow> bytes) \<Rightarrow> RelaySnapshot \<Rightarrow> bool" where
  "has_checksum sha256 snap \<longleftrightarrow> artifact_checksum snap = checksum_for_bytes sha256 (art_bytes (snap_artifact snap))"

definition etag_header :: "http_response \<Rightarrow> string option" where
  "etag_header resp = map_of (headers resp) ''etag''"

definition answer_ok :: "(bytes \<Rightarrow> bytes) \<Rightarrow> string option \<Rightarrow> http_response \<Rightarrow> bool" where
  "answer_ok sha256 inm resp \<longleftrightarrow>
     (if status resp = 200 then etag_header resp = Some (quote_etag (checksum_for_bytes sha256 (body resp)))
      else if status resp = 204 \<or> status resp = 304
      then body resp = [] \<and> etag_header resp = map_option quote_etag (parse_if_none_match inm)
        \<and> parse_if_none_match inm \<noteq> None
      else status resp = 400 \<or> status resp = 503)"

fun pc_ok :: "(bytes \<Rightarrow> bytes) \<Rightarrow> string option \<Rightarrow> poll_pc \<Rightarrow> bool" where
  "pc_ok sha256 inm Poll_Start \<longleftrightarrow> True"
| "pc_ok sha256 inm (Poll_Check e d) \<longleftrightarrow> parse_if_none_match inm = Some e"
| "pc_ok sha256 inm (Poll_Waiting e d n) \<longleftrightarrow> parse_if_none_match inm = Some e"
| "pc_ok sha256 inm (Poll_Woken e d) \<longleftrightarrow> parse_if_none_match inm = Some e"
| "pc_ok sha256 inm (Poll_Done resp) \<longleftrightarrow> answer_ok sha256 inm resp"

definition poll_inv :: "(bytes \<Rightarrow> bytes) \<Rightarrow> string option \<Rightarrow> poll_system \<Rightarrow> bool" where
  "poll_inv sha256 inm p \<longleftrightarrow>
     (ready (ps_relay p) \<or> ps_pending p \<noteq> None \<longrightarrow> has_checksum sha256 (inner (ps_relay p)))
   \<and> (ps_pc p = Poll_Start \<or> ready (ps_relay p) \<or> (\<exists>resp. ps_pc p = Poll_Done resp)) \<and> pc_ok sha256 inm (ps_pc p)"

lemma answer_200: "has_checksum sha256 snap \<Longrightarrow> answer_ok sha256 inm (build_200_response snap (snapshot_etag snap))"
  by (simp add: answer_ok_def build_200_response_def etag_header_def snapshot_etag_def has_checksum_def etag_of_checksum)

lemma answer_204: "parse_if_none_match inm = Some e \<Longrightarrow> answer_ok sha256 inm (build_204_response e)"
  by (simp add: answer_ok_def build_204_response_def etag_header_def)

lemma start_ok:
  assumes "ready st \<longrightarrow> has_checksum sha256 (inner st)"
  shows "get_config_start st wait inm now = Inl resp \<Longrightarrow> answer_ok sha256 inm resp"
    and "get_config_start st wait inm now = Inr (e, d) \<Longrightarrow> parse_if_none_match inm = Some e \<and> ready st"
  using assms answer_200 [of sha256 "inner st" inm]
  by (auto simp: get_config_start_def Let_def answer_ok_def build_304_response_def build_400_response_def
      build_503_response_def etag_header_def split: if_splits)

lemma handler_step_inv: "handler_step wait inm p p' \<Longrightarrow> poll_inv sha256 inm p \<Longrightarrow> poll_inv sha256 inm p'"
proof (induction rule: handler_step.induct)
  case (start_done p resp)
  then show ?case using start_ok(1) [of "ps_relay p" sha256 wait inm "ps_now p" resp] by (simp add: poll_inv_def)
next
  case (start_poll p etag deadline)
  then show ?case using start_ok(2) [of "ps_relay p" sha256 wait inm "ps_now p" etag deadline] by (simp add: poll_inv_def)
qed (auto simp: poll_inv_def answer_200 answer_204)

lemma world_step_inv: "world_step sha256 p p' \<Longrightarrow> poll_inv sha256 inm p \<Longrightarrow> poll_inv sha256 inm p'"
  by (induction rule: world_step.induct) (auto simp: poll_inv_def has_checksum_def)

lemma poll_steps_inv:
  "rtranclp (poll_step sha256 wait inm) p p' \<Longrightarrow> poll_inv sha256 inm p \<Longrightarrow> poll_inv sha256 inm p'"
  by (induction rule: rtranclp_induct) (auto simp: poll_step_def dest: handler_step_inv world_step_inv)

text \<open>
  C36: what \<open>get_config\<close> answers, whatever is published while it runs. An artifact is sent with the ETag of the
  bytes in the body; \<open>204\<close> and \<open>304\<close> have no body and repeat the ETag of the client's own valid
  \<open>If-None-Match\<close>; there is no other answer but \<open>400\<close> and \<open>503\<close>.
\<close>

theorem get_config_answers:
  assumes "ps_pc p = Poll_Start" "ps_pending p = None" "ready (ps_relay p) \<longrightarrow> has_checksum sha256 (inner (ps_relay p))"
    and "rtranclp (poll_step sha256 wait inm) p p'" "ps_pc p' = Poll_Done resp"
  shows "answer_ok sha256 inm resp"
  using poll_steps_inv [OF assms(4)] assms by (auto simp: poll_inv_def)

text \<open>A relay that serves version 7, with a hash that tells artifacts of different length apart.\<close>

definition length_sha :: "bytes \<Rightarrow> bytes" where
  "length_sha bs = replicate 32 (of_nat (length bs))"

definition sample_poll :: poll_system where
  "sample_poll =
     \<lparr>ps_relay = (rl_state sample_relay)\<lparr>inner := (inner (rl_state sample_relay))
        \<lparr>artifact_checksum := checksum_for_bytes length_sha sample_artifact\<rparr>\<rparr>,
      ps_now = 0, ps_pending = None, ps_pc = Poll_Start\<rparr>"

definition sample_etag :: string where
  "sample_etag = checksum_for_bytes length_sha sample_artifact"

lemma sample_poll_facts:
  "ps_pc sample_poll = Poll_Start" "ps_pending sample_poll = None" "ready (ps_relay sample_poll)"
  "has_checksum length_sha (inner (ps_relay sample_poll))" "snapshot_etag (inner (ps_relay sample_poll)) = sample_etag"
  "long_poll_enabled (options (ps_relay sample_poll))" "snap_version (inner (ps_relay sample_poll)) = 7"
  "artifact_checksum (inner (ps_relay sample_poll)) = sample_etag"
  by (simp_all add: sample_poll_def sample_relay_def has_checksum_def snapshot_etag_def etag_of_checksum sample_etag_def Let_def)

lemma parse_sample_etag: "parse_if_none_match (Some (quote_etag sample_etag)) = Some sample_etag"
  using parse_own_etag [of length_sha sample_artifact] by (simp add: length_sha_def sample_etag_def)

theorem get_config_answers_witness:
  "\<exists>p'. rtranclp (poll_step length_sha None (Some (quote_etag sample_etag))) sample_poll p'
     \<and> ps_pc p' = Poll_Done (build_304_response sample_etag)
     \<and> answer_ok length_sha (Some (quote_etag sample_etag)) (build_304_response sample_etag)"
proof -
  let ?inm = "Some (quote_etag sample_etag)" and ?p = "sample_poll\<lparr>ps_pc := Poll_Done (build_304_response sample_etag)\<rparr>"
  have "get_config_start (ps_relay sample_poll) None ?inm (ps_now sample_poll) = Inl (build_304_response sample_etag)"
    by (simp add: get_config_start_def sample_poll_facts parse_sample_etag Let_def)
  then have step: "rtranclp (poll_step length_sha None ?inm) sample_poll ?p"
    by (intro r_into_rtranclp) (simp add: poll_step_def handler_step.start_done sample_poll_facts)
  have "answer_ok length_sha ?inm (build_304_response sample_etag)"
    by (rule get_config_answers [OF _ _ _ step]) (simp_all add: sample_poll_facts)
  with step show ?thesis by (intro exI [of _ ?p]) simp
qed

text \<open>
  While nothing is published, a waiter that has already counted the last wake-up can only time out.
\<close>

lemma waiting_only_times_out:
  assumes "rtranclp (\<lambda>p p'. poll_step sha256 wait inm p p' \<and> inner (ps_relay p') = inner (ps_relay p)) q q'"
    and "ps_pc q = Poll_Waiting e d (notify (ps_relay q))" "ps_pending q = None"
  shows "ps_pending q' = None \<and> notify (ps_relay q') = notify (ps_relay q)
    \<and> (ps_pc q' = Poll_Waiting e d (notify (ps_relay q)) \<or> ps_pc q' = Poll_Done (build_204_response e))"
  using assms
proof (induction rule: rtranclp_induct)
  case (step y z)
  then have y: "ps_pending y = None" "notify (ps_relay y) = notify (ps_relay q)"
    "ps_pc y = Poll_Waiting e d (notify (ps_relay q)) \<or> ps_pc y = Poll_Done (build_204_response e)" by blast+
  from step(2) have "handler_step wait inm y z \<or> world_step sha256 y z" "inner (ps_relay z) = inner (ps_relay y)"
    by (auto simp: poll_step_def)
  then show ?case
  proof (elim disjE)
    assume "handler_step wait inm y z"
    then show ?thesis using y by cases auto
  next
    assume "world_step sha256 y z" "inner (ps_relay z) = inner (ps_relay y)"
    then show ?thesis using y by cases (auto simp: execute_plan_def split: if_splits dest: arg_cong [where f = snap_version])
  qed
qed simp

lemma lost_update_run:
  defines "inm \<equiv> Some (quote_etag sample_etag)"
  shows "\<exists>p. rtranclp (poll_step length_sha (Some 1000) inm) sample_poll p \<and> ps_pending p = None
    \<and> ps_pc p = Poll_Check sample_etag (from_millis 1000) \<and> ps_now p = 0
    \<and> snapshot_etag (inner (ps_relay p)) = checksum_for_bytes length_sha [1]"
proof -
  let ?step = "poll_step length_sha (Some 1000) inm"
  define p1 where "p1 = sample_poll\<lparr>ps_pc := Poll_Check sample_etag (from_millis 1000),
    ps_relay := (ps_relay sample_poll)\<lparr>metrics := inc_long_poll_wait (metrics (ps_relay sample_poll))\<rparr>\<rparr>"
  define art where "art = \<lparr>art_bytes = [1], art_meta = relay_meta_empty, generated_at = 0\<rparr>"
  define p2 where "p2 = p1\<lparr>ps_pending := Some (artifact_checksum (inner (ps_relay p1)) \<noteq> checksum_for_bytes length_sha [1]),
    ps_relay := (ps_relay p1)\<lparr>inner := \<lparr>snap_version = 8, snap_artifact = art, updated_at = 0,
      artifact_checksum = checksum_for_bytes length_sha [1]\<rparr>, history := (history (ps_relay p1))(8 \<mapsto> art)\<rparr>\<rparr>"
  define b where "b = (artifact_checksum (inner (ps_relay p1)) \<noteq> checksum_for_bytes length_sha [1])"
  define p3 where "p3 = p2\<lparr>ps_pending := None, ps_relay := (ps_relay p2)
    \<lparr>notify := (if b then notify (ps_relay p2) + 1 else notify (ps_relay p2)), ready := True\<rparr>\<rparr>"
  have now: "ps_now sample_poll = 0" by (simp add: sample_poll_def)
  have "get_config_start (ps_relay sample_poll) (Some 1000) inm (ps_now sample_poll)
      = Inr (sample_etag, from_millis 1000)"
    by (simp add: get_config_start_def sample_poll_facts parse_sample_etag inm_def now Let_def)
  then have 1: "?step sample_poll p1"
    by (simp add: poll_step_def p1_def handler_step.start_poll sample_poll_facts)
  have 2: "?step p1 p2"
    unfolding poll_step_def p2_def
    by (intro disjI2 world_step.write_snapshot [where meta = relay_meta_empty])
      (simp_all add: p1_def art_def execute_plan_def sample_poll_facts)
  have 3: "?step p2 p3"
    unfolding poll_step_def p3_def by (intro disjI2 world_step.wake) (simp add: p2_def b_def)
  from 1 2 3 have "rtranclp ?step sample_poll p3"
    by (meson converse_rtranclp_into_rtranclp rtranclp.rtrancl_refl)
  moreover have "ps_pending p3 = None" "ps_pc p3 = Poll_Check sample_etag (from_millis 1000)" "ps_now p3 = 0"
    "snapshot_etag (inner (ps_relay p3)) = checksum_for_bytes length_sha [1]"
    by (simp_all add: p3_def p2_def p1_def now snapshot_etag_def etag_of_checksum)
  ultimately show ?thesis by blast
qed

text \<open>
  C40: the long poll can miss an update. Let a publication be complete after the handler read the snapshot and before it asks for
  notifications: the handler is about to look at its deadline for an etag that is not the one served any more, the deadline has not passed,
  and no publisher has a wake-up left to do. Then, as long as nothing more is published, the only answer that can follow is \<open>204\<close> with the old
  ETag, although the relay serves another artifact all the time.
\<close>

theorem long_poll_misses_update:
  assumes "ps_pc p = Poll_Check etag deadline" "ps_now p < deadline" "ps_pending p = None" "snapshot_etag (inner (ps_relay p)) \<noteq> etag"
    and "handler_step wait inm p q"
    and "rtranclp (\<lambda>x y. poll_step sha256 wait inm x y \<and> inner (ps_relay y) = inner (ps_relay x)) q q'" "ps_pc q' = Poll_Done resp"
  shows "resp = build_204_response etag \<and> snapshot_etag (inner (ps_relay q')) \<noteq> etag"
proof -
  from assms(5,1,2) have q: "q = p\<lparr>ps_pc := Poll_Waiting etag deadline (notify (ps_relay p))\<rparr>" by cases auto
  then have w: "ps_pc q = Poll_Waiting etag deadline (notify (ps_relay q))" "ps_pending q = None" using assms(3) by simp_all
  have "inner (ps_relay q') = inner (ps_relay q)" using assms(6) by (induction rule: rtranclp_induct) auto
  with waiting_only_times_out [OF assms(6) w] assms(4,7) q show ?thesis by auto
qed

theorem long_poll_misses_update_witness:
  "\<exists>p q q'. rtranclp (poll_step length_sha (Some 1000) (Some (quote_etag sample_etag))) sample_poll p
     \<and> handler_step (Some 1000) (Some (quote_etag sample_etag)) p q
     \<and> rtranclp (\<lambda>x y. poll_step length_sha (Some 1000) (Some (quote_etag sample_etag)) x y \<and> inner (ps_relay y) = inner (ps_relay x)) q q'
     \<and> ps_pc q' = Poll_Done (build_204_response sample_etag) \<and> snapshot_etag (inner (ps_relay q')) \<noteq> sample_etag"
proof -
  let ?step = "poll_step length_sha (Some 1000) (Some (quote_etag sample_etag))"
  obtain p where p: "rtranclp ?step sample_poll p" "ps_pending p = None" "ps_pc p = Poll_Check sample_etag (from_millis 1000)"
    "ps_now p = 0" "snapshot_etag (inner (ps_relay p)) = checksum_for_bytes length_sha [1]"
    using lost_update_run by blast
  have "length sample_artifact = 64"
    by (simp add: sample_artifact_def length_header_bytes header_wf_def header_default_def PAVIS_MAGIC_def HEADER_SIZE_def)
  then have "sample_etag \<noteq> checksum_for_bytes length_sha [1]"
    by (simp add: sample_etag_def checksum_for_bytes_def length_sha_def to_hex_inj)
  with p(5) have new: "snapshot_etag (inner (ps_relay p)) \<noteq> sample_etag" by simp
  have now: "ps_now p < from_millis 1000" by (simp add: p(4) from_millis_def)
  define q where "q = p\<lparr>ps_pc := Poll_Waiting sample_etag (from_millis 1000) (notify (ps_relay p))\<rparr>"
  define q1 where "q1 = q\<lparr>ps_now := from_millis 1000\<rparr>"
  define q' where "q' = q1\<lparr>ps_pc := Poll_Done (build_204_response sample_etag)\<rparr>"
  have h: "handler_step (Some 1000) (Some (quote_etag sample_etag)) p q"
    unfolding q_def by (rule handler_step.notified [OF p(3) now])
  have 1: "?step q q1"
    unfolding poll_step_def q1_def by (intro disjI2 world_step.tick) (simp add: q_def p(4))
  have 2: "?step q1 q'"
    unfolding poll_step_def q'_def
    by (rule disjI1, rule handler_step.timeout [where deadline = "from_millis 1000" and seen = "notify (ps_relay p)"]) (simp_all add: q1_def q_def)
  have same: "inner (ps_relay q1) = inner (ps_relay q)" "inner (ps_relay q') = inner (ps_relay q1)" by (simp_all add: q'_def q1_def)
  have run: "rtranclp (\<lambda>x y. ?step x y \<and> inner (ps_relay y) = inner (ps_relay x)) q q'"
    using 1 2 same by (intro converse_rtranclp_into_rtranclp [of _ q q1] r_into_rtranclp [of _ q1 q']) simp_all
  have "ps_pc q' = Poll_Done (build_204_response sample_etag)" by (simp add: q'_def)
  with long_poll_misses_update [OF p(3) now p(2) new h run] p(1) h run show ?thesis by blast
qed

text \<open>What a relay serves.\<close>

definition serving :: "relay \<Rightarrow> RelaySnapshot \<times> (u64 \<rightharpoonup> RelayArtifact) \<times> nat \<times> bool" where
  "serving r = (inner (rl_state r), history (rl_state r), notify (rl_state r), ready (rl_state r))"

lemma publish_bytes_refused:
  "enforce_limits (rl_state r) (length bs) = Inl e \<Longrightarrow> publish_bytes env j sha256 rk bs r = (Inl e, r)"
  "enforce_limits (rl_state r) (length bs) = Inr () \<Longrightarrow> verify_owned sha256 rk bs = Inl c \<Longrightarrow> publish_bytes env j sha256 rk bs r = (Inl (Config c), r)"
  by (simp_all add: publish_bytes_def st_bind_def st_result_def)

text \<open>The size limit, when one is set.\<close>

definition within_limit :: "RelayRuntimeState \<Rightarrow> nat \<Rightarrow> bool" where
  "within_limit st n \<longleftrightarrow> max_pvs_bytes (options st) = 0 \<or> of_nat n \<le> max_pvs_bytes (options st)"

lemma enforce_limits_iff: "(enforce_limits st n = Inr ()) = within_limit st n"
  "\<not> within_limit st n \<Longrightarrow> \<exists>a b. enforce_limits st n = Inl (Policy a b)"
  by (auto simp: enforce_limits_def within_limit_def Let_def not_le word_gt_0)


end
