(* ===== verification/Relay_Pipeline.thy ===== *)
theory Relay_Pipeline
  imports Relay_Runtime Core_Validate
begin

text \<open>
  The pipeline that turns artifacts of the ingest into publications: the data and the codec interface
  (crates/pavis-ingest-api/src/lib.rs, crates/pavis-codec-api/src/lib.rs), the choice of the codec by format
  (crates/pavis-relay/src/codec.rs), the handling of one artifact (pipeline/artifact.rs), the backoff
  (pipeline/backoff.rs) and the loop (pipeline/loop\_logic.rs). A codec is the record of its methods. The text of an
  error is kept as the error it is made from.
\<close>

section \<open>Artifacts and codecs\<close>

datatype Format = Yaml | Json | XdsDelta | XdsState | Crd | Unknown

record SourceInfo =
  src_name :: string
  src_labels :: "(string \<times> string) list"

definition source_info_new :: "string \<Rightarrow> SourceInfo" where
  "source_info_new name = \<lparr>src_name = name, src_labels = []\<rparr>"

definition source_info_unknown :: SourceInfo where
  "source_info_unknown = \<lparr>src_name = ''unknown'', src_labels = []\<rparr>"

record Artifact =
  ar_bytes :: bytes
  ar_format :: Format
  ar_source :: SourceInfo
  ar_version :: "string option"
  ar_etag :: "string option"
  received_at :: nat
  content_type :: "string option"

definition artifact_new :: "nat \<Rightarrow> bytes \<Rightarrow> Format \<Rightarrow> SourceInfo \<Rightarrow> Artifact" where
  "artifact_new now bs fmt src =
     \<lparr>ar_bytes = bs, ar_format = fmt, ar_source = src, ar_version = None, ar_etag = None, received_at = now,
      content_type = None\<rparr>"

definition with_content_type :: "string \<Rightarrow> Artifact \<Rightarrow> Artifact" where
  "with_content_type ct a = a\<lparr>content_type := Some ct\<rparr>"

datatype IngestError =
    IngestIo string
  | Transport string
  | Auth string
  | Watch string
  | Reconnect string
  | IngestBackoff string
  | IngestUpstream string

datatype CodecError = Check string | Compile string | Core CoreValidationError

datatype CompactionLevel = Level_Off | Level_Trim | Level_Prune

record 's CheckedArtifact =
  ca_artifact :: Artifact
  ca_state :: "'s option"

record 's codec =
  codec_check :: "Artifact \<Rightarrow> CodecError + 's CheckedArtifact"
  codec_compile :: "'s CheckedArtifact \<Rightarrow> CodecError + RuntimeConfig"
  codec_compact :: "CompactionLevel \<Rightarrow> RuntimeConfig \<Rightarrow> RuntimeConfig"

definition materialize ::
  "externs \<Rightarrow> 's codec \<Rightarrow> Artifact \<Rightarrow> CompactionLevel \<Rightarrow> regex_cache \<Rightarrow> (CodecError + RuntimeConfig) \<times> regex_cache" where
  "materialize ext cd art level cache =
     (case and_then (codec_check cd art) (codec_compile cd) of
        Inl e \<Rightarrow> (Inl e, cache)
      | Inr cfg \<Rightarrow>
          (case validate_runtime ext cache (if level \<noteq> Level_Off then codec_compact cd level cfg else cfg) of
             (res, cache') \<Rightarrow> (map_err Core res, cache')))"

text \<open>\<open>AutoSerdeCodec\<close>: the serde codec of the artifact's format, without compaction.\<close>

datatype SerdeFormat = Serde_Yaml | Serde_Json

definition codec_for_format :: "(SerdeFormat \<Rightarrow> 's codec) \<Rightarrow> Format \<Rightarrow> CodecError + 's codec" where
  "codec_for_format serde fmt =
     (case fmt of
        Yaml \<Rightarrow> Inr (serde Serde_Yaml)
      | Json \<Rightarrow> Inr (serde Serde_Json)
      | other \<Rightarrow> Inl (Check ''Unsupported format''))"

definition auto_serde_codec :: "(SerdeFormat \<Rightarrow> 's codec) \<Rightarrow> 's codec" where
  "auto_serde_codec serde =
     \<lparr>codec_check = (\<lambda>art. and_then (codec_for_format serde (ar_format art)) (\<lambda>cd. codec_check cd art)),
      codec_compile = (\<lambda>checked. and_then (codec_for_format serde (ar_format (ca_artifact checked)))
        (\<lambda>cd. codec_compile cd checked)),
      codec_compact = (\<lambda>level cfg. cfg)\<rparr>"

fun compaction_level :: "PipelineCompaction \<Rightarrow> CompactionLevel" where
  "compaction_level Compaction_Off = Level_Off"
| "compaction_level Compaction_Trim = Level_Trim"
| "compaction_level Compaction_Prune = Level_Prune"

section \<open>One artifact (pipeline/artifact.rs)\<close>

text \<open>
  The loop of \<open>publish_with_retry\<close>; \<open>pub\<close> is the call of \<open>publish_config\<close>, \<open>slept\<close> the sleeps so far. The
  attempt counter is a 32-bit word that wraps, so the loop is a partial function.
\<close>

partial_function (option) publish_with_retry ::
  "(relay, RelayError, u64) st \<Rightarrow> Relay_Config.RetryPolicy \<Rightarrow> u32 \<Rightarrow> duration \<Rightarrow> duration list \<Rightarrow> relay
   \<Rightarrow> ((RelayError + u64) \<times> duration list \<times> relay) option" where
  "publish_with_retry pub policy attempt delay slept r =
     (case pub r of
        (Inr version, r') \<Rightarrow> Some (Inr version, slept, r')
      | (Inl err, r') \<Rightarrow>
          if attempt + 1 \<le> pub_max_attempts policy
          then publish_with_retry pub policy (attempt + 1)
                 (min (duration_saturating_mul delay 2) (pub_max_delay policy)) (slept @ [delay]) r'
          else Some (Inl err, slept, r'))"

datatype handle_error = StreamFailed IngestError | MaterializeFailed CodecError | PublishFailed RelayError

definition handle_artifact ::
  "externs \<Rightarrow> 's codec \<Rightarrow> (RuntimeConfig \<Rightarrow> (relay, RelayError, u64) st) \<Rightarrow> PipelineCompaction \<Rightarrow> Relay_Config.RetryPolicy
   \<Rightarrow> IngestError + Artifact \<Rightarrow> relay \<Rightarrow> regex_cache \<Rightarrow> ((handle_error + unit) \<times> relay \<times> regex_cache) option" where
  "handle_artifact ext cd pub compact_mode retry result r cache =
     (case result of
        Inl e \<Rightarrow> Some (Inl (StreamFailed e), r, cache)
      | Inr art \<Rightarrow>
          (case materialize ext cd art (compaction_level compact_mode) cache of
             (Inl e, cache') \<Rightarrow> Some (Inl (MaterializeFailed e), r, cache')
           | (Inr config, cache') \<Rightarrow>
               (case publish_with_retry (pub config) retry 0 (pub_base_delay retry) [] r of
                  None \<Rightarrow> None
                | Some (Inl e, slept, r') \<Rightarrow> Some (Inl (PublishFailed e), r', cache')
                | Some (Inr version, slept, r') \<Rightarrow> Some (Inr (), r', cache'))))"

section \<open>The loop (pipeline/backoff.rs, pipeline/loop\_logic.rs)\<close>

record Backoff =
  bo_config :: BackoffConfig
  bo_next :: duration

definition backoff_new :: "BackoffConfig \<Rightarrow> Backoff" where
  "backoff_new c = \<lparr>bo_config = c, bo_next = base_delay c\<rparr>"

definition backoff_reset :: "Backoff \<Rightarrow> Backoff" where
  "backoff_reset b = b\<lparr>bo_next := base_delay (bo_config b)\<rparr>"

definition next_delay :: "Backoff \<Rightarrow> duration \<times> Backoff" where
  "next_delay b =
     (bo_next b, b\<lparr>bo_next := min (duration_saturating_mul (bo_next b) 2) (max_delay (bo_config b))\<rparr>)"

text \<open>
  Where the loop is: about to ask for a stream, reading one with \<open>n\<close> artifacts in flight
  (\<open>buffer_unordered\<close>) and possibly nothing more to come, asleep before the next try, or ended.
\<close>

datatype pipeline_pc = Connecting | Streaming nat bool | Sleeping duration | Ended

record pipeline_state =
  pp_pc :: pipeline_pc
  pp_backoff :: Backoff
  pp_shutdown :: bool

definition pipeline_start :: "PipelineOptions \<Rightarrow> pipeline_state" where
  "pipeline_start opts = \<lparr>pp_pc = Connecting, pp_backoff = backoff_new (restart_backoff opts), pp_shutdown = False\<rparr>"

inductive pipeline_step :: "PipelineOptions \<Rightarrow> pipeline_state \<Rightarrow> pipeline_state \<Rightarrow> bool" for opts where
  signal: "pipeline_step opts p (p\<lparr>pp_shutdown := True\<rparr>)"
| stop_requested: "pp_pc p = Connecting \<Longrightarrow> pp_shutdown p \<Longrightarrow> pipeline_step opts p (p\<lparr>pp_pc := Ended\<rparr>)"
| stream_failed: "pp_pc p = Connecting \<Longrightarrow> \<not> pp_shutdown p \<Longrightarrow> next_delay (pp_backoff p) = (d, b) \<Longrightarrow>
    pipeline_step opts p (p\<lparr>pp_pc := Sleeping d, pp_backoff := b\<rparr>)"
| stream_started: "pp_pc p = Connecting \<Longrightarrow> \<not> pp_shutdown p \<Longrightarrow>
    pipeline_step opts p (p\<lparr>pp_pc := Streaming 0 False, pp_backoff := backoff_reset (pp_backoff p)\<rparr>)"
| artifact_begins: "pp_pc p = Streaming n False \<Longrightarrow> n < max (max_in_flight opts) 1 \<Longrightarrow>
    pipeline_step opts p (p\<lparr>pp_pc := Streaming (n + 1) False\<rparr>)"
| artifact_ends: "pp_pc p = Streaming (n + 1) over \<Longrightarrow> pipeline_step opts p (p\<lparr>pp_pc := Streaming n over\<rparr>)"
| stream_exhausted: "pp_pc p = Streaming n False \<Longrightarrow> n < max (max_in_flight opts) 1 \<Longrightarrow>
    pipeline_step opts p (p\<lparr>pp_pc := Streaming n True\<rparr>)"
| stream_over: "pp_pc p = Streaming 0 True \<Longrightarrow> next_delay (pp_backoff p) = (d, b) \<Longrightarrow>
    pipeline_step opts p (p\<lparr>pp_pc := Sleeping d, pp_backoff := b\<rparr>)"
| slept: "pp_pc p = Sleeping d \<Longrightarrow> pipeline_step opts p (p\<lparr>pp_pc := Connecting\<rparr>)"
| stopped: "pp_pc p = Streaming n over \<or> pp_pc p = Sleeping d \<Longrightarrow> pp_shutdown p \<Longrightarrow>
    pipeline_step opts p (p\<lparr>pp_pc := Ended\<rparr>)"

section \<open>Retried publications\<close>

text \<open>The specification: at most \<open>n\<close> more calls after the first, up to the first success.\<close>

fun attempts :: "(relay, RelayError, u64) st \<Rightarrow> nat \<Rightarrow> (relay, RelayError, u64) st" where
  "attempts pub 0 r = pub r"
| "attempts pub (Suc n) r = (case pub r of (Inr v, r') \<Rightarrow> (Inr v, r') | (Inl e, r') \<Rightarrow> attempts pub n r')"

definition doubled :: "duration \<Rightarrow> duration \<Rightarrow> nat \<Rightarrow> duration" where
  "doubled base cap i = (if i = 0 then base else min (base * 2 ^ i) cap)"

lemma doubled_Suc:
  "cap \<le> duration_max \<Longrightarrow> min (duration_saturating_mul (doubled base cap i) 2) cap = doubled base cap (Suc i)"
  by (auto simp: doubled_def duration_saturating_mul_def min_def)

text \<open>How many of the calls that may still follow are made: one after each failure, as long as some are left.\<close>

fun retries :: "(relay, RelayError, u64) st \<Rightarrow> nat \<Rightarrow> relay \<Rightarrow> nat" where
  "retries pub 0 r = 0"
| "retries pub (Suc n) r = (case pub r of (Inl e, r') \<Rightarrow> Suc (retries pub n r') | (Inr v, r') \<Rightarrow> 0)"

lemma publish_with_retry_loop:
  assumes "pub_max_delay policy \<le> duration_max" "attempt + of_nat n = pub_max_attempts policy"
    and "unat attempt + n < 2 ^ 32 - 1"
  shows "publish_with_retry pub policy attempt (doubled (pub_base_delay policy) (pub_max_delay policy) i) slept r
    = Some (fst (attempts pub n r),
        slept @ map (doubled (pub_base_delay policy) (pub_max_delay policy)) [i ..< i + retries pub n r], snd (attempts pub n r))"
  using assms
proof (induction n arbitrary: attempt i slept r)
  case 0
  then have "attempt \<noteq> - 1" by (auto simp: unat_max_word)
  then have "\<not> attempt + 1 \<le> attempt" using word_less_succ [of attempt] by auto
  with 0 show ?case
    by (subst publish_with_retry.simps) (auto split: prod.splits sum.splits)
next
  case (Suc n)
  have next': "attempt + 1 + of_nat n = pub_max_attempts policy" using Suc.prems(2) by (simp add: algebra_simps)
  have un: "unat (attempt + 1) = unat attempt + 1" using Suc.prems(3) by (simp add: unat_word_ariths)
  have "unat (attempt + 1 + of_nat n) = unat attempt + 1 + n"
    using Suc.prems(3) by (simp add: unat_word_ariths un unat_of_nat)
  then have le: "attempt + 1 \<le> pub_max_attempts policy"
    unfolding next' [symmetric] by (simp add: word_le_nat_alt un)
  show ?case
  proof (cases "pub r")
    case (Pair res r')
    show ?thesis
    proof (cases res)
      case (Inl e)
      note IH = Suc.IH [OF Suc.prems(1) next', of "Suc i" "slept @ [doubled (pub_base_delay policy) (pub_max_delay policy) i]" r']
      have "[i ..< i + Suc m] = i # [Suc i ..< Suc i + m]" for m by (simp add: upt_conv_Cons)
      with IH Suc.prems(3) Pair Inl le show ?thesis
        by (subst publish_with_retry.simps) (simp add: doubled_Suc [OF Suc.prems(1)] un)
    next
      case (Inr v)
      with Pair show ?thesis by (subst publish_with_retry.simps) simp
    qed
  qed
qed

lemma publish_with_retry_ends_at:
  assumes "pub_max_attempts policy \<noteq> - 1" "pub_max_delay policy \<le> duration_max"
  shows "publish_with_retry pub policy 0 (pub_base_delay policy) [] r
    = Some (fst (attempts pub (unat (pub_max_attempts policy)) r),
        map (doubled (pub_base_delay policy) (pub_max_delay policy)) [0 ..< retries pub (unat (pub_max_attempts policy)) r],
        snd (attempts pub (unat (pub_max_attempts policy)) r))"
proof -
  have "unat (pub_max_attempts policy) < 2 ^ 32 - 1"
    using assms(1) unat_less_exp [of "pub_max_attempts policy"] word_less_succ [of "pub_max_attempts policy"]
    by (auto simp: word_unat_eq_iff unat_max_word)
  then show ?thesis
    using publish_with_retry_loop [OF assms(2), of 0 "unat (pub_max_attempts policy)" pub 0 "[]" r]
    by (simp add: doubled_def)
qed

text \<open>
  C38: a publication is retried as configured and the loop ends. Unless \<open>max_attempts\<close> is the greatest 32-bit number, the
  outcome is that of the first successful call or of the last of \<open>max_attempts + 1\<close> calls; the loop sleeps exactly once after each failed
  call but the last of these, for the base delay, then for its doublings up to the maximal delay.
\<close>

theorem publish_with_retry_ends:
  assumes "pub_max_attempts policy \<noteq> - 1" "pub_max_delay policy \<le> duration_max"
  shows "publish_with_retry pub policy 0 (pub_base_delay policy) [] r
    = Some (fst (attempts pub (unat (pub_max_attempts policy)) r),
        map (doubled (pub_base_delay policy) (pub_max_delay policy)) [0 ..< retries pub (unat (pub_max_attempts policy)) r],
        snd (attempts pub (unat (pub_max_attempts policy)) r))"
  using assms by (rule publish_with_retry_ends_at)

definition eager_policy :: Relay_Config.RetryPolicy where
  "eager_policy = \<lparr>pub_max_attempts = 2, pub_base_delay = 250, pub_max_delay = 400\<rparr>"

definition failing_publish :: "(relay, RelayError, u64) st" where
  "failing_publish r = (Inl (Http ''down''), r)"

theorem publish_with_retry_ends_witness:
  "publish_with_retry failing_publish eager_policy 0 250 [] sample_relay = Some (Inl (Http ''down''), [250, 400], sample_relay)"
proof -
  have two: "unat (2 :: u32) = Suc (Suc 0)" by simp
  have "attempts failing_publish (unat (2 :: u32)) sample_relay = (Inl (Http ''down''), sample_relay)"
    "retries failing_publish (unat (2 :: u32)) sample_relay = 2"
    unfolding two by (simp_all add: failing_publish_def)
  with publish_with_retry_ends [of eager_policy failing_publish sample_relay]
  show ?thesis by (simp add: eager_policy_def duration_max_def doubled_def upt_rec)
qed

section \<open>What an artifact can change\<close>

lemma attempts_induct:
  assumes "attempts pub n r = (x, r')" "P r"
    and fail: "\<And>s e s'. P s \<Longrightarrow> pub s = (Inl e, s') \<Longrightarrow> P s'"
    and ok: "\<And>s v s'. P s \<Longrightarrow> pub s = (Inr v, s') \<Longrightarrow> Q s'"
  shows "case x of Inl _ \<Rightarrow> P r' | Inr _ \<Rightarrow> Q r'"
  using assms(1,2)
proof (induction n arbitrary: r)
  case 0
  with fail ok show ?case by (auto split: sum.splits)
next
  case (Suc n)
  show ?case
  proof (cases "pub r")
    case (Pair res s)
    show ?thesis
    proof (cases res)
      case (Inl e)
      with Suc Pair fail show ?thesis by auto
    next
      case (Inr v)
      with Suc Pair ok show ?thesis by auto
    qed
  qed
qed

lemma publish_config_state:
  "case publish_config env j sha256 rk config r of
     (Inl e, r') \<Rightarrow> rl_state r' = rl_state r
   | (Inr v, r') \<Rightarrow> (\<exists>bs. encode sha256 rk config = Inr bs \<and> art_bytes (snap_artifact (inner (rl_state r'))) = bs)"
proof (cases "encode sha256 rk config")
  case (Inr bs)
  obtain x r' where "publish_bytes env j sha256 rk bs r = (x, r')" by fastforce
  with Inr publish_bytes_served [of r sha256 bs rk env j] show ?thesis
    by (cases x) (auto simp: publish_config_def st_bind_def st_result_def st_ok_def install_def Let_def)
qed (simp add: publish_config_def st_bind_def st_result_def)

lemma retried_publication_state:
  assumes "pub_max_attempts policy \<noteq> - 1" "pub_max_delay policy \<le> duration_max"
    and "publish_with_retry (publish_config env j sha256 rk config) policy 0 (pub_base_delay policy) [] r = Some (x, slept, r')"
  shows "case x of Inl _ \<Rightarrow> rl_state r' = rl_state r
    | Inr _ \<Rightarrow> encode sha256 rk config = Inr (art_bytes (snap_artifact (inner (rl_state r'))))"
proof -
  have "attempts (publish_config env j sha256 rk config) (unat (pub_max_attempts policy)) r = (x, r')"
    using publish_with_retry_ends_at [OF assms(1,2), of "publish_config env j sha256 rk config" r] assms(3)
    by (auto intro: prod_eqI)
  then show ?thesis
  proof (rule attempts_induct [where P = "\<lambda>s. rl_state s = rl_state r"])
    show "rl_state s' = rl_state r" if "rl_state s = rl_state r" "publish_config env j sha256 rk config s = (Inl e, s')" for s e s'
      using publish_config_state [of s sha256 rk config env j] that by simp
    show "encode sha256 rk config = Inr (art_bytes (snap_artifact (inner (rl_state s'))))"
      if "publish_config env j sha256 rk config s = (Inr v, s')" for s v s'
      using publish_config_state [of s sha256 rk config env j] that by auto
  qed simp
qed

lemma materialize_ok_iff:
  assumes "externs_ok ext" "cache_sound ext cache"
  shows "fst (materialize ext cd art level cache) = Inr config \<Longrightarrow> config_ok ext config"
  using validate_runtime_ok_iff [OF assms] assms
  by (auto simp: materialize_def result_simps split: sum.splits prod.splits) (metis fst_conv)

text \<open>
  C35: the relay's pipeline publishes only validated configurations. Unless \<open>max_attempts\<close> is the greatest 32-bit number, for which the
  retry loop need not end, handling what the ingest delivers ends; on an error, from
  the stream, the codec, the validation or the publication, the relay serves what it served before; on success
  it serves the encoding of a configuration that satisfies everything \<open>validate_runtime\<close> checks.
\<close>

theorem handle_artifact_publishes_valid:
  assumes "externs_ok ext" "cache_sound ext cache"
    and "pub_max_attempts retry \<noteq> - 1" "pub_max_delay retry \<le> duration_max"
  shows "\<exists>res r' cache'. handle_artifact ext cd (publish_config env j sha256 rk) comp_mode retry result r cache = Some (res, r', cache')
    \<and> (case res of
         Inl e \<Rightarrow> rl_state r' = rl_state r
       | Inr _ \<Rightarrow> (\<exists>config. config_ok ext config
           \<and> encode sha256 rk config = Inr (art_bytes (snap_artifact (inner (rl_state r'))))))"
proof (cases result)
  case (Inl e)
  then show ?thesis by (simp add: handle_artifact_def)
next
  case (Inr art)
  obtain x cache' where m: "materialize ext cd art (compaction_level comp_mode) cache = (x, cache')" by fastforce
  show ?thesis
  proof (cases x)
    case (Inl e)
    with m Inr show ?thesis by (simp add: handle_artifact_def)
  next
    case cfg: (Inr config)
    have ok: "config_ok ext config"
      using materialize_ok_iff [OF assms(1,2), of cd art "compaction_level comp_mode" config] m cfg by simp
    obtain y slept r' where p: "publish_with_retry (publish_config env j sha256 rk config) retry 0 (pub_base_delay retry) [] r
        = Some (y, slept, r')"
      using publish_with_retry_ends_at [OF assms(3,4)] by blast
    from retried_publication_state [OF assms(3,4) p] ok p m cfg Inr show ?thesis
      by (cases y) (auto simp: handle_artifact_def)
  qed
qed

text \<open>A publication that succeeds: without faults every write to an existing directory does, and the directories stay.\<close>

definition delivers :: "'a io \<Rightarrow> fs \<Rightarrow> 'a \<Rightarrow> bool" where
  "delivers m s v \<longleftrightarrow> (\<exists>s'. m s = (Inr v, s') \<and> dirs s' = dirs s)"

lemma delivers_bind: "delivers m s v \<Longrightarrow> (\<And>s'. dirs s' = dirs s \<Longrightarrow> delivers (k v) s' w) \<Longrightarrow> delivers (st_bind m k) s w"
  by (fastforce simp: delivers_def st_bind_def)

lemma delivers_ensure_dir:
  "calm env \<Longrightarrow> base \<in> set (dirs s) \<Longrightarrow> base @ [name] \<in> set (dirs s) \<Longrightarrow> delivers (ensure_dir env base name) s (base @ [name])"
  by (simp add: delivers_def ensure_dir_def ensure_existing_path_def canonicalize_def create_dir_def syscall_def calm_def path_exists_def
      st_defs Let_def)

lemma delivers_fsync: "calm env \<Longrightarrow> dir \<in> set (dirs s) \<Longrightarrow> delivers (fsync_dir env dir) s ()"
  by (simp add: delivers_def fsync_dir_def open_dir_def sync_all_def syscall_def calm_def path_exists_def st_defs Let_def)

lemma delivers_write:
  assumes "calm env" "dir \<in> set (dirs s)" "prefix root dir" "\<not> bad_file_name n" "dir @ [n] \<notin> set (dirs s)" "dir @ [n @ ''.tmp''] \<notin> set (dirs s)"
  shows "delivers (write_atomic_in_dir env root dir n bs) s ()"
proof -
  have "prefix root (dir @ [x])" for x using assms(3) by (rule prefix_prefix)
  with assms show ?thesis
    by (simp add: delivers_def write_atomic_in_dir_def write_and_rename_def file_create_def write_all_def sync_all_def fs_rename_def
        syscall_def calm_def st_defs update_conv' Let_def)
qed

definition plain_dir :: "path \<Rightarrow> fs \<Rightarrow> bool" where
  "plain_dir dir s \<longleftrightarrow> dir \<in> set (dirs s) \<and> (\<forall>n. dir @ [n] \<notin> set (dirs s))"

lemma delivers_pair:
  assumes "calm env" "base \<in> set (dirs s)" "plain_dir (base @ [name]) s" "\<not> bad_file_name a" "\<not> bad_file_name b" "meta_to_json j meta = Inr mj"
  shows "delivers (st_bind (ensure_dir env base name) (\<lambda>dir.
     st_bind (write_atomic_in_dir env base dir a bs) (\<lambda>_.
     st_bind (js (meta_to_json j meta)) (\<lambda>meta_json.
     st_bind (write_atomic_in_dir env base dir b meta_json) (\<lambda>_. fsync_dir env dir))))) s ()"
proof -
  have json: "delivers (st_result (Inr mj)) s' mj" for s' by (simp add: delivers_def st_defs)
  show ?thesis
    unfolding assms(6) using assms(1-5)
    by (auto simp: plain_dir_def intro!: delivers_bind [OF delivers_ensure_dir] delivers_bind [OF delivers_write] delivers_bind [OF json] delivers_fsync)
qed

definition constant_codec :: "unit codec" where
  "constant_codec = \<lparr>codec_check = \<lambda>art. Inr \<lparr>ca_artifact = art, ca_state = None\<rparr>, codec_compile = \<lambda>_. Inr sample_config,
     codec_compact = \<lambda>_ c. c\<rparr>"

definition constant_rkyv :: "(RuntimeConfig, unit) rkyv" where
  "constant_rkyv = \<lparr>rkyv_to_bytes = \<lambda>_. Inr [], rkyv_access = \<lambda>_. Inr (), rkyv_deserialize = \<lambda>_. Inr sample_config\<rparr>"

lemma sample_encodes: "encode flat_sha constant_rkyv sample_config = Inr sample_artifact"
  by (simp add: encode_eq constant_rkyv_def sample_artifact_def flat_sha_def header_default_def)

lemma sample_meta_8: "\<lparr>am_version = 7 + 1, published_at = 0, am_checksum = checksum_for_bytes flat_sha sample_artifact,
    am_size = of_nat (length sample_artifact)\<rparr> = sample_meta 8"
proof -
  have "length sample_artifact = 64"
    by (simp add: sample_artifact_def length_header_bytes header_wf_def header_default_def PAVIS_MAGIC_def HEADER_SIZE_def)
  then show ?thesis by (simp add: sample_meta_def)
qed

lemma sample_names: "\<not> bad_file_name (version_artifact_name 8)" "\<not> bad_file_name (version_metadata_name 8)"
  "\<not> bad_file_name LKG_ARTIFACT_FILE" "\<not> bad_file_name LKG_METADATA_FILE"
  by code_simp+

lemma sample_stores:
  assumes "dirs f = dirs sample_fs"
  shows "delivers (append_to_history calm_env sample_json [''data''] 8 sample_artifact (sample_meta 8)) f ()"
    "delivers (promote_to_lkg calm_env sample_json [''data''] sample_artifact (sample_meta 8)) f ()"
proof -
  have env: "calm calm_env" by (simp add: calm_def calm_env_def)
  have j: "meta_to_json sample_json (sample_meta 8) = Inr [8]" by (simp add: sample_json_def sample_meta_def)
  have d: "[''data''] \<in> set (dirs f)" "plain_dir ([''data''] @ [''history'']) f" "plain_dir ([''data''] @ [LKG_DIR]) f"
    by (simp_all add: assms sample_fs_def plain_dir_def LKG_DIR_def)
  show "delivers (append_to_history calm_env sample_json [''data''] 8 sample_artifact (sample_meta 8)) f ()"
    unfolding append_to_history_def ensure_history_dir_def by (rule delivers_pair [OF env d(1,2) sample_names(1,2) j])
  show "delivers (promote_to_lkg calm_env sample_json [''data''] sample_artifact (sample_meta 8)) f ()"
    unfolding promote_to_lkg_def ensure_lkg_dir_def by (rule delivers_pair [OF env d(1,3) sample_names(3,4) j])
qed

lemma sample_materializes:
  "\<exists>cache'. materialize sample_externs constant_codec art level \<lparr>cached = [], poisoned = False\<rparr> = (Inr sample_config, cache')"
proof -
  have "fst (validate_runtime sample_externs \<lparr>cached = [], poisoned = False\<rparr> sample_config) = Inr sample_config"
    using validate_runtime_ok_iff [OF sample_externs_ok] sample_config_ok by blast
  then show ?thesis by (cases "validate_runtime sample_externs \<lparr>cached = [], poisoned = False\<rparr> sample_config")
      (simp add: materialize_def constant_codec_def)
qed

lemma sample_publishes: "\<exists>r. publish_config calm_env sample_json flat_sha constant_rkyv sample_config sample_relay = (Inr 8, r)"
proof -
  have v: "verify_owned flat_sha constant_rkyv sample_artifact = Inr \<lparr>pvs_header = header_default, pvs_bytes = sample_artifact\<rparr>"
    using sample_artifact_verifies by (auto simp: verify_owned_def inspect_def constant_rkyv_def result_simps)
  obtain f1 where f1: "append_to_history calm_env sample_json [''data''] 8 sample_artifact (sample_meta 8) sample_fs = (Inr (), f1)"
    "dirs f1 = dirs sample_fs" using sample_stores(1) [of sample_fs] by (auto simp: delivers_def)
  obtain f2 where f2: "promote_to_lkg calm_env sample_json [''data''] sample_artifact (sample_meta 8) f1 = (Inr (), f2)"
    using sample_stores(2) [OF f1(2)] by (auto simp: delivers_def)
  obtain x f3 where f3: "save_state calm_env sample_json [''data''] \<lparr>current_version = 8\<rparr> f2 = (x, f3)" by fastforce
  have relay: "rl_fs sample_relay = sample_fs" "storage_root (options (rl_state sample_relay)) = [''data'']"
    "snap_version (inner (rl_state sample_relay)) = 7" "enforce_limits (rl_state sample_relay) n = Inr ()" for n
    by (simp_all add: sample_relay_def Let_def enforce_limits_def)
  have now: "now_at calm_env t = 0" for t by (simp add: calm_env_def)
  have meta: "am_version (sample_meta 8) = 8" by (simp add: sample_meta_def)
  show ?thesis
    by (simp add: publish_config_def sample_encodes publish_bytes_def publish_verified_def v relay now sample_meta_8 [simplified] meta f1 f2 f3
        st_defs on_fs_def clock_now_def on_state_def publish_def execute_plan_def Let_def)
qed

theorem handle_artifact_publishes_valid_witness:
  "\<exists>r' cache'. handle_artifact sample_externs constant_codec (publish_config calm_env sample_json flat_sha constant_rkyv)
      Compaction_Off eager_policy (Inr (artifact_new 0 [] Yaml source_info_unknown)) sample_relay \<lparr>cached = [], poisoned = False\<rparr>
      = Some (Inr (), r', cache')
    \<and> (\<exists>config. config_ok sample_externs config \<and> encode flat_sha constant_rkyv config = Inr (art_bytes (snap_artifact (inner (rl_state r')))))"
proof -
  let ?run = "handle_artifact sample_externs constant_codec (publish_config calm_env sample_json flat_sha constant_rkyv)
      Compaction_Off eager_policy (Inr (artifact_new 0 [] Yaml source_info_unknown)) sample_relay \<lparr>cached = [], poisoned = False\<rparr>"
  obtain r where r: "publish_config calm_env sample_json flat_sha constant_rkyv sample_config sample_relay = (Inr 8, r)"
    using sample_publishes by blast
  obtain cache' where m: "materialize sample_externs constant_codec (artifact_new 0 [] Yaml source_info_unknown) (compaction_level Compaction_Off)
      \<lparr>cached = [], poisoned = False\<rparr> = (Inr sample_config, cache')"
    using sample_materializes by blast
  have "?run = Some (Inr (), r, cache')"
    by (simp add: handle_artifact_def m [simplified] publish_with_retry.simps [of "publish_config _ _ _ _ _"] r)
  with handle_artifact_publishes_valid [OF sample_externs_ok, of eager_policy constant_codec calm_env sample_json flat_sha constant_rkyv
      Compaction_Off "Inr (artifact_new 0 [] Yaml source_info_unknown)" sample_relay]
  show ?thesis by (auto simp: eager_policy_def duration_max_def)
qed

section \<open>The pipeline loop\<close>

text \<open>
  The delays the backoff can hand out, and the invariant of the loop: no more artifacts in flight than
  configured, and while a stream is read the next restart waits for the base delay only.
\<close>

definition backoff_ok :: "PipelineOptions \<Rightarrow> duration \<Rightarrow> bool" where
  "backoff_ok opts d \<longleftrightarrow> (\<exists>i. d = doubled (base_delay (restart_backoff opts)) (max_delay (restart_backoff opts)) i)"

fun pc_bounded :: "PipelineOptions \<Rightarrow> Backoff \<Rightarrow> pipeline_pc \<Rightarrow> bool" where
  "pc_bounded opts b Connecting \<longleftrightarrow> True"
| "pc_bounded opts b (Streaming n over) \<longleftrightarrow>
     n \<le> max (max_in_flight opts) 1 \<and> bo_next b = base_delay (restart_backoff opts)"
| "pc_bounded opts b (Sleeping d) \<longleftrightarrow> backoff_ok opts d"
| "pc_bounded opts b Ended \<longleftrightarrow> True"

definition pipeline_inv :: "PipelineOptions \<Rightarrow> pipeline_state \<Rightarrow> bool" where
  "pipeline_inv opts p \<longleftrightarrow>
     bo_config (pp_backoff p) = restart_backoff opts \<and> backoff_ok opts (bo_next (pp_backoff p))
     \<and> pc_bounded opts (pp_backoff p) (pp_pc p)"

lemma backoff_ok_base: "backoff_ok opts (base_delay (restart_backoff opts))"
  by (auto simp: backoff_ok_def doubled_def intro: exI [of _ 0])

lemma backoff_ok_next:
  "max_delay (restart_backoff opts) \<le> duration_max \<Longrightarrow> backoff_ok opts d \<Longrightarrow>
     backoff_ok opts (min (duration_saturating_mul d 2) (max_delay (restart_backoff opts)))"
  using doubled_Suc by (auto simp: backoff_ok_def)

lemma pipeline_step_inv:
  assumes "pipeline_step opts p p'" "pipeline_inv opts p" "max_delay (restart_backoff opts) \<le> duration_max"
  shows "pipeline_inv opts p'"
  using assms
  by cases (auto simp: pipeline_inv_def next_delay_def backoff_reset_def backoff_ok_base backoff_ok_next)

lemma pipeline_reachable_inv:
  assumes "rtranclp (pipeline_step opts) (pipeline_start opts) p" "max_delay (restart_backoff opts) \<le> duration_max"
  shows "pipeline_inv opts p"
  using assms(1)
proof (induction rule: rtranclp_induct)
  case base
  then show ?case by (simp add: pipeline_inv_def pipeline_start_def backoff_new_def backoff_ok_base)
next
  case (step p p')
  then show ?case using pipeline_step_inv assms(2) by blast
qed

text \<open>
  In every reachable state of the pipeline loop at most \<open>max(max_in_flight, 1)\<close> artifacts are in
  flight, and every pause before a new stream is the base delay or one of its doublings up to the maximal delay.
\<close>

theorem pipeline_bounded:
  assumes "rtranclp (pipeline_step opts) (pipeline_start opts) p" "max_delay (restart_backoff opts) \<le> duration_max"
  shows "(case pp_pc p of
      Streaming n over \<Rightarrow> n \<le> max (max_in_flight opts) 1
    | Sleeping d \<Rightarrow> \<exists>i. d = doubled (base_delay (restart_backoff opts)) (max_delay (restart_backoff opts)) i
    | _ \<Rightarrow> True)"
  using pipeline_reachable_inv [OF assms] by (auto simp: pipeline_inv_def backoff_ok_def split: pipeline_pc.splits)

theorem pipeline_bounded_witness:
  "\<exists>p i. rtranclp (pipeline_step (pipeline_options_from_config (pipeline relay_config_default)))
      (pipeline_start (pipeline_options_from_config (pipeline relay_config_default))) p
    \<and> pp_pc p = Sleeping (from_millis 500) \<and> from_millis 500 = doubled (from_millis 500) (from_millis 30000) i"
proof -
  let ?o = "pipeline_options_from_config (pipeline relay_config_default)"
  have o: "restart_backoff ?o = \<lparr>base_delay = from_millis 500, max_delay = from_millis 30000\<rparr>"
    by (simp add: pipeline_options_from_config_def relay_config_default_def pipeline_runtime_default_def
        restart_backoff_default_def Let_def)
  obtain b where b: "next_delay (pp_backoff (pipeline_start ?o)) = (from_millis 500, b)"
    by (simp add: next_delay_def pipeline_start_def backoff_new_def o)
  let ?p = "(pipeline_start ?o)\<lparr>pp_pc := Sleeping (from_millis 500), pp_backoff := b\<rparr>"
  have "pipeline_step ?o (pipeline_start ?o) ?p"
    by (rule pipeline_step.stream_failed [OF _ _ b]) (simp_all add: pipeline_start_def)
  then have run: "rtranclp (pipeline_step ?o) (pipeline_start ?o) ?p" by (rule r_into_rtranclp)
  from pipeline_bounded [OF run] obtain i where "from_millis 500 = doubled (from_millis 500) (from_millis 30000) i"
    by (auto simp: o duration_max_def from_millis_def)
  with run show ?thesis by (intro exI [of _ ?p] exI [of _ i]) simp
qed

end
