(* ===== verification/Header_Ops.thy ===== *)
theory Header_Ops
  imports Core_Types
begin

text \<open>
  The header policies of a route applied to a request or a response (crates/pavis/src/proxy/header\_ops.rs). A header
  map is the list of its fields with lowercase names; the order matters only among the values of one name.
  What the http crate accepts as a name, as a value from text and as a value from bytes is the parameter
  \<open>http_syntax\<close>. \<open>insert\<close> and \<open>append\<close> of a valid field do not fail.
\<close>

section \<open>Header maps\<close>

type_synonym header_map = "(string \<times> string) list"

record http_syntax =
  hn_ok :: "string \<Rightarrow> bool"
  hv_ok :: "string \<Rightarrow> bool"
  hb_ok :: "string \<Rightarrow> bool"

definition get_all :: "string \<Rightarrow> header_map \<Rightarrow> string list" where
  "get_all n h = map snd (filter (\<lambda>(k, _). k = n) h)"

definition remove_all :: "string \<Rightarrow> header_map \<Rightarrow> header_map" where
  "remove_all n h = filter (\<lambda>(k, _). k \<noteq> n) h"

definition insert_header :: "string \<Rightarrow> string \<Rightarrow> header_map \<Rightarrow> header_map" where
  "insert_header n v h = remove_all n h @ [(n, v)]"

definition append_header :: "string \<Rightarrow> string \<Rightarrow> header_map \<Rightarrow> header_map" where
  "append_header n v h = h @ [(n, v)]"

section \<open>The operations\<close>

definition NON_JOINABLE_HEADERS :: "string list" where
  "NON_JOINABLE_HEADERS = [''set-cookie'']"

definition is_non_joinable :: "string \<Rightarrow> bool" where
  "is_non_joinable name = list_ex (eq_ignore_ascii_case name) NON_JOINABLE_HEADERS"

text \<open>The loop over the values with its buffer and its flag, then the appended value.\<close>

definition build_joined_value :: "string list \<Rightarrow> string \<Rightarrow> string option" where
  "build_joined_value vals appended =
     (case fold (\<lambda>v (buf, saw_existing). ((if saw_existing then buf @ '', '' else buf) @ v, True)) vals ([], False) of
        (buf, saw_existing) \<Rightarrow> if \<not> saw_existing then None else Some (buf @ '', '' @ appended))"

definition apply_set :: "http_syntax \<Rightarrow> string \<times> string \<Rightarrow> header_map \<Rightarrow> header_map" where
  "apply_set lib nv h =
     (case nv of (name, val) \<Rightarrow>
        if hn_ok lib name \<and> hv_ok lib val then insert_header (to_ascii_lowercase name) val h else h)"

definition apply_append :: "http_syntax \<Rightarrow> string \<times> string \<Rightarrow> header_map \<Rightarrow> header_map" where
  "apply_append lib nv h =
     (case nv of (key, val) \<Rightarrow>
        if hn_ok lib key \<and> hv_ok lib val then
          let header_name = to_ascii_lowercase key in
          if is_non_joinable key then append_header header_name val h
          else case build_joined_value (get_all header_name h) val of
            None \<Rightarrow> insert_header header_name val h
          | Some buf \<Rightarrow>
              if hb_ok lib buf then insert_header header_name buf (remove_all header_name h) else h
        else h)"

definition apply_add :: "http_syntax \<Rightarrow> string \<times> string \<Rightarrow> header_map \<Rightarrow> header_map" where
  "apply_add lib nv h =
     (if get_all (to_ascii_lowercase (fst nv)) h = [] then apply_set lib nv h else h)"

definition apply_request_headers :: "http_syntax \<Rightarrow> HeadersPolicy \<Rightarrow> header_map \<Rightarrow> header_map" where
  "apply_request_headers lib policy req =
     (let req = insert_header ''x-proxy-by'' ''Pavis'' req in
      case policy of
        Headers_Disabled \<Rightarrow> req
      | Headers_Enabled rules \<Rightarrow>
          let req = fold (apply_set lib) (set_headers rules) req;
              req = fold (apply_append lib) (append_headers rules) req;
              req = fold (apply_add lib) (add_headers rules) req
          in fold (\<lambda>name. remove_all (to_ascii_lowercase name)) (remove_headers rules) req)"

definition apply_response_headers :: "http_syntax \<Rightarrow> HeadersPolicy \<Rightarrow> header_map \<Rightarrow> header_map" where
  "apply_response_headers lib policy resp =
     (let resp = insert_header ''x-proxy-by'' ''Pavis'' resp in
      case policy of
        Headers_Disabled \<Rightarrow> resp
      | Headers_Enabled rules \<Rightarrow>
          let resp = fold (apply_set lib) (set_headers rules) resp;
              resp = fold (apply_append lib) (append_headers rules) resp;
              resp = fold (apply_add lib) (add_headers rules) resp
          in fold (\<lambda>name. remove_all (to_ascii_lowercase name)) (remove_headers rules) resp)"

section \<open>The values of one name\<close>

text \<open>
  The specification works on the values of a single name: what each rule for that name makes of them.
\<close>

definition rules_for :: "http_syntax \<Rightarrow> string \<Rightarrow> (string \<times> string) list \<Rightarrow> string list" where
  "rules_for lib n rs = map snd (filter (\<lambda>(k, v). hn_ok lib k \<and> hv_ok lib v \<and> to_ascii_lowercase k = n) rs)"

fun joined :: "string list \<Rightarrow> string" where
  "joined [] = []"
| "joined [v] = v"
| "joined (v # w # vs) = v @ '', '' @ joined (w # vs)"

definition appended :: "http_syntax \<Rightarrow> string \<Rightarrow> string \<Rightarrow> string list \<Rightarrow> string list" where
  "appended lib n v vs =
     (if n = ''set-cookie'' then vs @ [v]
      else if vs = [] then [v]
      else if hb_ok lib (joined (vs @ [v])) then [joined (vs @ [v])] else vs)"

definition header_outcome :: "http_syntax \<Rightarrow> Headers \<Rightarrow> string \<Rightarrow> string list \<Rightarrow> string list" where
  "header_outcome lib rules n vs =
     (if n \<in> to_ascii_lowercase ` set (remove_headers rules) then []
      else
        let after_set = (case rev (rules_for lib n (set_headers rules)) of [] \<Rightarrow> vs | v # _ \<Rightarrow> [v]);
            after_append = fold (appended lib n) (rules_for lib n (append_headers rules)) after_set
        in if after_append = [] then take 1 (rules_for lib n (add_headers rules)) else after_append)"

lemma get_all_remove_all [simp]: "get_all n (remove_all m h) = (if m = n then [] else get_all n h)"
  by (induction h) (auto simp: get_all_def remove_all_def)

lemma get_all_insert [simp]: "get_all n (insert_header m v h) = (if m = n then [v] else get_all n h)"
  using get_all_remove_all [of n m h] by (auto simp: insert_header_def get_all_def split: if_splits)

lemma get_all_append_header [simp]:
  "get_all n (append_header m v h) = (if m = n then get_all n h @ [v] else get_all n h)"
  by (simp add: append_header_def get_all_def)

lemma rules_for_Cons [simp]:
  "rules_for lib n ((k, v) # rs) =
     (if hn_ok lib k \<and> hv_ok lib v \<and> to_ascii_lowercase k = n then v # rules_for lib n rs else rules_for lib n rs)"
  "rules_for lib n [] = []"
  by (simp_all add: rules_for_def)

lemma joined_append: "joined ((b @ '', '' @ v) # vs) = joined (b # v # vs)"
  by (cases vs) auto

lemma joined_snoc: "vs \<noteq> [] \<Longrightarrow> joined (vs @ [v]) = joined vs @ '', '' @ v"
  by (induction vs rule: joined.induct) auto

lemma join_loop:
  "fold (\<lambda>v (buf, saw). ((if saw then buf @ '', '' else buf) @ v, True)) vs (b, True)
   = (joined (b # vs), True)"
proof (induction vs arbitrary: b)
  case (Cons v vs)
  then show ?case using joined_append [of b v vs] by simp
qed simp

lemma build_joined_value_eq:
  "build_joined_value vs v = (if vs = [] then None else Some (joined (vs @ [v])))"
proof (cases vs)
  case (Cons w ws)
  then show ?thesis
    using join_loop [of ws w] joined_snoc [of vs v] by (simp add: build_joined_value_def)
qed (simp add: build_joined_value_def)

lemma non_joinable_iff: "is_non_joinable k \<longleftrightarrow> to_ascii_lowercase k = ''set-cookie''"
  by (simp add: is_non_joinable_def NON_JOINABLE_HEADERS_def eq_ignore_ascii_case_def to_ascii_lowercase_def
      to_ascii_lowercase_char_def)

text \<open>What each loop does to the values of one name.\<close>

lemma get_all_set:
  "get_all n (fold (apply_set lib) rs h) = (case rev (rules_for lib n rs) of [] \<Rightarrow> get_all n h | v # _ \<Rightarrow> [v])"
proof (induction rs arbitrary: h)
  case (Cons r rs)
  then show ?case by (cases r) (auto simp: apply_set_def split: list.splits)
qed simp

lemma get_all_append:
  "get_all n (fold (apply_append lib) rs h) = fold (appended lib n) (rules_for lib n rs) (get_all n h)"
proof (induction rs arbitrary: h)
  case (Cons r rs)
  obtain k v where r: "r = (k, v)" by fastforce
  have "get_all n (apply_append lib (k, v) h) =
      (if hn_ok lib k \<and> hv_ok lib v \<and> to_ascii_lowercase k = n then appended lib n v (get_all n h) else get_all n h)"
    by (auto simp: apply_append_def appended_def build_joined_value_eq non_joinable_iff Let_def)
  then show ?case using Cons.IH r by simp
qed simp

lemma get_all_add:
  "get_all n (fold (apply_add lib) rs h) = (if get_all n h = [] then take 1 (rules_for lib n rs) else get_all n h)"
proof (induction rs arbitrary: h)
  case (Cons r rs)
  then show ?case by (cases r) (auto simp: apply_add_def apply_set_def)
qed simp

lemma get_all_remove:
  "get_all n (fold (\<lambda>name. remove_all (to_ascii_lowercase name)) ns h) =
     (if n \<in> to_ascii_lowercase ` set ns then [] else get_all n h)"
  by (induction ns arbitrary: h) auto

section \<open>Properties\<close>

text \<open>
  C16: what a header policy does. The values a header ends with depend only on its own values and on the
  rules for its name: it is absent if it is to be removed; otherwise it is set to the last \<open>set\<close> value, the \<open>append\<close> values are
  joined to it by a comma (added as separate fields for \<open>Set-Cookie\<close>), and the first \<open>add\<close> value is used if it has
  none. A header no rule names keeps its values, except that \<open>X-Proxy-By\<close> is always written. Requests and responses are
  treated alike.
\<close>

theorem header_policy_per_name:
  "get_all n (apply_request_headers lib (Headers_Enabled rules) h)
     = header_outcome lib rules n (if n = ''x-proxy-by'' then [''Pavis''] else get_all n h)
   \<and> get_all n (apply_response_headers lib (Headers_Enabled rules) h)
     = header_outcome lib rules n (if n = ''x-proxy-by'' then [''Pavis''] else get_all n h)"
  by (simp add: apply_request_headers_def apply_response_headers_def header_outcome_def Let_def
      get_all_set get_all_append get_all_add get_all_remove cong: list.case_cong)

end
