(* ===== verification/Request_Plan.thy ===== *)
theory Request_Plan
  imports Cluster
begin

text \<open>
  The parts a request is planned from: its identifier (\<open>RequestId\<close> in crates/pavis/src/proxy/context.rs and
  request\_planning/id.rs), the identity of the client (proxy/identity.rs, request\_planning/auth.rs), path rewriting
  (request\_planning/route.rs), timeouts (request\_planning/timeouts.rs), and the address, server name and connection
  reuse key of an endpoint (request\_planning/endpoint.rs). Parsing a certificate and building a URI are library calls: a
  certificate is the list of the names in its first subject-alternative-name extension, and \<open>build_uri\<close> is a parameter.
\<close>

section \<open>Request identifiers\<close>

definition REQUEST_ID_MAX_LEN :: nat where
  "REQUEST_ID_MAX_LEN = 48"

record RequestId =
  rid_buf :: bytes
  rid_len :: u8

definition rid_empty :: RequestId where
  "rid_empty = \<lparr>rid_buf = replicate REQUEST_ID_MAX_LEN 0, rid_len = 0\<rparr>"

definition push_byte :: "u8 \<Rightarrow> RequestId \<Rightarrow> RequestId" where
  "push_byte value r =
     (let n = unat (rid_len r) in
      if n \<ge> REQUEST_ID_MAX_LEN then r
      else r\<lparr>rid_buf := (rid_buf r)[n := value], rid_len := of_nat (n + 1)\<rparr>)"

definition push_bytes :: "bytes \<Rightarrow> RequestId \<Rightarrow> RequestId" where
  "push_bytes bs r =
     (let n = unat (rid_len r) in
      if n + length bs > REQUEST_ID_MAX_LEN then r
      else r\<lparr>rid_buf := take n (rid_buf r) @ bs @ drop (n + length bs) (rid_buf r), rid_len := of_nat (n + length bs)\<rparr>)"

text \<open>The digits of the loop of \<open>push_u128\<close>, least significant first.\<close>

function u128_digits :: "u128 \<Rightarrow> bytes" where
  "u128_digits value =
     (if value > 0 then (48 + of_nat (unat (value mod 10))) # u128_digits (value div 10) else [])"
  by pat_completeness auto
termination
  by (relation "measure unat") (simp_all add: unat_div unat_gt_0 word_neq_0_conv)

declare u128_digits.simps [simp del]

definition push_u128 :: "u128 \<Rightarrow> RequestId \<Rightarrow> RequestId" where
  "push_u128 value r = (if value = 0 then push_byte 48 r else fold push_byte (rev (u128_digits value)) r)"

definition from_parts :: "u128 \<Rightarrow> u32 \<Rightarrow> RequestId" where
  "from_parts nanos random =
     push_u128 (ucast random) (push_byte 45 (push_u128 nanos (push_bytes (map of_char ''req-'') rid_empty)))"

definition rid_as_str :: "RequestId \<Rightarrow> bytes" where
  "rid_as_str r = take (unat (rid_len r)) (rid_buf r)"

definition rid_from_str :: "bytes \<Rightarrow> unit + RequestId" where
  "rid_from_str value =
     (if length value > REQUEST_ID_MAX_LEN then Inl () else Inr (push_bytes value rid_empty))"

text \<open>\<open>now\<close> counts nanoseconds from the epoch, negative before it; the flag remembers that the warning was logged.\<close>

definition request_id_timestamp :: "int \<Rightarrow> bool \<Rightarrow> u128 \<times> bool" where
  "request_id_timestamp now warned = (if now \<ge> 0 then (of_int now, warned) else (0, True))"

definition generate_request_id :: "int \<Rightarrow> u32 \<Rightarrow> bool \<Rightarrow> RequestId \<times> bool" where
  "generate_request_id now random_val warned =
     (case request_id_timestamp now warned of (nanos, warned') \<Rightarrow> (from_parts nanos random_val, warned'))"

section \<open>Client identity\<close>

datatype GeneralName = GN_Uri string | GN_Other

definition parse_spiffe_uri :: "string \<Rightarrow> unit + SpiffeId option" where
  "parse_spiffe_uri uri =
     (case split_once uri ''://'' of
        None \<Rightarrow> Inr None
      | Some (scheme, rest) \<Rightarrow>
          if \<not> eq_ignore_ascii_case scheme ''spiffe'' then Inr None
          else if rest = [] then Inl ()
          else case split_once rest ''/'' of
            None \<Rightarrow> Inl ()
          | Some (trust_domain, p) \<Rightarrow>
              if trust_domain = [] \<or> p = [] \<or> list_all (\<lambda>c. c = CHR ''/'') p then Inl ()
              else Inr (Some (''spiffe://'' @ rest)))"

fun scan_names :: "SpiffeId option \<Rightarrow> GeneralName list \<Rightarrow> SpiffeId option" where
  "scan_names spiffe_id [] = spiffe_id"
| "scan_names spiffe_id (GN_Uri uri # ns) =
     (case parse_spiffe_uri uri of
        Inr (Some candidate) \<Rightarrow> if spiffe_id \<noteq> None then None else scan_names (Some candidate) ns
      | Inr None \<Rightarrow> scan_names spiffe_id ns
      | Inl _ \<Rightarrow> None)"
| "scan_names spiffe_id (GN_Other # ns) = scan_names spiffe_id ns"

definition extract_spiffe_id_from_cert :: "GeneralName list option \<Rightarrow> SpiffeId option" where
  "extract_spiffe_id_from_cert san = (case san of None \<Rightarrow> None | Some names \<Rightarrow> scan_names None names)"

text \<open>\<open>parse\<close> is the certificate parser; \<open>None\<close> when the bytes are not a certificate.\<close>

definition extract_spiffe_id :: "(bytes \<Rightarrow> GeneralName list option option) \<Rightarrow> bytes \<Rightarrow> SpiffeId option" where
  "extract_spiffe_id parse cert_der =
     (case parse cert_der of None \<Rightarrow> None | Some san \<Rightarrow> extract_spiffe_id_from_cert san)"

fun is_authorized :: "Principal \<Rightarrow> SpiffeId option \<Rightarrow> bool" where
  "is_authorized Principal_Any client \<longleftrightarrow> True"
| "is_authorized (Principal_Authenticated spiffe) client \<longleftrightarrow> client = Some spiffe"
| "is_authorized (Principal_Prefix p) client \<longleftrightarrow> (case client of None \<Rightarrow> False | Some i \<Rightarrow> starts_with i p)"

section \<open>Routes and timeouts\<close>

fun route_path_of :: "PathMatch \<Rightarrow> string" where
  "route_path_of (Path_Prefix p) = p"
| "route_path_of (Path_Exact p) = p"
| "route_path_of (Path_Regex p) = p"

definition route_path :: "Route \<Rightarrow> string" where
  "route_path route = route_path_of (rm_path (r_matcher route))"

definition calculate_path_rewrite ::
  "(string \<Rightarrow> 'uri option) \<Rightarrow> Route \<Rightarrow> string \<Rightarrow> string option \<Rightarrow> 'uri option" where
  "calculate_path_rewrite build_uri route uri_path uri_query =
     (case rw_path (r_rewrite route) of
        RewritePath_Disabled \<Rightarrow> None
      | RewritePath_Prefix _ to \<Rightarrow>
          (case (case rm_path (r_matcher route) of
                   Path_Prefix p \<Rightarrow> map_option (\<lambda>suff. to @ suff) (strip_prefix uri_path p)
                 | Path_Exact p \<Rightarrow> if uri_path = p then Some to else None
                 | Path_Regex _ \<Rightarrow> None) of
             None \<Rightarrow> None
           | Some new_path \<Rightarrow>
               build_uri (case uri_query of None \<Rightarrow> new_path | Some query \<Rightarrow> new_path @ ''?'' @ query)))"

definition core_duration_to_std :: "Duration \<Rightarrow> duration" where
  "core_duration_to_std d = from_millis (unat d)"

fun resolve_route_timeout :: "Timeout \<Rightarrow> duration option" where
  "resolve_route_timeout (Timeout_Enabled d) = Some (core_duration_to_std d)"
| "resolve_route_timeout Timeout_Disabled = None"

fun resolve_per_try_timeout :: "Timeout \<Rightarrow> RetryPolicy \<Rightarrow> duration option" where
  "resolve_per_try_timeout timeout (Retry_Enabled c) =
     (case rp_per_try c of
        TryTimeout_Enabled d \<Rightarrow> Some (core_duration_to_std d)
      | TryTimeout_Inherit \<Rightarrow> resolve_route_timeout timeout
      | TryTimeout_Disabled \<Rightarrow> None)"
| "resolve_per_try_timeout timeout Retry_Disabled = resolve_route_timeout timeout"

section \<open>Endpoints\<close>

fun resolve_sni :: "SniName \<Rightarrow> Hostname option \<Rightarrow> Hostname option \<Rightarrow> Hostname option" where
  "resolve_sni (Sni_Name name) authority_override endpoint_host = Some name"
| "resolve_sni Sni_Auto authority_override endpoint_host = or_else authority_override endpoint_host"
| "resolve_sni Sni_Disabled authority_override endpoint_host = None"

fun single_dns_host :: "Hostname option \<Rightarrow> Endpoint list \<Rightarrow> Hostname option" where
  "single_dns_host selected [] = selected"
| "single_dns_host selected (e # es) =
     (case ep_address e of
        Endpoint_Dns host _ \<Rightarrow>
          (case selected of
             None \<Rightarrow> single_dns_host (Some host) es
           | Some existing \<Rightarrow> if existing \<noteq> host then None else single_dns_host selected es)
      | Endpoint_Ip _ _ \<Rightarrow> single_dns_host selected es)"

definition endpoint_host_for_sni :: "Upstream \<Rightarrow> Endpoint \<Rightarrow> Hostname option" where
  "endpoint_host_for_sni upstream endpoint =
     (case ep_address endpoint of
        Endpoint_Dns host _ \<Rightarrow> Some host
      | Endpoint_Ip _ _ \<Rightarrow>
          (case u_discovery upstream of
             Discovery_Static \<Rightarrow> None
           | _ \<Rightarrow> single_dns_host None (u_endpoints upstream)))"

datatype plan_error = NotMaterialized Hostname Port

definition resolve_endpoint_addr :: "Endpoint \<Rightarrow> plan_error + SocketAddr" where
  "resolve_endpoint_addr endpoint =
     (case ep_address endpoint of
        Endpoint_Ip ip port \<Rightarrow> Inr \<lparr>sa_ip = ip, sa_port = port\<rparr>
      | Endpoint_Dns host port \<Rightarrow> Inl (NotMaterialized host port))"

text \<open>\<open>SocketAddr::to_string\<close>.\<close>

definition socket_display :: "SocketAddr \<Rightarrow> string" where
  "socket_display a =
     (case sa_ip a of
        V4 _ \<Rightarrow> ip_display (sa_ip a) @ '':'' @ to_dec (unat (sa_port a))
      | V6 _ \<Rightarrow> ''['' @ ip_display (sa_ip a) @ '']:'' @ to_dec (unat (sa_port a)))"

text \<open>What \<open>reuse_key_hash\<close> writes into the hasher: a string is written with a final 255.\<close>

definition hash_str :: "string \<Rightarrow> bytes" where
  "hash_str s = map of_char s @ [255]"

fun verify_tag :: "TlsVerify option \<Rightarrow> u8" where
  "verify_tag (Some Verify_Disabled) = 0"
| "verify_tag (Some Verify_CaOnly) = 1"
| "verify_tag (Some Verify_Full) = 2"
| "verify_tag None = 3"

fun hash_chain :: "ClientCertChain \<Rightarrow> bytes" where
  "hash_chain Chain_None = [0]"
| "hash_chain Chain_Embedded = [1]"
| "hash_chain (Chain_File p) = 2 # hash_str p"

fun hash_cert :: "ClientCert option \<Rightarrow> bytes" where
  "hash_cert (Some (ClientCert_Enabled cert_path key_path chain)) = 1 # hash_str cert_path @ hash_str key_path @ hash_chain chain"
| "hash_cert (Some ClientCert_Disabled) = [0]"
| "hash_cert None = [0]"

definition reuse_key_bytes :: "SocketAddr \<Rightarrow> string \<Rightarrow> TlsVerify option \<Rightarrow> ClientCert option \<Rightarrow> bytes" where
  "reuse_key_bytes addr sni verify_mode cert =
     hash_str (socket_display addr) @ hash_str sni @ [verify_tag verify_mode] @ hash_cert cert"

definition reuse_key_hash ::
  "(bytes \<Rightarrow> u64) \<Rightarrow> SocketAddr \<Rightarrow> string \<Rightarrow> TlsVerify option \<Rightarrow> ClientCert option \<Rightarrow> u64" where
  "reuse_key_hash hasher addr sni verify_mode cert = hasher (reuse_key_bytes addr sni verify_mode cert)"

section \<open>Lemmas on request identifiers\<close>

definition rid_ok :: "RequestId \<Rightarrow> bool" where
  "rid_ok r \<longleftrightarrow> length (rid_buf r) = REQUEST_ID_MAX_LEN \<and> unat (rid_len r) \<le> REQUEST_ID_MAX_LEN"

lemma u8_of_nat: "n \<le> REQUEST_ID_MAX_LEN \<Longrightarrow> unat (of_nat n :: u8) = n"
  by (simp add: REQUEST_ID_MAX_LEN_def unat_of_nat)

lemma rid_empty_ok: "rid_ok rid_empty" "rid_as_str rid_empty = []"
  by (simp_all add: rid_ok_def rid_empty_def rid_as_str_def)

lemma push_byte_ok:
  assumes "rid_ok r"
  shows "rid_ok (push_byte b r)"
    and "rid_as_str (push_byte b r) = take REQUEST_ID_MAX_LEN (rid_as_str r @ [b])"
  using assms u8_of_nat [of "unat (rid_len r) + 1"]
  by (auto simp: rid_ok_def push_byte_def rid_as_str_def Let_def take_Suc_conv_app_nth min_def
      simp flip: Suc_eq_plus1 split: if_splits)

lemma push_all_ok:
  assumes "rid_ok r"
  shows "rid_ok (fold push_byte bs r) \<and> rid_as_str (fold push_byte bs r) = take REQUEST_ID_MAX_LEN (rid_as_str r @ bs)"
  using assms
proof (induction bs arbitrary: r)
  case Nil
  then show ?case by (auto simp: rid_ok_def rid_as_str_def)
next
  case (Cons b bs)
  have "take n (take n (xs @ [b]) @ bs) = take n (xs @ b # bs)" for n and xs :: bytes
    by (cases "n \<le> length xs") (auto simp: take_Cons' not_le)
  with Cons.IH [OF push_byte_ok(1) [OF Cons.prems, of b]] push_byte_ok(2) [OF Cons.prems, of b] show ?case
    by simp
qed

lemma push_bytes_ok:
  assumes "rid_ok r" "length (rid_as_str r) + length bs \<le> REQUEST_ID_MAX_LEN"
  shows "rid_ok (push_bytes bs r)" "rid_as_str (push_bytes bs r) = rid_as_str r @ bs"
  using assms u8_of_nat [of "unat (rid_len r) + length bs"]
  by (auto simp: rid_ok_def push_bytes_def rid_as_str_def Let_def min_def)

lemma inj_of_char_u8: "inj (of_char :: char \<Rightarrow> u8)"
proof (rule injI)
  fix c d :: char
  assume "(of_char c :: u8) = of_char d"
  then have "(of_nat (of_char c) :: u8) = of_nat (of_char d)" by (simp add: of_nat_of_char)
  then have "(of_char c :: nat) mod 256 = of_char d mod 256" by (simp add: word_of_nat_eq_iff take_bit_nat_def)
  moreover have "(of_char c :: nat) < 256" "(of_char d :: nat) < 256" by simp_all
  ultimately show "c = d" by simp
qed

lemma digit_byte: "k < 10 \<Longrightarrow> 48 + of_nat k = (of_char (char_of (48 + k) :: char) :: u8)"
proof -
  assume "k < 10"
  then have "(of_char (char_of (48 + k) :: char) :: nat) = 48 + k" by simp
  then have "of_nat (of_char (char_of (48 + k) :: char)) = (of_nat (48 + k) :: u8)" by (simp only:)
  moreover have "of_nat (of_char (char_of (48 + k) :: char)) = (of_char (char_of (48 + k) :: char) :: u8)"
    by (rule of_nat_of_char)
  ultimately show ?thesis by simp
qed

lemma u128_digits_dec: "v > 0 \<Longrightarrow> rev (u128_digits v) = map of_char (to_dec (unat v))"
proof (induction "unat v" arbitrary: v rule: less_induct)
  case less
  have dig: "48 + of_nat (unat (v mod 10)) = (of_char (char_of (48 + unat v mod 10) :: char) :: u8)"
    using digit_byte [of "unat v mod 10"] by (simp add: unat_mod)
  have dv: "unat (v div 10) = unat v div 10" by (simp add: unat_div)
  show ?case
  proof (cases "unat v < 10")
    case True
    then have "v div 10 = 0" using dv by (simp add: unat_eq_zero)
    with True dig less.prems show ?thesis
      by (subst u128_digits.simps, subst u128_digits.simps, subst to_dec.simps) simp
  next
    case False
    then have "v div 10 > 0" "unat (v div 10) < unat v"
      using dv by (auto simp: word_neq_0_conv [symmetric] unat_eq_zero [symmetric] simp del: unat_eq_zero)
    from less.hyps [OF this(2,1)] False dig less.prems dv show ?thesis
      by (subst u128_digits.simps, subst to_dec.simps) simp
  qed
qed

lemma push_u128_eq: "push_u128 v r = fold push_byte (map of_char (to_dec (unat v))) r"
proof (cases "v = 0")
  case True
  then show ?thesis using digit_byte [of 0] by (subst to_dec.simps) (simp add: push_u128_def)
next
  case False
  then show ?thesis using u128_digits_dec [of v] by (simp add: push_u128_def word_neq_0_conv)
qed

definition rid_text :: "u128 \<Rightarrow> u32 \<Rightarrow> string" where
  "rid_text nanos random = ''req-'' @ to_dec (unat nanos) @ ''-'' @ to_dec (unat random)"

lemma from_parts_text: "rid_as_str (from_parts nanos random) = take REQUEST_ID_MAX_LEN (map of_char (rid_text nanos random))"
proof -
  let ?a = "push_bytes (map of_char ''req-'') rid_empty"
  have a: "rid_ok ?a" "rid_as_str ?a = map of_char ''req-''"
    using push_bytes_ok [OF rid_empty_ok(1), of "map of_char ''req-''"] rid_empty_ok(2)
    by (simp_all add: REQUEST_ID_MAX_LEN_def)
  have u: "unat (ucast random :: u128) = unat random" using unat_less_exp [of random] by (simp add: unsigned_ucast_eq take_bit_nat_eq_self_iff)
  define bs :: bytes where "bs = map of_char (to_dec (unat nanos)) @ [45] @ map of_char (to_dec (unat random))"
  have "from_parts nanos random = fold push_byte bs ?a"
    by (simp add: from_parts_def push_u128_eq u bs_def)
  moreover have "map of_char (rid_text nanos random) = map of_char ''req-'' @ bs"
    by (simp add: rid_text_def bs_def)
  ultimately show ?thesis using push_all_ok [OF a(1), of bs] a(2) by (simp only:)
qed

lemma rid_text_fits: "unat nanos < 10 ^ 33 \<Longrightarrow> length (rid_text nanos random) \<le> REQUEST_ID_MAX_LEN"
proof -
  assume "unat nanos < 10 ^ 33"
  then have "length (to_dec (unat nanos)) \<le> 33" by (intro length_to_dec_le) simp_all
  moreover have "unat random < 10 ^ 10" using unat_less_exp [of random] by simp
  then have "length (to_dec (unat random)) \<le> 10" by (intro length_to_dec_le) simp_all
  ultimately show ?thesis by (simp add: rid_text_def REQUEST_ID_MAX_LEN_def)
qed

lemma rid_text_inj: "rid_text n r = rid_text n' r' \<Longrightarrow> n = n' \<and> r = r'"
  using to_dec_sep_inj [of "unat n" "CHR ''-''" "to_dec (unat r)" "unat n'" "to_dec (unat r')"]
  by (simp add: rid_text_def to_dec_inj is_ascii_digit_def word_unat_eq_iff)

section \<open>Properties\<close>

text \<open>
  Request identifiers. Within 48 bytes the identifier is \<open>req-\<close>, the decimal time, a dash and the decimal random number; up to a
  time of ten to the 33 nanoseconds nothing is cut off, so requests with different times or random numbers have
  different identifiers.
\<close>

theorem request_id_unique:
  assumes "unat nanos < 10 ^ 33" "unat nanos' < 10 ^ 33"
  shows "rid_as_str (from_parts nanos random) = map of_char (rid_text nanos random)
    \<and> (from_parts nanos random = from_parts nanos' random') = (nanos = nanos' \<and> random = random')"
proof -
  have shown: "rid_as_str (from_parts n r) = map of_char (rid_text n r)" if "unat n < 10 ^ 33" for n r
    using from_parts_text [of n r] rid_text_fits [OF that, of r] by simp
  have "n = n' \<and> r = r'" if "unat n < 10 ^ 33" "unat n' < 10 ^ 33" "from_parts n r = from_parts n' r'" for n r n' r'
  proof -
    have "map (of_char :: char \<Rightarrow> u8) (rid_text n r) = map of_char (rid_text n' r')"
      using shown [OF that(1), of r] shown [OF that(2), of r'] that(3) by simp
    moreover have "inj (of_char :: char \<Rightarrow> u8)" by (rule inj_of_char_u8)
    ultimately show ?thesis using rid_text_inj by (simp add: inj_map_eq_map)
  qed
  with shown assms show ?thesis by blast
qed

theorem request_id_unique_witness:
  "rid_as_str (from_parts 1700000000000000000 7) = map of_char (rid_text 1700000000000000000 7)
    \<and> from_parts 1700000000000000000 7 \<noteq> from_parts 1700000000000000000 8"
  using request_id_unique [of 1700000000000000000 1700000000000000000 7 8] by simp

text \<open>The SPIFFE URIs among the names, with what follows the scheme, and what makes one well formed.\<close>

definition spiffe_rests :: "GeneralName list \<Rightarrow> string list" where
  "spiffe_rests names = concat (map (\<lambda>n. case n of
       GN_Uri u \<Rightarrow> (case split_once u ''://'' of
          Some (scheme, rest) \<Rightarrow> if eq_ignore_ascii_case scheme ''spiffe'' then [rest] else []
        | None \<Rightarrow> [])
     | GN_Other \<Rightarrow> []) names)"

definition spiffe_rest_ok :: "string \<Rightarrow> bool" where
  "spiffe_rest_ok rest \<longleftrightarrow>
     (\<exists>domain p. rest = domain @ ''/'' @ p \<and> domain \<noteq> [] \<and> CHR ''/'' \<notin> set domain \<and> (\<exists>c\<in>set p. c \<noteq> CHR ''/''))"

lemma spiffe_rest_ok_split:
  "spiffe_rest_ok rest \<longleftrightarrow>
     (case split_once rest ''/'' of None \<Rightarrow> False | Some (d, q) \<Rightarrow> d \<noteq> [] \<and> (\<exists>c\<in>set q. c \<noteq> CHR ''/''))"
proof -
  have "spiffe_rest_ok rest \<longleftrightarrow>
      (\<exists>d q. split_once rest ''/'' = Some (d, q) \<and> d \<noteq> [] \<and> (\<exists>c\<in>set q. c \<noteq> CHR ''/''))"
    unfolding spiffe_rest_ok_def split_once_char by auto
  then show ?thesis by (cases "split_once rest ''/''") auto
qed

lemma not_only_slashes: "(list_all (\<lambda>c. c = d) q) = (\<not> (\<exists>c\<in>set q. c \<noteq> d))" by (auto simp: list_all_iff)
lemma parse_spiffe_uri_split:
  assumes Some: "split_once u ''://'' = Some (scheme, rest)"
  shows "parse_spiffe_uri u = (if \<not> eq_ignore_ascii_case scheme ''spiffe'' then Inr None
      else if spiffe_rest_ok rest then Inr (Some (''spiffe://'' @ rest)) else Inl ())"
proof (cases "split_once rest ''/''")
  case None
  then show ?thesis by (simp only: parse_spiffe_uri_def spiffe_rest_ok_split Some option.case prod.case if_cancel if_False)
next
  case (Some dq)
  obtain d q where dq: "dq = (d, q)" by fastforce
  have ne: "rest \<noteq> []" using Some by (cases rest) simp_all
  show ?thesis
    unfolding parse_spiffe_uri_def spiffe_rest_ok_split assms Some dq option.case prod.case not_only_slashes
    using ne by (cases "q = []") (simp_all only: if_False if_True simp_thms list.set bex_empty split: if_splits, blast)
qed

lemma parse_spiffe_uri_cases:
  "parse_spiffe_uri u =
     (case spiffe_rests [GN_Uri u] of
        [] \<Rightarrow> Inr None
      | rest # _ \<Rightarrow> if spiffe_rest_ok rest then Inr (Some (''spiffe://'' @ rest)) else Inl ())"
proof (cases "split_once u ''://''")
  case (Some p)
  obtain scheme rest where p: "p = (scheme, rest)" by fastforce
  have "spiffe_rests [GN_Uri u] = (if eq_ignore_ascii_case scheme ''spiffe'' then [rest] else [])"
    by (simp add: spiffe_rests_def Some p)
  then show ?thesis
    using parse_spiffe_uri_split [OF Some [unfolded p]]
    by (cases "eq_ignore_ascii_case scheme ''spiffe''") (simp_all only: if_True if_False list.case simp_thms)
qed (simp add: parse_spiffe_uri_def spiffe_rests_def)

lemma scan_names_eq:
  "scan_names sel names =
     (case sel of
        Some s \<Rightarrow> if spiffe_rests names = [] then Some s else None
      | None \<Rightarrow> (case spiffe_rests names of
          [rest] \<Rightarrow> if spiffe_rest_ok rest then Some (''spiffe://'' @ rest) else None
        | _ \<Rightarrow> None))"
proof (induction sel names rule: scan_names.induct)
  case (2 sel u ns)
  have app: "spiffe_rests (GN_Uri u # ns) = spiffe_rests [GN_Uri u] @ spiffe_rests ns" by (simp add: spiffe_rests_def)
  have "length (spiffe_rests [GN_Uri u]) \<le> 1" by (cases "split_once u ''://''") (auto simp: spiffe_rests_def)
  then consider "spiffe_rests [GN_Uri u] = []" | rest where "spiffe_rests [GN_Uri u] = [rest]"
    by (cases "spiffe_rests [GN_Uri u]") auto
  then show ?case
    using 2 by cases (auto simp: app parse_spiffe_uri_cases split: option.splits list.splits)
qed (simp_all add: spiffe_rests_def split: option.splits list.splits)

text \<open>
  C17: the identity of a client. A certificate names a client if and only if exactly one of the URIs in its subject
  alternative names has the scheme \<open>spiffe\<close> (in any case) and that one has a trust domain and a path that is not just slashes;
  the identity is that URI with the scheme in lower case. A route for an authenticated principal then admits exactly the clients with
  that identity.
\<close>

theorem spiffe_identity_iff:
  "(extract_spiffe_id_from_cert (Some names) = Some i) =
     (\<exists>rest. spiffe_rests names = [rest] \<and> spiffe_rest_ok rest \<and> i = ''spiffe://'' @ rest)
   \<and> is_authorized (Principal_Authenticated p) (extract_spiffe_id_from_cert (Some names)) =
     (\<exists>rest. spiffe_rests names = [rest] \<and> spiffe_rest_ok rest \<and> p = ''spiffe://'' @ rest)"
  by (auto simp: extract_spiffe_id_from_cert_def scan_names_eq split: list.splits if_splits)

section \<open>The connection reuse key\<close>

lemma hash_str_inj:
  assumes "hash_str s @ r = hash_str s' @ r'" "CHR 0xFF \<notin> set s" "CHR 0xFF \<notin> set s'"
  shows "s = s' \<and> r = r'"
proof -
  have no: "(255 :: u8) \<notin> set (map of_char t)" if "CHR 0xFF \<notin> set t" for t
  proof
    assume "(255 :: u8) \<in> set (map of_char t)"
    then obtain c where "c \<in> set t" "(of_char c :: u8) = of_char (CHR 0xFF)" by auto
    with inj_of_char_u8 that show False by (metis injD)
  qed
  have "split_once (map of_char s @ 255 # r) [255 :: u8] = Some (map of_char s, r)"
    "split_once (map of_char s' @ 255 # r') [255 :: u8] = Some (map of_char s', r')"
    using no assms(2,3) by (simp_all only: split_once_char) simp_all
  moreover have "map of_char s @ (255 :: u8) # r = map of_char s' @ 255 # r'" using assms(1) by (simp add: hash_str_def)
  ultimately have "(map (of_char :: char \<Rightarrow> u8) s, r) = (map of_char s', r')" by (simp only: option.inject)
  with inj_of_char_u8 show ?thesis by (simp add: inj_map_eq_map)
qed

definition ascii :: "string \<Rightarrow> bool" where
  "ascii s \<longleftrightarrow> (\<forall>c\<in>set s. (of_char c :: nat) < 128)"

lemma ascii_simps [simp]: "ascii []" "ascii (s @ t) \<longleftrightarrow> ascii s \<and> ascii t"
  by (auto simp: ascii_def)

lemma ascii_Cons [simp]: "ascii (c # s) \<longleftrightarrow> (of_char c :: nat) < 128 \<and> ascii s"
  by (simp add: ascii_def)

lemma ascii_to_dec [simp]: "ascii (to_dec n)"
  using to_dec_digits [of n] by (auto simp: ascii_def list_all_iff is_ascii_digit_def Let_def)

lemma ascii_hex_nat [simp]: "ascii (hex_nat n)"
proof (induction n rule: hex_nat.induct)
  case (1 n)
  have "(of_char (hex_digit k) :: nat) < 128" if "k < 16" for k using that by (simp add: of_char_hex_digit)
  with 1 show ?case by (subst hex_nat.simps) simp
qed

lemma ascii_join_segments [simp]: "ascii (join_segments ss)"
  by (induction ss rule: join_segments.induct) simp_all

lemma ascii_socket [simp]: "ascii (socket_display a)"
proof -
  have v4: "ascii (v4_display b)" for b by (simp add: v4_display_def octet_def)
  then have "ascii (v6_display b)" for b by (auto simp: v6_display_def Let_def split: prod.splits)
  with v4 show ?thesis by (auto simp: socket_display_def split: IpAddr.splits)
qed

lemma ascii_no_255: "ascii s \<Longrightarrow> CHR 0xFF \<notin> set s"
  by (auto simp: ascii_def)

text \<open>The certificate as far as the key distinguishes it, and the strings in it.\<close>

fun presented_cert :: "ClientCert option \<Rightarrow> (Path \<times> Path \<times> ClientCertChain) option" where
  "presented_cert (Some (ClientCert_Enabled c k ch)) = Some (c, k, ch)"
| "presented_cert (Some ClientCert_Disabled) = None"
| "presented_cert None = None"

fun cert_strings :: "ClientCert option \<Rightarrow> string list" where
  "cert_strings (Some (ClientCert_Enabled c k (Chain_File p))) = [c, k, p]"
| "cert_strings (Some (ClientCert_Enabled c k _)) = [c, k]"
| "cert_strings _ = []"

lemma verify_tag_inj: "verify_tag v = verify_tag v' \<longleftrightarrow> v = v'"
  by (cases v rule: verify_tag.cases; cases v' rule: verify_tag.cases) simp_all

lemma hash_str_append_eq:
  "CHR 0xFF \<notin> set s \<Longrightarrow> CHR 0xFF \<notin> set s' \<Longrightarrow> hash_str s @ r = hash_str s' @ r' \<longleftrightarrow> s = s' \<and> r = r'"
  using hash_str_inj by blast

lemma hash_chain_inj:
  assumes "\<forall>p. c = Chain_File p \<longrightarrow> CHR 0xFF \<notin> set p" "\<forall>p. c' = Chain_File p \<longrightarrow> CHR 0xFF \<notin> set p"
  shows "hash_chain c = hash_chain c' \<longleftrightarrow> c = c'"
proof -
  have "hash_str p = hash_str q \<longleftrightarrow> p = q" if "CHR 0xFF \<notin> set p" "CHR 0xFF \<notin> set q" for p q
    using hash_str_append_eq [OF that, of "[]" "[]"] by simp
  then show ?thesis using assms by (cases c; cases c') simp_all
qed

lemma hash_cert_inj:
  assumes "hash_cert c = hash_cert c'"
    and "\<forall>s\<in>set (cert_strings c @ cert_strings c'). CHR 0xFF \<notin> set s"
  shows "presented_cert c = presented_cert c'"
proof (cases c rule: presented_cert.cases)
  case (1 p k ch)
  with assms(1) obtain p' k' ch' where c': "c' = Some (ClientCert_Enabled p' k' ch')"
    by (cases c' rule: presented_cert.cases) simp_all
  have ok: "CHR 0xFF \<notin> set p" "CHR 0xFF \<notin> set p'" "CHR 0xFF \<notin> set k" "CHR 0xFF \<notin> set k'"
    using assms(2) unfolding 1 c' by (cases ch; cases ch'; simp)+
  have "hash_chain ch = hash_chain ch' \<longleftrightarrow> ch = ch'"
    using assms(2) unfolding 1 c' by (intro hash_chain_inj) auto
  with assms(1) ok show ?thesis by (simp add: 1 c' hash_str_append_eq)
qed (use assms(1) in \<open>cases c' rule: presented_cert.cases; simp\<close>)+

text \<open>
  The key under which the telemetry counts upstream connections tells them apart. As strings of valid UTF-8
  have no byte 255, what is hashed into the key determines the text of the address, the server name, the verification mode and
  the client certificate with its key and chain. The key is only counted; the framework decides about reuse itself.
\<close>

theorem reuse_key_injective:
  assumes "CHR 0xFF \<notin> set sni" "CHR 0xFF \<notin> set sni'"
    and "\<forall>s\<in>set (cert_strings cert @ cert_strings cert'). CHR 0xFF \<notin> set s"
    and "reuse_key_bytes addr sni verify cert = reuse_key_bytes addr' sni' verify' cert'"
  shows "socket_display addr = socket_display addr' \<and> sni = sni' \<and> verify = verify' \<and> presented_cert cert = presented_cert cert'"
proof -
  have "socket_display addr = socket_display addr' \<and> sni = sni' \<and> verify_tag verify # hash_cert cert = verify_tag verify' # hash_cert cert'"
    using assms(4) unfolding reuse_key_bytes_def
    by (simp add: hash_str_append_eq assms(1,2) ascii_no_255)
  with hash_cert_inj [OF _ assms(3)] show ?thesis by (simp add: verify_tag_inj)
qed

theorem reuse_key_injective_witness:
  "reuse_key_bytes \<lparr>sa_ip = V4 1, sa_port = 443\<rparr> ''a.example'' (Some Verify_Full) (Some ClientCert_Disabled)
   \<noteq> reuse_key_bytes \<lparr>sa_ip = V4 1, sa_port = 443\<rparr> ''b.example'' (Some Verify_Full) None"
  using reuse_key_injective [of "''a.example''" "''b.example''" "Some ClientCert_Disabled" None
      "\<lparr>sa_ip = V4 1, sa_port = 443\<rparr>" "Some Verify_Full" "\<lparr>sa_ip = V4 1, sa_port = 443\<rparr>" "Some Verify_Full"]
  by auto

end
