(* ===== verification/Proxy_Service.thy ===== *)
theory Proxy_Service
  imports Header_Ops Request_Plan Router Retry Pool Core_Validate
begin

text \<open>
  The proxy service: the context of a request (crates/pavis/src/proxy/context.rs) and the hooks the proxy framework
  calls (proxy/service/io.rs): the request filter that routes, authorises, buffers and picks the destination, the selection of the
  peer, the retry decisions after a failed connection, a proxy error and a response, and the outcome recorded at the end.

  A hook is a function on the context. What the framework, the network and concurrent requests decide is an argument: the instants,
  the random draws, the chunks of the body with whether the global budget granted them, the answers of the pool and the
  breaker. The clusters are shared between requests and are passed to the hook that changes them. Metrics and log lines are not
  modelled.
\<close>

section \<open>Context (proxy/context.rs)\<close>

datatype UpstreamTiming = NotStarted | Started instant

datatype RoutePattern = NotMatched | Matched string

fun as_label :: "RoutePattern \<Rightarrow> string" where
  "as_label NotMatched = ''-''"
| "as_label (Matched pattern) = pattern"

fun as_label_opt :: "RoutePattern \<Rightarrow> string option" where
  "as_label_opt NotMatched = None"
| "as_label_opt (Matched pattern) = Some pattern"

fun timing_elapsed :: "instant \<Rightarrow> UpstreamTiming \<Rightarrow> duration option" where
  "timing_elapsed now NotStarted = None"
| "timing_elapsed now (Started start) = Some (now - start)"

record RouterContext =
  c_request_id :: RequestId
  c_span_active :: bool
  c_upstream_name :: "UpstreamName option"
  c_upstream_endpoint :: "EndpointAddr option"
  c_request_headers :: HeadersPolicy
  c_response_headers :: HeadersPolicy
  c_sni_override :: "Hostname option"
  c_start_time :: instant
  c_upstream_timing :: UpstreamTiming
  c_client_identity :: "SpiffeId option"
  c_rbac_denied :: bool
  c_route_timeout :: Timeout
  c_retry_policy :: RetryPolicy
  c_retry_attempts :: u16
  c_route_pattern :: RoutePattern
  c_pool_permit :: bool
  c_circuit_breaker_permit :: bool
  c_runtime_state :: "Router option"
  c_retry_ctx :: "RetryContext option"
  c_buffered_body :: "BufferedBody option"
  c_rewritten_uri :: "string option"
  c_rewritten_host :: "Hostname option"

definition new_ctx :: "RequestId \<Rightarrow> instant \<Rightarrow> RouterContext" where
  "new_ctx rid now =
     \<lparr>c_request_id = rid, c_span_active = False, c_upstream_name = None, c_upstream_endpoint = None,
      c_request_headers = Headers_Disabled, c_response_headers = Headers_Disabled, c_sni_override = None,
      c_start_time = now, c_upstream_timing = NotStarted, c_client_identity = None, c_rbac_denied = False,
      c_route_timeout = Timeout_Disabled, c_retry_policy = Retry_Disabled, c_retry_attempts = 0,
      c_route_pattern = NotMatched, c_pool_permit = False, c_circuit_breaker_permit = False,
      c_runtime_state = None, c_retry_ctx = None, c_buffered_body = None, c_rewritten_uri = None,
      c_rewritten_host = None\<rparr>"

definition early_request_filter :: "SpiffeId option \<Rightarrow> RouterContext \<Rightarrow> RouterContext" where
  "early_request_filter extracted ctx =
     (if c_client_identity ctx = None then ctx\<lparr>c_client_identity := extracted\<rparr> else ctx)"

definition apply_route_headers :: "Route \<Rightarrow> RouterContext \<Rightarrow> RouterContext" where
  "apply_route_headers route ctx =
     ctx\<lparr>c_request_headers := r_request_headers route, c_response_headers := r_response_headers route,
       c_route_timeout := r_timeout route, c_retry_policy := r_retry route, c_retry_attempts := 0\<rparr>"

definition start_upstream :: "instant \<Rightarrow> RouterContext \<Rightarrow> RouterContext" where
  "start_upstream now ctx = ctx\<lparr>c_upstream_timing := Started now\<rparr>"

definition upstream_label :: "RouterContext \<Rightarrow> string" where
  "upstream_label ctx = (case c_upstream_name ctx of Some n \<Rightarrow> n | None \<Rightarrow> ''-'')"

text \<open>\<open>HttpMethod::from\<close>; a method is ASCII.\<close>

definition to_ascii_uppercase_char :: "char \<Rightarrow> char" where
  "to_ascii_uppercase_char c =
     (let n = of_char c :: nat in if 97 \<le> n \<and> n \<le> 122 then char_of (n - 32) else c)"

definition method_from_str :: "string \<Rightarrow> HttpMethod" where
  "method_from_str value =
     (let s = map to_ascii_uppercase_char value in
      if s = ''GET'' then GET else if s = ''POST'' then POST else if s = ''PUT'' then PUT
      else if s = ''DELETE'' then DELETE else if s = ''PATCH'' then PATCH else if s = ''HEAD'' then HEAD
      else if s = ''OPTIONS'' then OPTIONS else if s = ''CONNECT'' then CONNECT else if s = ''TRACE'' then TRACE
      else GET)"

section \<open>Errors and responses\<close>

datatype error_type = HTTPStatus u16 | InternalError | ConnectTimedout | ReadTimedout | OtherError

record hook_error =
  etype :: error_type
  set_retry :: bool

definition error_of :: "error_type \<Rightarrow> hook_error" where
  "error_of t = \<lparr>etype = t, set_retry = False\<rparr>"

datatype filter_result =
    Responded u16 header_map string
  | Forwarded

section \<open>request\_filter\<close>

text \<open>
  The loop that buffers the body. A read gives a chunk, with whether \<open>BudgetGuard::try_add\<close> would grant its length, or fails.
\<close>

datatype body_read = Chunk bytes bool | Read_Failed

datatype body_outcome = Body_Complete bytes | Body_Truncated bytes | Budget_Exhausted | Body_Failed

fun buffer_body :: "u64 \<Rightarrow> bytes \<Rightarrow> body_read list \<Rightarrow> body_outcome" where
  "buffer_body limit acc [] = Body_Complete acc"
| "buffer_body limit acc (Read_Failed # rs) = Body_Failed"
| "buffer_body limit acc (Chunk chunk granted # rs) =
     (if of_nat (length acc) + of_nat (length chunk) > limit then Body_Truncated acc
      else if \<not> granted then Budget_Exhausted
      else buffer_body limit (acc @ chunk) rs)"

definition first_destination :: "RouteAction \<Rightarrow> string" where
  "first_destination action =
     (case action of Action_Forward (d # _) \<Rightarrow> dest_upstream d | _ \<Rightarrow> ''unknown'')"

definition as_millis_u64 :: "duration \<Rightarrow> u64" where
  "as_millis_u64 d = of_nat (as_millis d)"

text \<open>The retry context and the buffered body of a route whose retries are enabled.\<close>

definition prepare_retry ::
  "instant \<Rightarrow> metric_call list option \<Rightarrow> body_read list \<Rightarrow> RouteAction \<Rightarrow> RouterContext \<Rightarrow> hook_error + RouterContext" where
  "prepare_retry now metrics reads action ctx =
     (case c_retry_policy ctx of
        Retry_Disabled \<Rightarrow> Inr ctx
      | Retry_Enabled p \<Rightarrow>
          let name = first_destination action;
              request_timeout_ms = (case resolve_route_timeout (c_route_timeout ctx) of
                Some d \<Rightarrow> as_millis_u64 d | None \<Rightarrow> 60000);
              limit = rp_max_request_body_buffer_bytes p;
              buffered = (\<lambda>bs truncated. ctx
                \<lparr>c_retry_ctx := Some (retry_context_new now (Retry_Enabled p) request_timeout_ms metrics name),
                 c_buffered_body := Some (fst (buffered_body_new bs limit metrics name truncated))\<rparr>) in
          (case buffer_body limit [] reads of
             Body_Failed \<Rightarrow> Inl (error_of OtherError)
           | Budget_Exhausted \<Rightarrow> Inr ctx
           | Body_Complete bs \<Rightarrow> Inr (buffered bs False)
           | Body_Truncated bs \<Rightarrow> Inr (buffered bs True)))"

definition total_weight :: "Destination list \<Rightarrow> u32" where
  "total_weight dests = sum_list (map (\<lambda>d. ucast (dest_weight d)) dests)"

fun pick_destination :: "u32 \<Rightarrow> Destination list \<Rightarrow> UpstreamName option" where
  "pick_destination pick [] = None"
| "pick_destination pick (d # ds) =
     (let weight = ucast (dest_weight d) in
      if pick < weight then Some (dest_upstream d) else pick_destination (pick - weight) ds)"

definition valid_status :: "u16 \<Rightarrow> bool" where
  "valid_status s \<longleftrightarrow> 100 \<le> s \<and> s < 1000"

definition direct_response ::
  "http_syntax \<Rightarrow> u16 \<Rightarrow> header_map \<Rightarrow> HeadersPolicy \<Rightarrow> string \<Rightarrow> hook_error + filter_result" where
  "direct_response lib code first policy content =
     (if \<not> valid_status code \<or> list_ex (\<lambda>(n, v). \<not> hv_ok lib v) first then Inl (error_of InternalError)
      else Inr (Responded code
        (apply_response_headers lib policy (fold (\<lambda>(n, v). insert_header n v) first [])) content))"

record filter_env =
  fe_syntax :: http_syntax
  fe_build_uri :: "string \<Rightarrow> string option"
  fe_now :: instant
  fe_metrics :: "metric_call list option"
  fe_reads :: "body_read list"
  fe_pick :: "u32 \<Rightarrow> u32"
  fe_tracing :: bool

text \<open>From the selected route on.\<close>

definition handle_route ::
  "filter_env \<Rightarrow> request \<Rightarrow> string option \<Rightarrow> Route \<Rightarrow> RouterContext \<Rightarrow> (hook_error + filter_result) \<times> RouterContext" where
  "handle_route env req query route ctx =
     (let ctx = apply_route_headers route (ctx\<lparr>c_route_pattern := Matched (route_path route)\<rparr>) in
      if \<not> is_authorized (r_principal route) (c_client_identity ctx)
      then (Inr (Responded 403 [] []), ctx\<lparr>c_rbac_denied := True\<rparr>)
      else
        let ctx = (case calculate_path_rewrite (fe_build_uri env) route (req_path req) query of
                     Some uri \<Rightarrow> ctx\<lparr>c_rewritten_uri := Some uri\<rparr> | None \<Rightarrow> ctx);
            ctx = (case rw_host (r_rewrite route) of
                     RewriteHost_Literal host \<Rightarrow> ctx\<lparr>c_rewritten_host := Some host\<rparr> | RewriteHost_Disabled \<Rightarrow> ctx) in
        case prepare_retry (fe_now env) (fe_metrics env) (fe_reads env) (r_action route) ctx of
          Inl e \<Rightarrow> (Inl e, ctx)
        | Inr ctx \<Rightarrow>
            (case r_action route of
               Action_Forward dests \<Rightarrow>
                 if total_weight dests = 0 then (Inr Forwarded, ctx)
                 else (case pick_destination (fe_pick env (total_weight dests)) dests of
                         Some name \<Rightarrow> (Inr Forwarded, ctx\<lparr>c_upstream_name := Some name\<rparr>)
                       | None \<Rightarrow> (Inr Forwarded, ctx))
             | Action_Redirect code location \<Rightarrow>
                 (direct_response (fe_syntax env) code [(''location'', location), (''content-length'', ''0'')]
                    (r_response_headers route) [], ctx)
             | Action_Direct code content \<Rightarrow>
                 (direct_response (fe_syntax env) code [(''content-type'', ''text/plain''),
                    (''content-length'', to_dec (length content))] (r_response_headers route) content, ctx)))"

definition request_filter ::
  "filter_env \<Rightarrow> Router \<Rightarrow> request \<Rightarrow> string option \<Rightarrow> RouterContext \<Rightarrow> (hook_error + filter_result) \<times> RouterContext" where
  "request_filter env router req query ctx =
     (let ctx = ctx\<lparr>c_runtime_state := Some router\<rparr>;
          ctx = (if fe_tracing env then ctx\<lparr>c_span_active := True\<rparr> else ctx) in
      case selection (match_request router req) of
        Some (vhost, route) \<Rightarrow> handle_route env req query route ctx
      | None \<Rightarrow> (Inr (Responded 404 [] []), ctx))"

section \<open>The peer (UpstreamPeerBuilder)\<close>

record keepalive =
  ka_idle :: duration
  ka_interval :: duration
  ka_count :: nat

record HttpPeer =
  peer_addr :: SocketAddr
  peer_tls :: bool
  peer_sni :: string
  peer_verify_hostname :: bool
  peer_verify_cert :: bool
  peer_client_cert :: "nat option"
  peer_ca :: "nat option"
  peer_http :: "nat \<times> nat"
  peer_idle_timeout :: "duration option"
  peer_connection_timeout :: "duration option"
  peer_read_timeout :: "duration option"
  peer_write_timeout :: "duration option"
  peer_keepalive :: "keepalive option"
  peer_recv_buf :: "u32 option"

definition sni_value :: "TlsSettings \<Rightarrow> Hostname option \<Rightarrow> Hostname option \<Rightarrow> Hostname option" where
  "sni_value t override endpoint_host =
     (case tls_canonical_sni t of
        CanonicalSni_Enabled name \<Rightarrow> Some name
      | CanonicalSni_Disabled \<Rightarrow>
          if tls_reuse_across_sni t = Reuse_Enabled then
            (case tls_sni t of Sni_Name name \<Rightarrow> Some name | Sni_Auto \<Rightarrow> endpoint_host | Sni_Disabled \<Rightarrow> None)
          else resolve_sni (tls_sni t) override endpoint_host)"

fun verify_options :: "TlsVerify option \<Rightarrow> bool \<times> bool" where
  "verify_options (Some Verify_Disabled) = (False, False)"
| "verify_options (Some Verify_CaOnly) = (False, True)"
| "verify_options (Some Verify_Full) = (True, True)"
| "verify_options None = (True, True)"

fun http_versions :: "HttpVersion \<Rightarrow> nat \<times> nat" where
  "http_versions H1 = (1, 1)"
| "http_versions H2 = (2, 2)"
| "http_versions H2H1 = (2, 1)"

definition idle_timeout_of :: "IdleTimeout \<Rightarrow> duration option" where
  "idle_timeout_of t = (case t of IdleTimeout_Disabled \<Rightarrow> None | IdleTimeout_Enabled d \<Rightarrow> Some (from_millis (unat d)))"

definition connect_timeout_of :: "ConnectTimeout \<Rightarrow> duration option" where
  "connect_timeout_of t = (case t of ConnectTimeout_Disabled \<Rightarrow> None | ConnectTimeout_Enabled d \<Rightarrow> Some (from_millis (unat d)))"

text \<open>
  \<open>build\<close>; \<open>cert_key\<close> and \<open>ca_bundle\<close> are the materials the cluster has loaded, as handles. A peer made by \<open>HttpPeer::new\<close> verifies the
  certificate and the host name.
\<close>

definition build_peer ::
  "RouterContext \<Rightarrow> Upstream \<Rightarrow> nat option \<Rightarrow> nat option \<Rightarrow> Hostname option \<Rightarrow> SocketAddr \<Rightarrow> hook_error + HttpPeer" where
  "build_peer ctx upstream cert_key ca_bundle endpoint_host addr =
     (let (use_tls, sni, verify_mode, cert, ca) =
        (case u_tls upstream of
           TlsPolicy_Disabled \<Rightarrow> (False, None, None, None, None)
         | TlsPolicy_Enabled t \<Rightarrow>
             (True, sni_value t (c_sni_override ctx) endpoint_host, Some (tls_verify t), Some (tls_cert t), Some (tls_ca t))) in
      if use_tls \<and> verify_mode = Some Verify_Full \<and> sni = None then Inl (error_of InternalError)
      else
        let per_try = resolve_per_try_timeout (c_route_timeout ctx) (c_retry_policy ctx);
            pool = u_pool upstream;
            peer = \<lparr>peer_addr = addr, peer_tls = use_tls, peer_sni = (case sni of Some n \<Rightarrow> n | None \<Rightarrow> []),
              peer_verify_hostname = fst (verify_options verify_mode), peer_verify_cert = snd (verify_options verify_mode),
              peer_client_cert = None,
              peer_ca = (case ca of Some (Ca_File _) \<Rightarrow> ca_bundle | _ \<Rightarrow> None),
              peer_http = http_versions (u_protocol upstream),
              peer_idle_timeout = idle_timeout_of (pool_idle pool),
              peer_connection_timeout = connect_timeout_of (pool_connect pool),
              peer_read_timeout = per_try, peer_write_timeout = per_try,
              peer_keepalive = map_option (\<lambda>d. \<lparr>ka_idle = from_millis (unat d), ka_interval = from_millis (unat d div 3),
                 ka_count = 3\<rparr>) (pool_tcp_keepalive pool),
              peer_recv_buf = pool_recv_buffer_size pool\<rparr> in
        (case cert of
           Some (ClientCert_Enabled _ _ _) \<Rightarrow>
             (case cert_key of
                None \<Rightarrow> Inl (error_of InternalError)
              | Some k \<Rightarrow> Inr (peer\<lparr>peer_client_cert := Some k\<rparr>))
         | _ \<Rightarrow> Inr peer))"

section \<open>upstream\_peer\<close>

text \<open>
  The answers of the pool and of the breaker (whether a permit was handed out), the instants before and after the
  backoff, the random draw of the load balancer and the TLS materials of the cluster.
\<close>

record peer_env =
  pe_now :: instant
  pe_after_backoff :: instant
  pe_pool :: "PoolRejection + bool"
  pe_breaker :: "CircuitBreakerRejection + bool"
  pe_pick :: u32
  pe_cert_key :: "nat option"
  pe_ca_bundle :: "nat option"

definition retry_pool_full :: "instant \<Rightarrow> RouterContext \<Rightarrow> hook_error \<times> RouterContext" where
  "retry_pool_full now ctx =
     (case c_retry_ctx ctx of
        Some rc \<Rightarrow>
          if is_retryable Reason_PoolFull rc \<and> can_retry now rc
          then (\<lparr>etype = HTTPStatus 503, set_retry = True\<rparr>, ctx\<lparr>c_retry_ctx := Some (next_attempt Reason_PoolFull rc)\<rparr>)
          else (error_of (HTTPStatus 503), ctx)
      | None \<Rightarrow> (error_of (HTTPStatus 503), ctx))"

text \<open>The checks before a further attempt: permits are given back, the deadline and the body are checked.\<close>

definition begin_retry :: "peer_env \<Rightarrow> RouterContext \<Rightarrow> hook_error option \<times> RouterContext" where
  "begin_retry env ctx =
     (case c_retry_ctx ctx of
        None \<Rightarrow> (None, ctx)
      | Some rc \<Rightarrow>
          if attempt rc > 1 then
            let ctx = ctx\<lparr>c_pool_permit := False, c_circuit_breaker_permit := False\<rparr> in
            if is_deadline_exceeded (pe_after_backoff env) rc then (Some (error_of (HTTPStatus 504)), ctx)
            else (case (c_buffered_body ctx, c_retry_policy ctx) of
                    (Some b, Retry_Enabled p) \<Rightarrow>
                      if handle_non_replayable (rp_fail_on_non_replayable_retry p) b \<noteq> Inr ()
                      then (Some (error_of (HTTPStatus 500)), ctx) else (None, ctx)
                  | _ \<Rightarrow> (None, ctx))
          else (None, ctx))"

definition connect_peer ::
  "peer_env \<Rightarrow> bool \<Rightarrow> RouterContext \<Rightarrow> Cluster \<Rightarrow> (hook_error + HttpPeer) \<times> RouterContext \<times> Cluster" where
  "connect_peer env pool_permit ctx cluster =
     (case select_endpoint (pe_after_backoff env) (pe_pick env) cluster of
        (None, cluster) \<Rightarrow> (Inl (error_of InternalError), ctx\<lparr>c_circuit_breaker_permit := False\<rparr>, cluster)
      | (Some endpoint, cluster) \<Rightarrow>
          let ctx = ctx\<lparr>c_upstream_endpoint := Some (ep_address endpoint)\<rparr> in
          case resolve_endpoint_addr endpoint of
            Inl e \<Rightarrow> (Inl (error_of InternalError), ctx, cluster)
          | Inr addr \<Rightarrow>
              case build_peer ctx (cl_config cluster) (pe_cert_key env) (pe_ca_bundle env)
                  (endpoint_host_for_sni (cl_config cluster) endpoint) addr of
                Inl e \<Rightarrow> (Inl e, ctx, cluster)
              | Inr peer \<Rightarrow>
                  (Inr peer, (start_upstream (pe_after_backoff env) ctx)\<lparr>c_pool_permit := pool_permit\<rparr>, cluster))"

definition upstream_peer ::
  "peer_env \<Rightarrow> RouterContext \<Rightarrow> (string \<rightharpoonup> Cluster) \<Rightarrow> (hook_error + HttpPeer) \<times> RouterContext \<times> (string \<rightharpoonup> Cluster)" where
  "upstream_peer env ctx clusters =
     (case (c_upstream_name ctx, c_runtime_state ctx) of
        (Some name, Some _) \<Rightarrow>
          (case clusters name of
             None \<Rightarrow> (Inl (error_of InternalError), ctx, clusters)
           | Some cluster \<Rightarrow>
               (case begin_retry env ctx of
                  (Some e, ctx) \<Rightarrow> (Inl e, ctx, clusters)
                | (None, ctx) \<Rightarrow>
                    (case pe_pool env of
                       Inl Closed \<Rightarrow> (Inl (error_of InternalError), ctx, clusters)
                     | Inl _ \<Rightarrow> (case retry_pool_full (pe_after_backoff env) ctx of (e, ctx) \<Rightarrow> (Inl e, ctx, clusters))
                     | Inr pool_permit \<Rightarrow>
                         (case pe_breaker env of
                            Inl _ \<Rightarrow> (Inl (error_of (HTTPStatus 503)), ctx, clusters)
                          | Inr permit \<Rightarrow>
                              (case connect_peer env pool_permit (ctx\<lparr>c_circuit_breaker_permit := permit\<rparr>) cluster of
                                 (res, ctx, cluster) \<Rightarrow> (res, ctx, clusters(name \<mapsto> cluster)))))))
      | _ \<Rightarrow> (Inl (error_of InternalError), ctx, clusters))"

section \<open>Retry decisions\<close>

definition body_can_replay :: "RouterContext \<Rightarrow> bool" where
  "body_can_replay ctx = (case c_buffered_body ctx of Some b \<Rightarrow> can_replay b | None \<Rightarrow> True)"

definition fails_on_non_replayable :: "RouterContext \<Rightarrow> bool" where
  "fails_on_non_replayable ctx =
     (case c_retry_policy ctx of Retry_Enabled p \<Rightarrow> rp_fail_on_non_replayable_retry p | Retry_Disabled \<Rightarrow> False)"

definition fail_to_connect :: "instant \<Rightarrow> string \<Rightarrow> hook_error \<Rightarrow> RouterContext \<Rightarrow> hook_error \<times> RouterContext" where
  "fail_to_connect now verb e ctx =
     (case c_retry_ctx ctx of
        None \<Rightarrow> (e, ctx)
      | Some rc \<Rightarrow>
          if \<not> is_method_allowed (method_from_str verb) rc then (e, ctx)
          else
            let reason = (if etype e = ConnectTimedout then Reason_ConnectTimeout else Reason_ConnectError) in
            if is_retryable reason rc \<and> can_retry now rc then
              if body_can_replay ctx
              then (e\<lparr>set_retry := True\<rparr>, ctx\<lparr>c_retry_ctx := Some (next_attempt reason rc)\<rparr>)
              else if fails_on_non_replayable ctx then (error_of (HTTPStatus 500), ctx)
              else (e, ctx)
            else (e, ctx))"

definition error_while_proxy ::
  "instant \<Rightarrow> string \<Rightarrow> bool \<Rightarrow> bool \<Rightarrow> hook_error \<Rightarrow> RouterContext \<Rightarrow> hook_error \<times> RouterContext" where
  "error_while_proxy now verb client_reused retry_buffer_truncated e ctx =
     (let e = e\<lparr>set_retry := False\<rparr> in
      if client_reused then (e\<lparr>set_retry := True\<rparr>, ctx)
      else
        let (e, ctx) =
          (case c_retry_ctx ctx of
             None \<Rightarrow> (e, ctx)
           | Some rc \<Rightarrow>
               if is_method_allowed (method_from_str verb) rc then
                 let reason = (if etype e = ReadTimedout then Reason_ReadTimeout else Reason_StatusCode) in
                 if is_retryable reason rc \<and> can_retry now rc
                 then (e\<lparr>set_retry := True\<rparr>, ctx\<lparr>c_retry_ctx := Some (next_attempt reason rc)\<rparr>)
                 else (e, ctx)
               else (e, ctx))
        in (if retry_buffer_truncated then e\<lparr>set_retry := False\<rparr> else e, ctx))"

definition response_filter :: "instant \<Rightarrow> string \<Rightarrow> u16 \<Rightarrow> RouterContext \<Rightarrow> (hook_error + unit) \<times> RouterContext" where
  "response_filter now verb code ctx =
     (case c_retry_ctx ctx of
        None \<Rightarrow> (Inr (), ctx)
      | Some rc \<Rightarrow>
          if is_method_allowed (method_from_str verb) rc \<and> is_status_code_retryable code rc \<and> can_retry now rc then
            if body_can_replay ctx
            then (Inl \<lparr>etype = HTTPStatus code, set_retry = True\<rparr>,
                  ctx\<lparr>c_retry_ctx := Some (next_attempt Reason_StatusCode rc)\<rparr>)
            else if fails_on_non_replayable ctx then (Inl (error_of (HTTPStatus 500)), ctx)
            else (Inr (), ctx)
          else (Inr (), ctx))"

section \<open>The upstream request, the response and the end\<close>

text \<open>The path of the upstream request and its headers; \<open>trace\<close> are the fields the propagator injects.\<close>

definition upstream_request_filter ::
  "http_syntax \<Rightarrow> header_map \<Rightarrow> RouterContext \<Rightarrow> string \<times> header_map \<Rightarrow> hook_error + string \<times> header_map" where
  "upstream_request_filter lib trace ctx req =
     (let uri = (case c_rewritten_uri ctx of Some u \<Rightarrow> u | None \<Rightarrow> fst req) in
      case (case c_rewritten_host ctx of
              None \<Rightarrow> Inr (snd req)
            | Some host \<Rightarrow> if hv_ok lib host then Inr (insert_header ''host'' host (snd req)) else Inl (error_of InternalError)) of
        Inl e \<Rightarrow> Inl e
      | Inr h \<Rightarrow>
          let h = (if c_span_active ctx
                   then fold (\<lambda>(n, v) h. if hn_ok lib n \<and> hv_ok lib v then insert_header (to_ascii_lowercase n) v h else h) trace h
                   else h)
          in Inr (uri, apply_request_headers lib (c_request_headers ctx) h))"

definition upstream_response_filter :: "http_syntax \<Rightarrow> RouterContext \<Rightarrow> header_map \<Rightarrow> header_map" where
  "upstream_response_filter lib ctx resp = apply_response_headers lib (c_response_headers ctx) resp"

definition outcome_of :: "bool \<Rightarrow> u16 \<Rightarrow> UpstreamOutcome" where
  "outcome_of failed code = (if failed \<or> code \<ge> 500 then Failure else if code > 0 then Success else Failure)"

text \<open>\<open>logging\<close>; \<open>code\<close> is the status written to the client, 0 if none was.\<close>

definition end_of_request ::
  "instant \<Rightarrow> bool \<Rightarrow> u16 \<Rightarrow> RouterContext \<Rightarrow> (string \<rightharpoonup> Cluster) \<Rightarrow> RouterContext \<times> (string \<rightharpoonup> Cluster)" where
  "end_of_request now failed code ctx clusters =
     (let ctx' = ctx\<lparr>c_retry_ctx := map_option (record_outcome (code > 0 \<and> code < 500)) (c_retry_ctx ctx),
            c_pool_permit := False, c_circuit_breaker_permit := False\<rparr> in
      case (c_runtime_state ctx, c_upstream_name ctx, c_upstream_endpoint ctx) of
        (Some _, Some name, Some endpoint) \<Rightarrow>
          (case clusters name of
             Some cluster \<Rightarrow> (ctx', clusters(name \<mapsto> cluster_record_outcome now endpoint (outcome_of failed code) cluster))
           | None \<Rightarrow> (ctx', clusters))
      | _ \<Rightarrow> (ctx', clusters))"

section \<open>The choice of the destination\<close>

definition weight_sum :: "Destination list \<Rightarrow> nat" where
  "weight_sum ds = sum_list (map (\<lambda>d. unat (dest_weight d)) ds)"

fun pick_nat :: "nat \<Rightarrow> Destination list \<Rightarrow> UpstreamName option" where
  "pick_nat n [] = None"
| "pick_nat n (d # ds) =
     (if n < unat (dest_weight d) then Some (dest_upstream d) else pick_nat (n - unat (dest_weight d)) ds)"

lemma unat_weight: "unat (ucast (w :: u16) :: u32) = unat w"
  using unat_less_exp [of w] by (simp add: unsigned_ucast_eq take_bit_nat_eq_self_iff)

lemma unat_total_weight: "weight_sum ds < 2 ^ 32 \<Longrightarrow> unat (total_weight ds) = weight_sum ds"
proof (induction ds)
  case (Cons d ds)
  then show ?case by (simp add: total_weight_def weight_sum_def unat_word_ariths unat_weight)
qed (simp add: total_weight_def weight_sum_def)

lemma pick_destination_nat: "pick_destination p ds = pick_nat (unat p) ds"
  by (induction ds arbitrary: p) (simp_all add: Let_def word_less_nat_alt unat_weight unat_sub word_le_nat_alt not_less)

lemma pick_nat_count:
  "card {n. n < weight_sum ds \<and> pick_nat n ds = Some u}
   = sum_list (map (\<lambda>d. unat (dest_weight d)) (filter (\<lambda>d. dest_upstream d = u) ds))"
proof (induction ds)
  case Nil
  then show ?case by (simp add: weight_sum_def)
next
  case (Cons d ds)
  let ?w = "unat (dest_weight d)" and ?S = "{n. n < weight_sum ds \<and> pick_nat n ds = Some u}"
  have "{n. n < weight_sum (d # ds) \<and> pick_nat n (d # ds) = Some u}
      = (if dest_upstream d = u then {..<?w} else {}) \<union> (\<lambda>n. n + ?w) ` ?S" (is "?L = ?A \<union> ?B")
  proof (rule set_eqI)
    fix n
    have "n \<in> ?B \<longleftrightarrow> ?w \<le> n \<and> n - ?w \<in> ?S" by (auto intro: image_eqI [of _ _ "n - ?w"])
    then show "n \<in> ?L \<longleftrightarrow> n \<in> ?A \<union> ?B" by (auto simp: weight_sum_def split: if_splits)
  qed
  moreover have "card (?A \<union> ?B) = card ?A + card ?B"
    by (intro card_Un_disjoint) (auto split: if_splits)
  moreover have "card ?B = card ?S" by (intro card_image) (simp add: inj_on_def)
  ultimately show ?case using Cons by simp
qed

text \<open>
  Traffic is split by weight. While the weights add up to less than 2 to the 32, the number of draws below the
  total weight that send a request to an upstream is the weight of its destinations, and every draw finds one.
\<close>

theorem destination_weighted:
  assumes "weight_sum ds < 2 ^ 32"
  shows "card {p. p < total_weight ds \<and> pick_destination p ds = Some u}
      = sum_list (map (\<lambda>d. unat (dest_weight d)) (filter (\<lambda>d. dest_upstream d = u) ds))
    \<and> \<not> (\<exists>p < total_weight ds. pick_destination p ds = None)"
proof
  have total: "unat (total_weight ds) = weight_sum ds" using assms by (rule unat_total_weight)
  have lt: "p < total_weight ds \<longleftrightarrow> unat p < weight_sum ds" for p by (simp add: word_less_nat_alt total)
  let ?P = "{p. p < total_weight ds \<and> pick_destination p ds = Some u}"
  let ?N = "{n. n < weight_sum ds \<and> pick_nat n ds = Some u}"
  have inverse: "unat (of_nat n :: u32) = n" if "n \<in> ?N" for n
    using that assms by (simp add: unat_of_nat)
  have "card ?P = card ?N"
  proof (rule bij_betw_same_card [of unat], rule bij_betw_byWitness [where f' = of_nat])
    show "\<forall>p\<in>?P. of_nat (unat p) = p" by simp
    show "\<forall>n\<in>?N. unat (of_nat n :: u32) = n" using inverse by blast
    show "unat ` ?P \<subseteq> ?N" by (auto simp: lt pick_destination_nat)
    show "of_nat ` ?N \<subseteq> ?P" using inverse by (auto simp: lt pick_destination_nat)
  qed
  then show "card ?P = sum_list (map (\<lambda>d. unat (dest_weight d)) (filter (\<lambda>d. dest_upstream d = u) ds))"
    by (simp only: pick_nat_count)
  have "pick_nat n ds \<noteq> None" if "n < weight_sum ds" for n
    using that by (induction ds arbitrary: n) (auto simp: weight_sum_def)
  then show "\<not> (\<exists>p < total_weight ds. pick_destination p ds = None)" by (auto simp: lt pick_destination_nat)
qed

theorem destination_weighted_witness:
  "card {p. p < total_weight [\<lparr>dest_upstream = ''a'', dest_weight = 3\<rparr>, \<lparr>dest_upstream = ''b'', dest_weight = 1\<rparr>]
      \<and> pick_destination p [\<lparr>dest_upstream = ''a'', dest_weight = 3\<rparr>, \<lparr>dest_upstream = ''b'', dest_weight = 1\<rparr>] = Some ''a''} = 3"
  using destination_weighted [of "[\<lparr>dest_upstream = ''a'', dest_weight = 3\<rparr>, \<lparr>dest_upstream = ''b'', dest_weight = 1\<rparr>]" "''a''"]
  by (simp add: weight_sum_def)

section \<open>Authorisation\<close>

lemma pick_destination_in: "pick_destination p ds = Some u \<Longrightarrow> u \<in> dest_upstream ` set ds"
  by (induction ds arbitrary: p) (auto simp: Let_def split: if_splits)

lemma prepare_retry_keeps:
  "prepare_retry now metrics reads action ctx = Inr ctx' \<Longrightarrow>
     c_upstream_name ctx' = c_upstream_name ctx \<and> c_sni_override ctx' = c_sni_override ctx"
  by (auto simp: prepare_retry_def Let_def split: RetryPolicy.splits body_outcome.splits)

lemma handle_route_upstream:
  assumes "handle_route env req query route ctx = (res, ctx')" "c_upstream_name ctx = None" "c_upstream_name ctx' = Some u"
  shows "is_authorized (r_principal route) (c_client_identity ctx)
    \<and> (\<exists>dests. r_action route = Action_Forward dests \<and> u \<in> dest_upstream ` set dests)"
  using assms
  by (auto simp: handle_route_def Let_def apply_route_headers_def dest!: prepare_retry_keeps pick_destination_in
      split: if_splits sum.splits RouteAction.splits option.splits RewriteHost.splits)

lemma request_filter_upstream:
  assumes "request_filter env router req query ctx = (res, ctx')" "c_upstream_name ctx = None" "c_upstream_name ctx' = Some u"
  shows "\<exists>v r dests. selection (match_request router req) = Some (v, r)
    \<and> is_authorized (r_principal r) (c_client_identity ctx)
    \<and> r_action r = Action_Forward dests \<and> u \<in> dest_upstream ` set dests"
  using assms handle_route_upstream [of env req query _ "ctx\<lparr>c_runtime_state := Some router\<rparr>" res ctx' u]
    handle_route_upstream [of env req query _ "ctx\<lparr>c_runtime_state := Some router, c_span_active := True\<rparr>" res ctx' u]
  by (auto simp: request_filter_def Let_def split: option.splits if_splits)

lemma connect_peer_Inr:
  assumes "connect_peer env permit ctx cluster = (Inr peer, ctx', cluster')"
  shows "\<exists>e. select_endpoint (pe_after_backoff env) (pe_pick env) cluster = (Some e, cluster')
    \<and> resolve_endpoint_addr e = Inr (peer_addr peer)"
proof -
  have addr: "peer_addr peer = a" if "build_peer c u k b h a = Inr peer" for c u k b h a
    using that by (auto simp: build_peer_def Let_def split: TlsPolicy.splits if_splits ClientCert.splits option.splits)
  obtain sel cl where sel: "select_endpoint (pe_after_backoff env) (pe_pick env) cluster = (sel, cl)" by fastforce
  then show ?thesis
    using assms addr by (cases sel) (auto simp: connect_peer_def Let_def split: sum.splits)
qed

lemma begin_retry_keeps:
  "begin_retry env ctx = (e, ctx') \<Longrightarrow> c_upstream_name ctx' = c_upstream_name ctx \<and> c_sni_override ctx' = c_sni_override ctx"
  by (auto simp: begin_retry_def Let_def split: option.splits if_splits RetryPolicy.splits)

lemma upstream_peer_connects:
  assumes "upstream_peer env ctx clusters = (Inr peer, ctx', clusters')"
  shows "\<exists>name cluster permit ctx1 cl. c_upstream_name ctx = Some name \<and> clusters name = Some cluster
    \<and> c_sni_override ctx1 = c_sni_override ctx \<and> connect_peer env permit ctx1 cluster = (Inr peer, ctx', cl)
    \<and> clusters' = clusters(name \<mapsto> cl)"
proof -
  from assms obtain name cluster where n: "c_upstream_name ctx = Some name" "clusters name = Some cluster"
    by (auto simp: upstream_peer_def split: option.splits)
  obtain e ctx1 where r: "begin_retry env ctx = (e, ctx1)" by fastforce
  obtain pp where p: "e = None" "pe_pool env = Inr pp"
    using assms n r by (auto simp: upstream_peer_def split: option.splits sum.splits PoolRejection.splits prod.splits)
  obtain bp where q: "pe_breaker env = Inr bp"
    using assms n r p by (auto simp: upstream_peer_def split: option.splits sum.splits)
  obtain res ctx2 cl where c: "connect_peer env pp (ctx1\<lparr>c_circuit_breaker_permit := bp\<rparr>) cluster = (res, ctx2, cl)"
    by (metis prod_cases3)
  have "res = Inr peer" "ctx2 = ctx'" "clusters' = clusters(name \<mapsto> cl)"
    using assms n r p q c by (auto simp: upstream_peer_def split: option.splits)
  with n c begin_retry_keeps [OF r] show ?thesis
    by (intro exI [of _ name] exI [of _ cluster] exI [of _ pp] exI [of _ "ctx1\<lparr>c_circuit_breaker_permit := bp\<rparr>"] exI [of _ cl]) auto
qed

lemma upstream_peer_Inr:
  assumes "upstream_peer env ctx clusters = (Inr peer, ctx', clusters')"
  shows "\<exists>name cluster cluster' e. c_upstream_name ctx = Some name \<and> clusters name = Some cluster \<and> clusters' name = Some cluster'
    \<and> select_endpoint (pe_after_backoff env) (pe_pick env) cluster = (Some e, cluster') \<and> resolve_endpoint_addr e = Inr (peer_addr peer)"
  using upstream_peer_connects [OF assms] connect_peer_Inr by fastforce

text \<open>Clusters in operation: each was made at some time and changed by its own operations since, none of them in the future.\<close>

definition clusters_at :: "instant \<Rightarrow> (string \<rightharpoonup> Cluster) \<Rightarrow> bool" where
  "clusters_at now clusters \<longleftrightarrow> (\<forall>name c. clusters name = Some c \<longrightarrow> (\<exists>t\<le>now. cluster_at t c))"

text \<open>
  C13: a connection to an upstream is opened only for a request that may have it, and only to an endpoint that may get it. If after the
  request filter the peer of a request is built from clusters in operation, then the router selected a route, the client is authorised for
  that route's principal, the upstream planned is one of the route's destinations, and the peer is the address of an endpoint of that
  upstream's cluster that is marked healthy by the active checks and is not ejected at the moment of the selection.
\<close>

theorem peer_only_if_authorized:
  assumes "c_upstream_name ctx = None"
    and "request_filter env router req query ctx = (res, ctx')"
    and "upstream_peer penv ctx' clusters = (Inr peer, ctx'', clusters')"
    and "clusters_at (pe_after_backoff penv) clusters"
  shows "\<exists>v r dests name cluster e. selection (match_request router req) = Some (v, r)
    \<and> is_authorized (r_principal r) (c_client_identity ctx)
    \<and> r_action r = Action_Forward dests \<and> name \<in> dest_upstream ` set dests \<and> c_upstream_name ctx' = Some name
    \<and> clusters' name = Some cluster \<and> e \<in> set (hs_endpoints (cl_health cluster))
    \<and> (\<forall>s. map_of (hs_statuses (cl_health cluster)) (key_from_endpoint e) = Some s \<longrightarrow>
         active_health s = Healthy \<and> (\<forall>until. ejected_until s = Some until \<longrightarrow> until \<le> pe_after_backoff penv))
    \<and> resolve_endpoint_addr e = Inr (peer_addr peer)"
proof -
  from upstream_peer_Inr [OF assms(3)] obtain name old cluster e where c: "c_upstream_name ctx' = Some name" "clusters name = Some old"
    "clusters' name = Some cluster" "select_endpoint (pe_after_backoff penv) (pe_pick penv) old = (Some e, cluster)"
    "resolve_endpoint_addr e = Inr (peer_addr peer)" by blast
  from assms(4) c(2) obtain t where "cluster_at t old" "t \<le> pe_after_backoff penv" by (auto simp: clusters_at_def)
  from selected_status [OF this c(4)] have e: "e \<in> set (hs_endpoints (cl_health cluster))"
    "\<forall>s. map_of (hs_statuses (cl_health cluster)) (key_from_endpoint e) = Some s \<longrightarrow>
       active_health s = Healthy \<and> (\<forall>until. ejected_until s = Some until \<longrightarrow> until \<le> pe_after_backoff penv)" by auto
  from request_filter_upstream [OF assms(2,1) c(1)] c(1,3,5) e show ?thesis by blast
qed

text \<open>A route to the sample upstream for one client, and the run of a request of that client.\<close>

definition guarded_route :: Route where
  "guarded_route = (sample_route (Path_Prefix ''/''))\<lparr>r_principal := Principal_Authenticated ''spiffe://td/app''\<rparr>"

definition guarded_vhosts :: "VirtualHost list" where
  "guarded_vhosts = [\<lparr>vh_host = ''a.com'', vh_paths = [guarded_route]\<rparr>]"

definition plain_syntax :: http_syntax where
  "plain_syntax = \<lparr>hn_ok = \<lambda>_. True, hv_ok = \<lambda>_. True, hb_ok = \<lambda>_. True\<rparr>"

definition sample_filter_env :: filter_env where
  "sample_filter_env = \<lparr>fe_syntax = plain_syntax, fe_build_uri = Some, fe_now = 0, fe_metrics = None, fe_reads = [],
     fe_pick = \<lambda>_. 0, fe_tracing = False\<rparr>"

definition sample_peer_env :: peer_env where
  "sample_peer_env = \<lparr>pe_now = 0, pe_after_backoff = 0, pe_pool = Inr True, pe_breaker = Inr False, pe_pick = 0,
     pe_cert_key = None, pe_ca_bundle = None\<rparr>"

definition sample_client :: RouterContext where
  "sample_client = (new_ctx rid_empty 0)\<lparr>c_client_identity := Some ''spiffe://td/app''\<rparr>"

definition sample_clusters :: "string \<rightharpoonup> Cluster" where
  "sample_clusters = [''backend'' \<mapsto> cluster_new 0 sample_upstream]"

lemma guarded_selection:
  "\<exists>router. selection (match_request router (demo_request ''a.com'' ''/x'')) = Some (hd guarded_vhosts, guarded_route)"
proof -
  have "\<exists>router. with_regex literal_lib guarded_vhosts Map.empty regex_limits_default = Inr router"
    unfolding with_regex_ok_iff by (simp add: guarded_vhosts_def guarded_route_def sample_route_def)
  then obtain router where r: "with_regex literal_lib guarded_vhosts Map.empty regex_limits_default = Inr router" by blast
  have "distinct (map vh_host guarded_vhosts)" by (simp add: guarded_vhosts_def)
  from match_request_candidates [OF r this, of "demo_request ''a.com'' ''/x''"] show ?thesis
    by (auto simp: demo_request_def normalize_host_def candidates_def is_wildcard_def first_route_def route_holds_def
        headers_hold_def guarded_vhosts_def guarded_route_def sample_route_def)
qed

lemma sample_selects:
  "\<exists>cl. select_endpoint 0 0 (cluster_new 0 sample_upstream) = (Some (hd (u_endpoints sample_upstream)), cl)
     \<and> cl_config cl = sample_upstream"
proof -
  define e where "e = hd (u_endpoints sample_upstream)"
  have es: "u_endpoints sample_upstream = [e]" by (simp add: e_def sample_upstream_def)
  have "refresh_expired_ejections 0 (cluster_new 0 sample_upstream) = cluster_new 0 sample_upstream"
    by (simp add: refresh_expired_ejections_def with_health_def clear_expired_ejections_def cluster_new_def health_new_def es
        expired_def status_default_def Let_def)
  moreover have "cl_state (cluster_new 0 sample_upstream) = build_state_parts [e]"
    by (simp add: cluster_new_def health_new_def eligible_endpoints_def eligible_status_def status_default_def es Let_def)
  moreover have "fst (select_index RoundRobin (build_state_parts [e]) 0 0) = 0"
    using select_index_bound [of "[e]" RoundRobin 0 0] by simp
  moreover have "cl_config (cluster_new 0 sample_upstream) = sample_upstream" "u_balancer sample_upstream = RoundRobin"
    "cl_rr_counter (cluster_new 0 sample_upstream) = 0"
    by (simp_all add: cluster_new_def sample_upstream_def Let_def)
  ultimately show ?thesis
    by (cases "select_index RoundRobin (build_state_parts [e]) 0 0") (simp add: select_endpoint_def e_def Let_def)
qed

theorem peer_only_if_authorized_witness:
  "\<exists>router ctx' peer ctx'' clusters'.
     request_filter sample_filter_env router (demo_request ''a.com'' ''/x'') None sample_client = (Inr Forwarded, ctx')
     \<and> upstream_peer sample_peer_env ctx' sample_clusters = (Inr peer, ctx'', clusters')
     \<and> (\<exists>v r. selection (match_request router (demo_request ''a.com'' ''/x'')) = Some (v, r)
          \<and> is_authorized (r_principal r) (Some ''spiffe://td/app''))"
proof -
  obtain router where sel: "selection (match_request router (demo_request ''a.com'' ''/x'')) = Some (hd guarded_vhosts, guarded_route)"
    using guarded_selection by blast
  have none: "c_upstream_name sample_client = None" by (simp add: sample_client_def new_ctx_def)
  obtain ctx' where f: "request_filter sample_filter_env router (demo_request ''a.com'' ''/x'') None sample_client = (Inr Forwarded, ctx')"
    and c': "c_upstream_name ctx' = Some ''backend''" "c_runtime_state ctx' = Some router" "c_retry_ctx ctx' = None"
    by (simp add: request_filter_def sel handle_route_def guarded_route_def sample_route_def sample_filter_env_def
        sample_client_def new_ctx_def apply_route_headers_def calculate_path_rewrite_def prepare_retry_def total_weight_def
        Let_def)
  obtain cl where cl: "select_endpoint 0 0 (cluster_new 0 sample_upstream) = (Some (hd (u_endpoints sample_upstream)), cl)"
    "cl_config cl = sample_upstream" using sample_selects by blast
  obtain peer ctx'' clusters' where p: "upstream_peer sample_peer_env ctx' sample_clusters = (Inr peer, ctx'', clusters')"
    using c' cl
    by (simp add: upstream_peer_def begin_retry_def connect_peer_def sample_peer_env_def sample_clusters_def
        sample_upstream_def resolve_endpoint_addr_def build_peer_def Let_def)
  have "c_client_identity sample_client = Some ''spiffe://td/app''" by (simp add: sample_client_def)
  moreover have "clusters_at (pe_after_backoff sample_peer_env) sample_clusters"
    by (auto simp: clusters_at_def sample_clusters_def sample_peer_env_def intro: created)
  ultimately obtain v r where
    "selection (match_request router (demo_request ''a.com'' ''/x'')) = Some (v, r)"
    "is_authorized (r_principal r) (Some ''spiffe://td/app'')" using peer_only_if_authorized [OF none f p] by (simp only:) blast
  with f p show ?thesis by blast
qed

section \<open>TLS to the upstream\<close>


definition tls_upstream :: "TlsSettings \<Rightarrow> Upstream" where
  "tls_upstream t = sample_upstream\<lparr>u_tls := TlsPolicy_Enabled t\<rparr>"

definition auto_tls :: TlsSettings where
  "auto_tls = \<lparr>tls_verify = Verify_Full, tls_sni = Sni_Auto, tls_canonical_sni = CanonicalSni_Disabled,
     tls_reuse_across_sni = Reuse_Disabled, tls_cert = ClientCert_Disabled, tls_ca = Ca_System\<rparr>"


text \<open>No hook writes the server name override.\<close>

lemma handle_route_sni:
  "handle_route env req query route ctx = (res, ctx') \<Longrightarrow> c_sni_override ctx' = c_sni_override ctx"
  by (auto simp: handle_route_def Let_def apply_route_headers_def dest!: prepare_retry_keeps
      split: if_splits sum.splits RouteAction.splits option.splits RewriteHost.splits)

lemma request_filter_sni:
  "request_filter env router req query ctx = (res, ctx') \<Longrightarrow> c_sni_override ctx' = c_sni_override ctx"
  by (auto simp: request_filter_def Let_def dest!: handle_route_sni split: option.splits if_splits)

lemma retry_hooks_sni:
  "c_sni_override (snd (fail_to_connect now verb e ctx)) = c_sni_override ctx"
  "c_sni_override (snd (error_while_proxy now verb reused truncated e ctx)) = c_sni_override ctx"
  "c_sni_override (snd (response_filter now verb code ctx)) = c_sni_override ctx"
  by (simp_all add: fail_to_connect_def error_while_proxy_def response_filter_def Let_def split: option.splits)

lemma select_endpoint_config: "cl_config (snd (select_endpoint now pick c)) = cl_config c"
  by (auto simp: select_endpoint_def refresh_expired_ejections_def with_health_def refresh_state_from_health_def Let_def
      split: prod.splits)

lemma auto_sni_needs_name:
  assumes "c_sni_override ctx = None"
  shows "\<not> (\<exists>peer. build_peer ctx (tls_upstream auto_tls) k b None addr = Inr peer)"
  using assms by (auto simp: build_peer_def tls_upstream_def auto_tls_def sni_value_def Let_def)

lemma no_peer_for_auto_sni:
  assumes "upstream_peer penv ctx clusters = (Inr peer, ctx', clusters')" "c_sni_override ctx = None"
    and "c_upstream_name ctx = Some name" "clusters name = Some cluster" "cl_config cluster = tls_upstream auto_tls"
  shows False
proof -
  obtain permit ctx1 cl where c: "c_sni_override ctx1 = None" "connect_peer penv permit ctx1 cluster = (Inr peer, ctx', cl)"
    using upstream_peer_connects [OF assms(1)] assms(2-4) by auto
  obtain sel cl' where sel: "select_endpoint (pe_after_backoff penv) (pe_pick penv) cluster = (sel, cl')" by fastforce
  then have cfg: "cl_config cl' = tls_upstream auto_tls"
    using select_endpoint_config [of "pe_after_backoff penv" "pe_pick penv" cluster] assms(5) by simp
  from c(2) sel obtain e where e: "sel = Some e" by (cases sel) (auto simp: connect_peer_def)
  from c(2) sel e obtain addr where addr: "resolve_endpoint_addr e = Inr addr"
    by (auto simp: connect_peer_def Let_def split: sum.splits)
  then have "endpoint_host_for_sni (tls_upstream auto_tls) e = None"
    by (auto simp: resolve_endpoint_addr_def endpoint_host_for_sni_def tls_upstream_def sample_upstream_def split: EndpointAddr.splits)
  with c sel e cfg addr auto_sni_needs_name [of "ctx1\<lparr>c_upstream_endpoint := Some (ep_address e)\<rparr>"] show False
    by (auto simp: connect_peer_def Let_def split: sum.splits)
qed

definition rewrite_route :: Route where
  "rewrite_route = (sample_route (Path_Prefix ''/''))\<lparr>r_rewrite := \<lparr>rw_path = RewritePath_Disabled,
     rw_host = RewriteHost_Literal ''db.example''\<rparr>\<rparr>"

definition rewrite_config :: RuntimeConfig where
  "rewrite_config = sample_config\<lparr>upstreams := [tls_upstream auto_tls],
     routes := [\<lparr>vh_host = ''a.com'', vh_paths = [rewrite_route]\<rparr>]\<rparr>"

lemma rewrite_config_ok: "config_ok sample_externs rewrite_config"
  by (simp add: config_ok_def rewrite_config_def sample_config_def listener_ok_def tls_upstream_def auto_tls_def sample_upstream_def
      upstream_ok_def vhost_ok_def route_ok_def rewrite_route_def sample_route_def headers_ok_def action_ok_def normal_path_iff
      path_not_normalized_def sample_externs_def sni_ok_def bound_ports_def suffix_def)

text \<open>
  C18: a host rewrite does not give the server name that the validation counts on. A configuration with full
  verification, automatic server name and IP endpoints is accepted because its route rewrites the host, but nothing carries the
  rewritten host into the server name override: no request that passed the filter ever gets a peer of such an upstream.
\<close>

theorem host_rewrite_gives_no_sni:
  "config_ok sample_externs rewrite_config
   \<and> \<not> (\<exists>env router req query rid now res ctx' penv cluster clusters peer ctx'' clusters'.
        request_filter env router req query (new_ctx rid now) = (res, ctx')
      \<and> c_upstream_name ctx' = Some ''backend'' \<and> clusters ''backend'' = Some cluster
      \<and> cl_config cluster \<in> set (upstreams rewrite_config)
      \<and> upstream_peer penv ctx' clusters = (Inr peer, ctx'', clusters'))"
proof -
  have "upstreams rewrite_config = [tls_upstream auto_tls]" by (simp add: rewrite_config_def)
  moreover have "c_sni_override ctx' = None" if "request_filter env router req query (new_ctx rid now) = (res, ctx')"
    for env router req query rid now res ctx'
    using request_filter_sni [OF that] by (simp add: new_ctx_def)
  ultimately show ?thesis
    using rewrite_config_ok no_peer_for_auto_sni by (simp only: list.set insert_iff empty_iff simp_thms) blast
qed

section \<open>Retries\<close>

text \<open>The failures the hooks see, at an instant and for a method, and whether the hook asks for a retry.\<close>

datatype retry_event =
    Connect_Failed instant string error_type
  | Proxy_Failed instant string bool bool error_type
  | Response_Received instant string u16
  | Pool_Refused instant

fun run_event :: "retry_event \<Rightarrow> RouterContext \<Rightarrow> bool \<times> RouterContext" where
  "run_event (Connect_Failed now verb t) ctx = (case fail_to_connect now verb (error_of t) ctx of (e, ctx') \<Rightarrow> (set_retry e, ctx'))"
| "run_event (Proxy_Failed now verb reused truncated t) ctx =
     (case error_while_proxy now verb reused truncated (error_of t) ctx of (e, ctx') \<Rightarrow> (set_retry e, ctx'))"
| "run_event (Response_Received now verb code) ctx =
     (case response_filter now verb code ctx of (Inl e, ctx') \<Rightarrow> (set_retry e, ctx') | (Inr _, ctx') \<Rightarrow> (False, ctx'))"
| "run_event (Pool_Refused now) ctx = (case retry_pool_full now ctx of (e, ctx') \<Rightarrow> (set_retry e, ctx'))"

fun count_retries :: "retry_event list \<Rightarrow> RouterContext \<Rightarrow> nat" where
  "count_retries [] ctx = 0"
| "count_retries (ev # evs) ctx =
     (case run_event ev ctx of (b, ctx') \<Rightarrow> (if b then 1 else 0) + count_retries evs ctx')"

fun on_reused :: "retry_event \<Rightarrow> bool" where
  "on_reused (Proxy_Failed now verb reused truncated t) \<longleftrightarrow> reused"
| "on_reused _ \<longleftrightarrow> False"

fun event_time :: "retry_event \<Rightarrow> instant" where
  "event_time (Connect_Failed now _ _) = now"
| "event_time (Proxy_Failed now _ _ _ _) = now"
| "event_time (Response_Received now _ _) = now"
| "event_time (Pool_Refused now) = now"

text \<open>The declared policy: which methods may be retried, and what is left of the attempts and of the time.\<close>

definition method_retryable :: "RetryConfig \<Rightarrow> string \<Rightarrow> bool" where
  "method_retryable p verb \<longleftrightarrow> from_method (method_from_str verb) = Idempotent \<or> rp_retry_non_idempotent p"

definition attempt_left :: "instant \<Rightarrow> RetryContext \<Rightarrow> bool" where
  "attempt_left now rc \<longleftrightarrow> unat (attempt rc) < unat (max_attempts rc) \<and> now < global_deadline rc"

lemma can_retry_iff: "can_retry now rc \<longleftrightarrow> attempt_left now rc"
  by (auto simp: can_retry_def is_deadline_exceeded_def attempt_left_def word_less_nat_alt)

lemma method_allowed_iff: "rc_policy rc = Retry_Enabled p \<Longrightarrow> is_method_allowed (method_from_str verb) rc \<longleftrightarrow> method_retryable p verb"
  by (cases "from_method (method_from_str verb)") (simp_all add: is_method_allowed_def method_retryable_def)

lemmas retry_rules = run_event.simps fail_to_connect_def error_while_proxy_def response_filter_def retry_pool_full_def error_of_def
  is_retryable_def is_status_code_retryable_def can_retry_iff method_allowed_iff Let_def

lemma next_attempt_keeps: "max_attempts (next_attempt reason rc) = max_attempts rc"
  by (simp add: next_attempt_def Let_def)

lemma next_attempt_attempt: "can_retry now rc \<Longrightarrow> unat (attempt (next_attempt reason rc)) = unat (attempt rc) + 1"
  using failure_at_attempt [of "(now, reason)" rc] by (simp add: failure_at_def)

definition attempts_left :: "RouterContext \<Rightarrow> nat" where
  "attempts_left ctx = (case c_retry_ctx ctx of None \<Rightarrow> 0 | Some rc \<Rightarrow> unat (max_attempts rc) - unat (attempt rc))"

lemma run_event_left:
  assumes "\<not> on_reused ev" "run_event ev ctx = (b, ctx')"
  shows "(if b then 1 else 0) + attempts_left ctx' \<le> attempts_left ctx"
proof -
  have step: "Suc (attempts_left (ctx\<lparr>c_retry_ctx := Some (next_attempt reason rc)\<rparr>)) \<le> attempts_left ctx"
    if "c_retry_ctx ctx = Some rc" "can_retry now rc" for rc now reason
    using that next_attempt_attempt [OF that(2), of reason]
    by (auto simp: attempts_left_def next_attempt_keeps can_retry_def word_less_nat_alt)
  have step': "attempts_left (ctx\<lparr>c_retry_ctx := Some (next_attempt reason rc)\<rparr>) \<le> attempts_left ctx"
    if "c_retry_ctx ctx = Some rc" "can_retry now rc" for rc now reason using step [OF that] by (rule Suc_leD)
  from assms show ?thesis
    by (cases ev) (auto simp: fail_to_connect_def error_while_proxy_def response_filter_def retry_pool_full_def error_of_def Let_def
        intro: step step' split: option.splits if_splits)
qed

lemma retries_bounded:
  "\<forall>e\<in>set evs. \<not> on_reused e \<Longrightarrow> count_retries evs ctx \<le> attempts_left ctx"
proof (induction evs arbitrary: ctx)
  case (Cons e evs)
  obtain b ctx' where e: "run_event e ctx = (b, ctx')" by fastforce
  from Cons.prems have "(if b then 1 else 0) + attempts_left ctx' \<le> attempts_left ctx"
    using run_event_left [OF _ e] by simp
  moreover from Cons have "count_retries evs ctx' \<le> attempts_left ctx'" by simp
  ultimately show ?case using e by simp
qed simp

text \<open>
  C15: when the proxy retries, for a request with the retry policy \<open>p\<close>. After a failed connection, if and only if the method may be retried
  (it is idempotent or \<open>retry_non_idempotent\<close> is set), the reason is one of the policy's, an attempt and time are left and the body can be
  replayed. After a failure on a connection that was not reused, likewise, with the retry buffer of the framework not truncated instead of the
  body. For a response, if its status is one of the policy's and the method, the attempts, the time and the body allow it. When the pool has no
  connection, if the policy has that reason and an attempt and time are left; neither the method nor the body is looked at then. However many
  failures occur, in whatever order, the retries on connections that were not reused do not exceed the attempts left.
\<close>

theorem retries_follow_policy:
  assumes "c_retry_ctx ctx = Some rc" "rc_policy rc = Retry_Enabled p" "\<forall>e\<in>set evs. \<not> on_reused e"
  shows "fst (run_event (Connect_Failed now verb t) ctx) = (method_retryable p verb
      \<and> (if t = ConnectTimedout then Reason_ConnectTimeout else Reason_ConnectError) \<in> set (rp_retryable_reasons p)
      \<and> attempt_left now rc \<and> body_can_replay ctx)
    \<and> fst (run_event (Proxy_Failed now verb False truncated t) ctx) = (method_retryable p verb
      \<and> (if t = ReadTimedout then Reason_ReadTimeout else Reason_StatusCode) \<in> set (rp_retryable_reasons p)
      \<and> attempt_left now rc \<and> \<not> truncated)
    \<and> fst (run_event (Response_Received now verb code) ctx) = (method_retryable p verb
      \<and> Reason_StatusCode \<in> set (rp_retryable_reasons p) \<and> (\<exists>codes. rp_retryable_status_codes p = Some codes \<and> code \<in> set codes)
      \<and> attempt_left now rc \<and> body_can_replay ctx)
    \<and> fst (run_event (Pool_Refused now) ctx) = (Reason_PoolFull \<in> set (rp_retryable_reasons p) \<and> attempt_left now rc)
    \<and> count_retries evs ctx \<le> attempts_left ctx"
proof (intro conjI)
  show "fst (run_event (Connect_Failed now verb t) ctx) = (method_retryable p verb
      \<and> (if t = ConnectTimedout then Reason_ConnectTimeout else Reason_ConnectError) \<in> set (rp_retryable_reasons p)
      \<and> attempt_left now rc \<and> body_can_replay ctx)"
    using assms by (auto simp: retry_rules)
  show "fst (run_event (Proxy_Failed now verb False truncated t) ctx) = (method_retryable p verb
      \<and> (if t = ReadTimedout then Reason_ReadTimeout else Reason_StatusCode) \<in> set (rp_retryable_reasons p)
      \<and> attempt_left now rc \<and> \<not> truncated)"
    using assms by (simp add: retry_rules)
  show "fst (run_event (Response_Received now verb code) ctx) = (method_retryable p verb
      \<and> Reason_StatusCode \<in> set (rp_retryable_reasons p) \<and> (\<exists>codes. rp_retryable_status_codes p = Some codes \<and> code \<in> set codes)
      \<and> attempt_left now rc \<and> body_can_replay ctx)"
    using assms by (cases "rp_retryable_status_codes p") (auto simp: retry_rules)
  show "fst (run_event (Pool_Refused now) ctx) = (Reason_PoolFull \<in> set (rp_retryable_reasons p) \<and> attempt_left now rc)"
    using assms by (simp add: retry_rules)
qed (rule retries_bounded [OF assms(3)])

definition retrying_client :: RouterContext where
  "retrying_client = sample_client\<lparr>c_retry_policy := Retry_Enabled (sample_policy (Backoff_Fixed 10)),
     c_retry_ctx := Some (retry_context_new 0 (Retry_Enabled (sample_policy (Backoff_Fixed 10))) 1000 None ''backend'')\<rparr>"

theorem retries_follow_policy_witness:
  "fst (run_event (Response_Received 5 ''GET'' 503) retrying_client) \<and> \<not> fst (run_event (Response_Received 5 ''POST'' 503) retrying_client)
   \<and> count_retries (replicate 70000 (Response_Received 5 ''GET'' 503)) retrying_client \<le> 4"
proof -
  let ?evs = "replicate 70000 (Response_Received 5 ''GET'' 503)"
  let ?rc = "retry_context_new 0 (Retry_Enabled (sample_policy (Backoff_Fixed 10))) 1000 None ''backend''"
  have rc: "c_retry_ctx retrying_client = Some ?rc" "rc_policy ?rc = Retry_Enabled (sample_policy (Backoff_Fixed 10))"
    by (simp_all add: retrying_client_def retry_context_new_def)
  have "\<forall>e\<in>set ?evs. \<not> on_reused e" by simp
  note rules = retries_follow_policy [OF rc this]
  have left: "attempt_left 5 ?rc" "attempts_left retrying_client = 4" "body_can_replay retrying_client"
    by (simp_all add: attempt_left_def attempts_left_def retrying_client_def retry_context_new_def sample_policy_def from_millis_def
        body_can_replay_def sample_client_def new_ctx_def)
  have "method_retryable (sample_policy (Backoff_Fixed 10)) ''GET''" "\<not> method_retryable (sample_policy (Backoff_Fixed 10)) ''POST''"
    by (simp_all add: method_retryable_def method_from_str_def sample_policy_def to_ascii_uppercase_char_def Let_def)
  with rules left show ?thesis by (simp add: sample_policy_def retryable_codes_default_def)
qed

text \<open>When the pool has no connection, a method that must not be retried is retried all the same.\<close>

lemma pool_refusal_ignores_method:
  assumes "c_retry_ctx ctx = Some rc" "rc_policy rc = Retry_Enabled p" "Reason_PoolFull \<in> set (rp_retryable_reasons p)" "attempt_left now rc"
  shows "fst (run_event (Pool_Refused now) ctx)"
  using assms by (simp add: retry_rules)

text \<open>
  On a reused connection none of this is looked at: neither the method nor the attempts left nor the truncated buffer.
\<close>

theorem reused_connection_always_retries:
  "fst (run_event (Proxy_Failed now verb True True t) ctx)"
  by (simp add: error_while_proxy_def Let_def)

text \<open>A method the proxy does not know counts as \<open>GET\<close> and is retried although it need not be idempotent.\<close>

theorem unknown_method_is_get:
  "method_from_str ''PROPPATCH'' = GET \<and> from_method (method_from_str ''PROPPATCH'') = Idempotent"
proof -
  have "map to_ascii_uppercase_char ''PROPPATCH'' = ''PROPPATCH''" by (simp add: to_ascii_uppercase_char_def)
  then show ?thesis by (simp add: method_from_str_def Let_def)
qed

end
