(* ===== verification/Net_Addr.thy ===== *)
theory Net_Addr
  imports Request_Plan
begin

text \<open>
  Reading the text of an address, as \<open>std::net\<close> does for \<open>IpAddr::from_str\<close> and \<open>SocketAddr::from_str\<close>: a parser
  takes the text that is left and returns a result and the rest, or nothing and the text stays as it was. The
  configuration codec and the relay parse addresses with it. Reading inverts the text of \<open>Cluster\<close> and
  \<open>Request_Plan\<close>, so two addresses never have the same text.
\<close>

section \<open>The parser\<close>

definition to_digit :: "nat \<Rightarrow> char \<Rightarrow> nat option" where
  "to_digit radix c =
     (let n = of_char c;
          d = (if 48 \<le> n \<and> n \<le> 57 then n - 48 else if 97 \<le> n \<and> n \<le> 122 then n - 87
               else if 65 \<le> n \<and> n \<le> 90 then n - 55 else radix)
      in if d < radix then Some d else None)"

definition digits_value :: "nat \<Rightarrow> string \<Rightarrow> nat" where
  "digits_value radix ds = foldl (\<lambda>v c. v * radix + the (to_digit radix c)) 0 ds"

text \<open>\<open>read_number\<close> into an integer type whose values are below \<open>limit\<close>.\<close>

definition read_number :: "nat \<Rightarrow> nat option \<Rightarrow> bool \<Rightarrow> nat \<Rightarrow> string \<Rightarrow> (nat \<times> string) option" where
  "read_number radix max_digits allow_zero_prefix limit s =
     (let ds = takeWhile (\<lambda>c. to_digit radix c \<noteq> None) s; v = digits_value radix ds in
      if ds = [] \<or> (case max_digits of Some m \<Rightarrow> m < length ds | None \<Rightarrow> False)
        \<or> \<not> allow_zero_prefix \<and> hd ds = CHR ''0'' \<and> length ds > 1 \<or> limit \<le> v
      then None else Some (v, drop (length ds) s))"

fun read_given_char :: "char \<Rightarrow> string \<Rightarrow> string option" where
  "read_given_char c [] = None"
| "read_given_char c (d # s) = (if d = c then Some s else None)"

definition read_separator :: "char \<Rightarrow> nat \<Rightarrow> (string \<Rightarrow> ('a \<times> string) option) \<Rightarrow> string \<Rightarrow> ('a \<times> string) option" where
  "read_separator sep index inner s =
     (if index > 0 then Option.bind (read_given_char sep s) inner else inner s)"

definition read_octet :: "nat \<Rightarrow> string \<Rightarrow> (nat \<times> string) option" where
  "read_octet i = read_separator (CHR ''.'') i (read_number 10 (Some 3) False 256)"

definition read_ipv4_addr :: "string \<Rightarrow> (u32 \<times> string) option" where
  "read_ipv4_addr s =
     Option.bind (read_octet 0 s) (\<lambda>(a, s).
     Option.bind (read_octet 1 s) (\<lambda>(b, s).
     Option.bind (read_octet 2 s) (\<lambda>(c, s).
     Option.bind (read_octet 3 s) (\<lambda>(d, s).
       Some (of_nat (((a * 256 + b) * 256 + c) * 256 + d), s)))))"

text \<open>\<open>read_groups\<close> with \<open>n\<close> groups left: the groups read and whether an IPv4 address ended them.\<close>

fun read_groups :: "nat \<Rightarrow> nat \<Rightarrow> string \<Rightarrow> nat list \<times> bool \<times> string" where
  "read_groups 0 i s = ([], False, s)"
| "read_groups (Suc n) i s =
     (case (if n > 0 then read_separator (CHR '':'') i read_ipv4_addr s else None) of
        Some (a, s) \<Rightarrow> ([unat a div 65536, unat a mod 65536], True, s)
      | None \<Rightarrow>
          (case read_separator (CHR '':'') i (read_number 16 (Some 4) True 65536) s of
             Some (g, s) \<Rightarrow> (case read_groups n (i + 1) s of (gs, v4, s) \<Rightarrow> (g # gs, v4, s))
           | None \<Rightarrow> ([], False, s)))"

definition v6_of_segments :: "nat list \<Rightarrow> u128" where
  "v6_of_segments gs = of_nat (foldl (\<lambda>v g. v * 65536 + g) 0 gs)"

definition read_ipv6_addr :: "string \<Rightarrow> (u128 \<times> string) option" where
  "read_ipv6_addr s =
     (case read_groups 8 0 s of (head, head_v4, s) \<Rightarrow>
        if length head = 8 then Some (v6_of_segments head, s)
        else if head_v4 then None
        else Option.bind (Option.bind (read_given_char (CHR '':'') s) (read_given_char (CHR '':''))) (\<lambda>s.
          case read_groups (8 - (length head + 1)) 0 s of (tail, _, s) \<Rightarrow>
            Some (v6_of_segments (head @ replicate (8 - length head - length tail) 0 @ tail), s)))"

definition read_ip_addr :: "string \<Rightarrow> (IpAddr \<times> string) option" where
  "read_ip_addr s =
     (case read_ipv4_addr s of
        Some (a, s') \<Rightarrow> Some (V4 a, s')
      | None \<Rightarrow> map_option (map_prod V6 id) (read_ipv6_addr s))"

definition read_port :: "string \<Rightarrow> (u16 \<times> string) option" where
  "read_port s = Option.bind (read_given_char (CHR '':'') s) (\<lambda>s.
     map_option (map_prod of_nat id) (read_number 10 None True 65536 s))"

text \<open>A scope identifier is read and dropped; the socket addresses of the model have none.\<close>

definition skip_scope_id :: "string \<Rightarrow> string" where
  "skip_scope_id s =
     (case Option.bind (read_given_char (CHR ''%'') s) (read_number 10 None True (2 ^ 32)) of
        Some (_, s') \<Rightarrow> s' | None \<Rightarrow> s)"

definition read_socket_addr :: "string \<Rightarrow> (SocketAddr \<times> string) option" where
  "read_socket_addr s =
     (case Option.bind (read_ipv4_addr s) (\<lambda>(a, s). map_option (map_prod (\<lambda>p. \<lparr>sa_ip = V4 a, sa_port = p\<rparr>) id) (read_port s)) of
        Some r \<Rightarrow> Some r
      | None \<Rightarrow>
          Option.bind (read_given_char (CHR ''['') s) (\<lambda>s.
          Option.bind (read_ipv6_addr s) (\<lambda>(a, s).
          Option.bind (read_given_char (CHR '']'') (skip_scope_id s)) (\<lambda>s.
            map_option (map_prod (\<lambda>p. \<lparr>sa_ip = V6 a, sa_port = p\<rparr>) id) (read_port s)))))"

definition parse_with :: "(string \<Rightarrow> ('a \<times> string) option) \<Rightarrow> string \<Rightarrow> 'a option" where
  "parse_with inner s = (case inner s of Some (a, []) \<Rightarrow> Some a | _ \<Rightarrow> None)"

definition parse_ip :: "string \<Rightarrow> IpAddr option" where
  "parse_ip = parse_with read_ip_addr"

definition parse_socket :: "string \<Rightarrow> SocketAddr option" where
  "parse_socket = parse_with read_socket_addr"

section \<open>Numbers\<close>

lemma to_digit_dec: "k < 10 \<Longrightarrow> to_digit 10 (char_of (48 + k)) = Some k"
  by (simp add: to_digit_def)

lemma to_digit_hex: "k < 16 \<Longrightarrow> to_digit 16 (hex_digit k) = Some k"
  by (auto simp: to_digit_def Let_def of_char_hex_digit)


definition numeral_text :: "nat \<Rightarrow> nat \<Rightarrow> string \<Rightarrow> bool" where
  "numeral_text r n s \<longleftrightarrow> s \<noteq> [] \<and> (\<forall>c\<in>set s. to_digit r c \<noteq> None) \<and> digits_value r s = n"

lemma numeral_to_dec: "numeral_text 10 n (to_dec n)"
proof (induction n rule: to_dec.induct)
  case (1 n)
  then show ?case
    by (subst to_dec.simps) (auto simp: numeral_text_def digits_value_def to_digit_dec)
qed

lemma numeral_hex_nat: "numeral_text 16 n (hex_nat n)"
proof (induction n rule: hex_nat.induct)
  case (1 n)
  then show ?case
    by (subst hex_nat.simps) (auto simp: numeral_text_def digits_value_def to_digit_hex)
qed

lemma length_hex_nat: "k > 0 \<Longrightarrow> n < 16 ^ k \<Longrightarrow> length (hex_nat n) \<le> k"
proof (induction k arbitrary: n)
  case (Suc k)
  show ?case
  proof (cases "n < 16")
    case False
    with Suc.prems have "n div 16 < 16 ^ k" "k > 0" by (auto intro: gr0I)
    with Suc.IH False show ?thesis by (subst hex_nat.simps) simp
  qed (subst hex_nat.simps, simp)
qed simp

lemma to_dec_leading_zero: "hd (to_dec n) = CHR ''0'' \<Longrightarrow> n = 0"
proof (induction n rule: to_dec.induct)
  case (1 n)
  show ?case
  proof (cases "n < 10")
    case True
    with 1 have "(of_char (char_of (48 + n) :: char) :: nat) = of_char (CHR ''0'')" by (simp add: to_dec.simps)
    with True show ?thesis by simp
  next
    case False
    then have "to_dec n = to_dec (n div 10) @ [char_of (48 + n mod 10)]" by (subst to_dec.simps) simp
    with 1 False to_dec_digits [of "n div 10"] have "n div 10 = 0" by simp
    with False show ?thesis by simp
  qed
qed

text \<open>A text after which no more digits are read.\<close>

definition no_digit :: "nat \<Rightarrow> string \<Rightarrow> bool" where
  "no_digit r s \<longleftrightarrow> s = [] \<or> to_digit r (hd s) = None"

lemma read_number_text:
  assumes "numeral_text r n ds" "no_digit r s" "n < limit" "\<forall>m. maxd = Some m \<longrightarrow> length ds \<le> m"
    and "zero_ok \<or> (hd ds = CHR ''0'' \<longrightarrow> length ds = 1)"
  shows "read_number r maxd zero_ok limit (ds @ s) = Some (n, s)"
proof -
  have "takeWhile (\<lambda>c. to_digit r c \<noteq> None) (ds @ s) = ds"
    using assms(1,2) by (cases s) (auto simp: numeral_text_def no_digit_def takeWhile_append)
  then show ?thesis
    using assms by (auto simp: read_number_def Let_def numeral_text_def split: option.splits)
qed

lemma read_number_dec: "no_digit 10 s \<Longrightarrow> n < 256 \<Longrightarrow> read_number 10 (Some 3) False 256 (to_dec n @ s) = Some (n, s)"
  using numeral_to_dec [of n] length_to_dec_le [of 3 n] to_dec_leading_zero [of n]
  by (intro read_number_text) (auto simp: to_dec.simps)

lemma read_number_hex: "no_digit 16 s \<Longrightarrow> n < 65536 \<Longrightarrow> read_number 16 (Some 4) True 65536 (hex_nat n @ s) = Some (n, s)"
  using numeral_hex_nat [of n] length_hex_nat [of 4 n] by (intro read_number_text) auto

lemma read_number_none: "no_digit r s \<Longrightarrow> read_number r maxd zero_ok limit s = None"
  by (cases s) (auto simp: read_number_def no_digit_def Let_def)


section \<open>IPv4\<close>

text \<open>The places of a number to a base, most significant first.\<close>

lemma places_value:
  "foldl (\<lambda>v g. v * B + g) 0 (map (\<lambda>i. n div B ^ (k - 1 - i) mod B) [0..<k]) = n mod B ^ k" if "B > 0" for n B k :: nat
proof (induction k arbitrary: n)
  case (Suc k)
  have "map (\<lambda>i. n div B ^ (Suc k - 1 - i) mod B) [0..<k] = map (\<lambda>i. (n div B) div B ^ (k - 1 - i) mod B) [0..<k]"
  proof (rule map_cong [OF refl])
    fix i
    assume "i \<in> set [0..<k]"
    then have "Suc k - 1 - i = Suc (k - 1 - i)" by auto
    then show "n div B ^ (Suc k - 1 - i) mod B = (n div B) div B ^ (k - 1 - i) mod B"
      by (simp add: div_mult2_eq)
  qed
  then have "foldl (\<lambda>v g. v * B + g) 0 (map (\<lambda>i. n div B ^ (Suc k - 1 - i) mod B) [0..<Suc k])
      = (n div B mod B ^ k) * B + n mod B"
    using Suc.IH [of "n div B"] by (simp only: upt_Suc_append map_append foldl_append list.map foldl.simps) simp
  also have "\<dots> = n mod B ^ Suc k" by (simp add: mod_mult2_eq mult.commute)
  finally show ?case .
qed simp

lemma unat_drop_bit_div: "unat (drop_bit n (a :: 'a::len word)) = unat a div 2 ^ n"
  using unat_drop_bit_eq [of n a] drop_bit_eq_div [of n "unat a"] by (rule trans)

lemma octets_value:
  "of_nat (((unat (drop_bit 24 a) mod 256 * 256 + unat (drop_bit 16 a) mod 256) * 256
     + unat (drop_bit 8 a) mod 256) * 256 + unat (drop_bit 0 a) mod 256) = (a :: u32)"
proof -
  have "((unat a div 256 ^ 3 mod 256 * 256 + unat a div 256 ^ 2 mod 256) * 256
      + unat a div 256 ^ 1 mod 256) * 256 + unat a div 256 ^ 0 mod 256 = unat a mod 256 ^ 4"
    using places_value [of 256 "unat a" 4] by (simp add: upt_rec)
  also have "\<dots> = unat a" using unat_less_exp [of a] by simp
  moreover have "unat a div 16777216 < 256" using unat_less_exp [of a] by (simp add: less_mult_imp_div_less)
  ultimately have "((unat (drop_bit 24 a) mod 256 * 256 + unat (drop_bit 16 a) mod 256) * 256
      + unat (drop_bit 8 a) mod 256) * 256 + unat (drop_bit 0 a) mod 256 = unat a"
    by (simp add: unat_drop_bit_div)
  then show ?thesis by (simp only:) simp
qed

lemma no_digit_chars [simp]:
  "no_digit r []" "no_digit 10 (CHR ''.'' # s)" "no_digit 10 (CHR '':'' # s)" "no_digit 10 (CHR '']'' # s)"
  "no_digit 16 (CHR '':'' # s)" "no_digit 16 (CHR '']'' # s)"
  by (simp_all add: no_digit_def to_digit_def)

lemma read_octet_text:
  assumes "no_digit 10 s"
  shows "read_octet 0 (octet a k @ s) = Some (unat (drop_bit k a) mod 256, s)"
    and "i > 0 \<Longrightarrow> read_octet i (CHR ''.'' # octet a k @ s) = Some (unat (drop_bit k a) mod 256, s)"
  using read_number_dec [OF assms, of "unat (drop_bit k a) mod 256"]
  by (simp_all add: read_octet_def read_separator_def octet_def)

lemma read_ipv4_display: "no_digit 10 s \<Longrightarrow> read_ipv4_addr (v4_display a @ s) = Some (a, s)"
  using octets_value [of a] by (simp add: read_ipv4_addr_def v4_display_def read_octet_text)

lemma read_ipv4_needs_dot:
  assumes "CHR ''.'' \<notin> set s"
  shows "read_ipv4_addr s = None"
proof (cases "read_octet 0 s")
  case (Some r)
  then obtain v s' where r: "read_octet 0 s = Some (v, s')" by (cases r) simp
  then have "set s' \<subseteq> set s"
    by (auto simp: read_octet_def read_separator_def read_number_def Let_def split: if_splits dest: in_set_dropD)
  with assms have "read_octet 1 s' = None"
    by (cases s') (auto simp: read_octet_def read_separator_def)
  with r show ?thesis by (simp add: read_ipv4_addr_def)
qed (simp add: read_ipv4_addr_def)

section \<open>IPv6\<close>

definition after_colons :: "nat list \<Rightarrow> string" where
  "after_colons ss = concat (map (\<lambda>s. CHR '':'' # hex_nat s) ss)"

lemma join_segments_Cons: "join_segments (s # ss) = hex_nat s @ after_colons ss"
  by (induction "s # ss" arbitrary: s ss rule: join_segments.induct) (simp_all add: after_colons_def)

text \<open>What may follow the groups of an address: nothing, the end of the brackets, or the two colons.\<close>

definition groups_end :: "string \<Rightarrow> bool" where
  "groups_end s \<longleftrightarrow> CHR ''.'' \<notin> set s \<and> (s = [] \<or> hd s = CHR '']'' \<or> (\<exists>s'. s = CHR '':'' # CHR '':'' # s'))"

lemma hex_nat_no_dot: "CHR ''.'' \<notin> set (hex_nat n)"
proof -
  have "to_digit 16 (CHR ''.'') = None" by (simp add: to_digit_def)
  then show ?thesis using numeral_hex_nat [of n] by (auto simp: numeral_text_def)
qed

lemma after_colons_no_dot: "CHR ''.'' \<notin> set (after_colons ss)"
  using hex_nat_no_dot by (auto simp: after_colons_def)

lemma join_segments_no_dot: "CHR ''.'' \<notin> set (join_segments ss)"
  using hex_nat_no_dot after_colons_no_dot by (cases ss) (auto simp: join_segments_Cons)

lemma no_v4_group: "CHR ''.'' \<notin> set s \<Longrightarrow> read_separator (CHR '':'') i read_ipv4_addr s = None"
  by (cases s) (auto simp: read_separator_def read_ipv4_needs_dot)

lemma read_groups_no_dot:
  "CHR ''.'' \<notin> set s \<Longrightarrow> read_groups (Suc n) i s =
     (case read_separator (CHR '':'') i (read_number 16 (Some 4) True 65536) s of
        Some (g, s) \<Rightarrow> (case read_groups n (i + 1) s of (gs, v4, s) \<Rightarrow> (g # gs, v4, s))
      | None \<Rightarrow> ([], False, s))"
  by (simp add: no_v4_group)

lemma groups_end_no_digit: "groups_end s \<Longrightarrow> no_digit 16 (after_colons ss @ s)"
  by (cases ss) (auto simp: groups_end_def after_colons_def no_digit_def to_digit_def)

lemma groups_end_stop:
  assumes "groups_end s"
  shows "read_groups n i s = ([], False, s)"
proof -
  from assms consider "s = []" | t where "s = CHR '']'' # t" | t where "s = CHR '':'' # CHR '':'' # t"
    unfolding groups_end_def by (metis list.collapse)
  then have "read_separator (CHR '':'') i (read_number 16 (Some 4) True 65536) s = None"
    by cases (simp_all add: read_separator_def read_number_none)
  then show ?thesis
    using no_v4_group assms by (cases n) (auto simp: groups_end_def)
qed

lemma read_groups_after:
  "i > 0 \<Longrightarrow> length ss \<le> n \<Longrightarrow> list_all (\<lambda>g. g < 65536) ss \<Longrightarrow> groups_end s \<Longrightarrow>
     read_groups n i (after_colons ss @ s) = (ss, False, s)"
proof (induction ss arbitrary: n i)
  case Nil
  then show ?case by (simp add: after_colons_def groups_end_stop)
next
  case (Cons g ss)
  then obtain m where n: "n = Suc m" by (cases n) auto
  have t: "after_colons (g # ss) @ s = CHR '':'' # hex_nat g @ after_colons ss @ s" by (simp add: after_colons_def)
  have "CHR ''.'' \<notin> set (after_colons (g # ss) @ s)"
    using Cons.prems(4) after_colons_no_dot [of "g # ss"] by (simp add: groups_end_def)
  from read_groups_no_dot [OF this, of m i] show ?case
    using Cons read_number_hex [OF groups_end_no_digit [OF Cons.prems(4), of ss], of g]
    by (simp add: n t read_separator_def del: read_groups.simps)
qed

lemma read_groups_segments:
  assumes "length ss \<le> n" "list_all (\<lambda>g. g < 65536) ss" "groups_end s"
  shows "read_groups n 0 (join_segments ss @ s) = (ss, False, s)"
proof (cases ss)
  case Nil
  then show ?thesis by (simp add: groups_end_stop assms(3))
next
  case (Cons g gs)
  with assms(1) obtain m where n: "n = Suc m" by (cases n) auto
  have "CHR ''.'' \<notin> set (join_segments ss @ s)"
    using assms(3) join_segments_no_dot [of ss] by (simp add: groups_end_def)
  from read_groups_no_dot [OF this, of m 0] show ?thesis
    using assms Cons read_number_hex [OF groups_end_no_digit [OF assms(3), of gs], of g] read_groups_after [of 1 gs m s]
    by (simp add: n join_segments_Cons read_separator_def del: read_groups.simps)
qed

text \<open>The run of zeros found lies within the segments.\<close>

lemma zero_run_ok:
  assumes "zero_run (drop i ss) i longest current = (a, l)" "i \<le> length ss"
    and "fst longest + snd longest \<le> i" "\<forall>k. fst longest \<le> k \<longrightarrow> k < fst longest + snd longest \<longrightarrow> ss ! k = 0"
    and "snd current = 0 \<or> fst current + snd current = i" "\<forall>k. fst current \<le> k \<longrightarrow> k < fst current + snd current \<longrightarrow> ss ! k = 0"
  shows "a + l \<le> length ss \<and> (\<forall>k. a \<le> k \<longrightarrow> k < a + l \<longrightarrow> ss ! k = 0)"
  using assms
proof (induction "length ss - i" arbitrary: i longest current)
  case 0
  then show ?case by simp
next
  case (Suc d)
  then have i: "i < length ss" by simp
  let ?current = "if snd current = 0 then (i, 1) else (fst current, snd current + 1)"
  have d: "d = length ss - Suc i" using Suc.hyps(2) by simp
  show ?case
  proof (cases "ss ! i = 0")
    case True
    have "zero_run (drop (Suc i) ss) (Suc i) (if snd ?current > snd longest then ?current else longest) ?current = (a, l)"
      using Suc.prems(1) True i by (simp add: Let_def flip: Cons_nth_drop_Suc)
    moreover have "\<forall>k. fst ?current \<le> k \<longrightarrow> k < fst ?current + snd ?current \<longrightarrow> ss ! k = 0"
      using Suc.prems(5,6) True by (auto simp: less_Suc_eq)
    moreover have "fst ?current + snd ?current = Suc i" using Suc.prems(5) by auto
    ultimately show ?thesis
      using Suc.prems(3,4) i
      by (intro Suc.hyps(1) [OF d, of "if snd ?current > snd longest then ?current else longest" ?current]) simp_all
  next
    case False
    then show ?thesis
      using Suc.prems i by (intro Suc.hyps(1) [OF d, of longest "(0, 0)"]) (auto simp flip: Cons_nth_drop_Suc)
  qed
qed

lemma zero_run_splits:
  assumes "zero_run ss 0 (0, 0) (0, 0) = (a, l)"
  shows "a + l \<le> length ss" "ss = take a ss @ replicate l 0 @ drop (a + l) ss"
proof -
  have run: "a + l \<le> length ss \<and> (\<forall>k. a \<le> k \<longrightarrow> k < a + l \<longrightarrow> ss ! k = 0)"
    using zero_run_ok [of 0 ss "(0, 0)" "(0, 0)" a l] assms by simp
  then show "a + l \<le> length ss" by simp
  have "take l (drop a ss) = replicate l 0"
    using run by (intro nth_equalityI) auto
  then show "ss = take a ss @ replicate l 0 @ drop (a + l) ss"
    by (metis append_take_drop_id drop_drop add.commute)
qed

lemma length_v6_segments: "length (v6_segments a) = 8"
  by (simp add: v6_segments_def)

lemma v6_segments_less: "list_all (\<lambda>g. g < 65536) (v6_segments a)"
  by (simp add: v6_segments_def list_all_iff)

lemma v6_of_v6_segments: "v6_of_segments (v6_segments a) = a"
proof -
  have "v6_segments a = map (\<lambda>i. unat a div 65536 ^ (8 - 1 - i) mod 65536) [0..<8]"
    by (simp add: v6_segments_def unat_drop_bit_div upt_rec)
  with places_value [of 65536 "unat a" 8] show ?thesis
    using unat_less_exp [of a] by (simp add: v6_of_segments_def)
qed

lemma list_all_take_drop: "list_all P xs \<Longrightarrow> list_all P (take n xs) \<and> list_all P (drop n xs)"
  by (metis append_take_drop_id list_all_append)

lemma mapped_segments:
  assumes "take 5 (v6_segments a) = replicate 5 0" "v6_segments a ! 5 = 65535"
  shows "replicate 5 0 @ [65535, unat (ucast a :: u32) div 65536, unat (ucast a :: u32) mod 65536] = v6_segments a"
proof -
  let ?ss = "v6_segments a"
  have "?ss = take 5 ?ss @ [?ss ! 5, ?ss ! 6, ?ss ! 7]"
    by (simp add: v6_segments_def upt_rec)
  moreover have "?ss ! 6 = unat (ucast a :: u32) div 65536" "?ss ! 7 = unat (ucast a :: u32) mod 65536"
    by (simp_all add: v6_segments_def unat_drop_bit_div unsigned_ucast_eq take_bit_eq_mod)
      (simp_all add: mod_mult2_eq [of _ 65536 65536, simplified] mod_mod_cancel)
  ultimately show ?thesis using assms by simp
qed

definition closes :: "string \<Rightarrow> bool" where
  "closes s \<longleftrightarrow> s = [] \<or> (\<exists>t. s = CHR '']'' # t \<and> CHR ''.'' \<notin> set t)"

lemma closes_groups_end: "closes s \<Longrightarrow> groups_end s"
  by (auto simp: closes_def groups_end_def)

lemma hex_nat_ffff: "hex_nat 65535 = ''ffff''"
proof -
  have "hex_digit 15 = CHR ''f''" by (simp add: hex_digit_def) code_simp
  then show ?thesis by (simp add: hex_nat.simps)
qed

lemma no_octet: "no_digit 10 s \<Longrightarrow> read_ipv4_addr s = None"
  by (simp add: read_ipv4_addr_def read_octet_def read_separator_def read_number_none)

lemma read_mapped_tail:
  assumes "closes s"
  shows "read_groups 7 0 (''ffff:'' @ v4_display b @ s) = ([65535, unat b div 65536, unat b mod 65536], True, s)"
proof -
  have nd: "no_digit 10 s" using assms by (auto simp: closes_def)
  have v4: "read_groups 6 1 (CHR '':'' # v4_display b @ s) = ([unat b div 65536, unat b mod 65536], True, s)"
    using read_ipv4_display [OF nd, of b] read_groups.simps(2) [of 5 1 "CHR '':'' # v4_display b @ s"]
    by (simp add: read_separator_def)
  have "read_ipv4_addr (''ffff:'' @ v4_display b @ s) = None"
    by (intro no_octet) (simp add: no_digit_def to_digit_def)
  moreover have "read_number 16 (Some 4) True 65536 (''ffff:'' @ v4_display b @ s) = Some (65535, CHR '':'' # v4_display b @ s)"
    using read_number_hex [of "CHR '':'' # v4_display b @ s" 65535] by (simp add: hex_nat_ffff)
  ultimately show ?thesis
    using v4 read_groups.simps(2) [of 6 0 "''ffff:'' @ v4_display b @ s"] by (simp add: read_separator_def)
qed

lemma read_no_groups: "read_groups n 0 (CHR '':'' # s) = ([], False, CHR '':'' # s)"
  by (cases n) (simp_all add: read_separator_def no_octet read_number_none)

lemma read_ipv6_mapped:
  assumes "take 5 (v6_segments a) = replicate 5 0" "v6_segments a ! 5 = 65535" "closes s"
  shows "read_ipv6_addr (''::ffff:'' @ v4_display (ucast a) @ s) = Some (a, s)"
proof -
  let ?b = "ucast a :: u32"
  have "replicate 5 0 @ [65535, unat ?b div 65536, unat ?b mod 65536] = v6_segments a"
    by (rule mapped_segments [OF assms(1,2)])
  then show ?thesis
    using read_mapped_tail [OF assms(3), of ?b] v6_of_v6_segments [of a]
    by (simp add: read_ipv6_addr_def read_no_groups)
qed

lemma read_ipv6_display:
  assumes "closes s"
  shows "read_ipv6_addr (v6_display a @ s) = Some (a, s)"
proof -
  let ?ss = "v6_segments a"
  obtain start len where run: "zero_run ?ss 0 (0, 0) (0, 0) = (start, len)" by fastforce
  note split = zero_run_splits [OF run]
  note ends = closes_groups_end [OF assms]
  consider (mapped) "take 5 ?ss = replicate 5 0 \<and> ?ss ! 5 = 65535"
    | (short) "\<not> (take 5 ?ss = replicate 5 0 \<and> ?ss ! 5 = 65535)" "len > 1"
    | (long) "\<not> (take 5 ?ss = replicate 5 0 \<and> ?ss ! 5 = 65535)" "\<not> len > 1"
    by blast
  then show ?thesis
  proof cases
    case mapped
    then show ?thesis using read_ipv6_mapped [OF _ _ assms, of a] by (simp add: v6_display_def Let_def)
  next
    case short
    have len: "start + len \<le> 8" using split(1) by (simp add: length_v6_segments)
    let ?tail = "join_segments (drop (start + len) ?ss)"
    have "groups_end (''::'' @ ?tail @ s)"
      using ends join_segments_no_dot by (auto simp: groups_end_def)
    from read_groups_segments [OF _ _ this, of "take start ?ss" 8]
    have head: "read_groups 8 0 (join_segments (take start ?ss) @ ''::'' @ ?tail @ s) = (take start ?ss, False, ''::'' @ ?tail @ s)"
      using v6_segments_less by (simp add: length_v6_segments list_all_take_drop)
    have tail: "read_groups (7 - start) 0 (?tail @ s) = (drop (start + len) ?ss, False, s)"
      using v6_segments_less len short(2)
      by (intro read_groups_segments [OF _ _ ends]) (auto simp: length_v6_segments list_all_take_drop)
    have "v6_of_segments (take start ?ss @ replicate len 0 @ drop (start + len) ?ss) = a"
      using split(2) v6_of_v6_segments by metis
    moreover have "min 8 start = start" "8 - start - (8 - (start + len)) = len" using len by auto
    moreover have "v6_display a = join_segments (take start ?ss) @ ''::'' @ ?tail"
      unfolding v6_display_def Let_def if_not_P [OF short(1)] run prod.case using short(2) by simp
    ultimately show ?thesis
      using head tail len short(2) by (simp add: read_ipv6_addr_def length_v6_segments)
  next
    case long
    have "read_groups 8 0 (join_segments ?ss @ s) = (?ss, False, s)"
      using v6_segments_less by (intro read_groups_segments [OF _ _ ends]) (simp_all add: length_v6_segments)
    moreover have "v6_display a = join_segments ?ss"
      unfolding v6_display_def Let_def if_not_P [OF long(1)] run prod.case using long(2) by simp
    ultimately show ?thesis by (simp add: read_ipv6_addr_def length_v6_segments v6_of_v6_segments)
  qed
qed

section \<open>Reading inverts the text\<close>

lemma v6_display_no_v4:
  assumes "closes s"
  shows "read_ipv4_addr (v6_display a @ s) = None"
proof (cases "CHR ''.'' \<in> set (v6_display a @ s)")
  case True
  then obtain t where "v6_display a @ s = CHR '':'' # t"
    using assms join_segments_no_dot by (auto simp: v6_display_def Let_def closes_def split: if_splits prod.splits)
  then show ?thesis
    by (simp add: read_ipv4_addr_def read_octet_def read_separator_def read_number_none)
qed (rule read_ipv4_needs_dot)

lemma parse_ip_display: "parse_ip (ip_display a) = Some a"
proof (cases a)
  case (V4 b)
  then show ?thesis
    using read_ipv4_display [of "[]" b] by (simp add: parse_ip_def parse_with_def read_ip_addr_def)
next
  case (V6 b)
  then show ?thesis
    using read_ipv6_display [of "[]" b] v6_display_no_v4 [of "[]" b]
    by (simp add: parse_ip_def parse_with_def read_ip_addr_def closes_def)
qed

lemma read_port_text: "read_port (CHR '':'' # to_dec (unat (p :: u16))) = Some (p, [])"
  using read_number_text [OF numeral_to_dec, of "[]" "unat p" 65536 None True] unat_less_exp [of p]
  by (simp add: read_port_def)

lemma to_dec_no_dot: "CHR ''.'' \<notin> set (to_dec n)"
  using to_dec_digits [of n] by (auto simp: list_all_iff is_ascii_digit_def)

lemma parse_socket_display: "parse_socket (socket_display a) = Some a"
proof (cases "sa_ip a")
  case (V4 b)
  then show ?thesis
    using read_ipv4_display [of "CHR '':'' # to_dec (unat (sa_port a))" b] read_port_text [of "sa_port a"]
    by (simp add: parse_socket_def parse_with_def read_socket_addr_def socket_display_def)
next
  case (V6 b)
  let ?rest = "CHR '']'' # CHR '':'' # to_dec (unat (sa_port a))"
  have "closes ?rest" using to_dec_no_dot by (auto simp: closes_def)
  moreover have "read_ipv4_addr (CHR ''['' # v6_display b @ ?rest) = None"
    by (simp add: read_ipv4_addr_def read_octet_def read_separator_def read_number_none no_digit_def to_digit_def)
  ultimately show ?thesis
    using V6 read_ipv6_display [of ?rest b] read_port_text [of "sa_port a"]
    by (simp add: parse_socket_def parse_with_def read_socket_addr_def socket_display_def skip_scope_id_def)
qed

corollary ip_display_inj: "ip_display a = ip_display b \<longleftrightarrow> a = b"
  using parse_ip_display by (metis option.inject)

corollary socket_display_inj: "socket_display a = socket_display b \<longleftrightarrow> a = b"
  using parse_socket_display by (metis option.inject)

end
