(* ===== verification/Serde_Types.thy ===== *)
theory Serde_Types
  imports Net_Addr
begin

text \<open>
  The documents of the serde codec: the types of crates/pavis-codec-serde/src/config/types, which a YAML or JSON
  document is parsed into, and what their conversion shares: the field paths and errors of
  crates/pavis-core/src/error.rs and the conversions between integer widths.

  A document type whose name is also a runtime type carries the suffix \<open>Dto\<close>. A \<open>std::time::Duration\<close> is a number of
  nanoseconds, an \<open>i64\<close> an integer, a \<open>usize\<close> a 64-bit word. Parsing the text (serde, humantime) is a library call.
\<close>

section \<open>Listeners, telemetry, admin, features\<close>

record ShutdownDto =
  sd_enabled :: "bool option"
  sd_drain_timeout_ms :: "u32 option"

record AdminDto =
  ad_enabled :: "bool option"
  ad_address :: "string option"

record RegexLimitsDto =
  rl_pattern_max_bytes :: "u32 option"
  rl_size_limit_bytes :: "u64 option"
  rl_input_max_bytes :: "u32 option"
  rl_max_regex_per_route :: "u32 option"
  rl_max_regex_per_config :: "u32 option"

record RoutingFeatureConfig =
  fc_advanced_matchers :: bool
  fc_regex_limits :: RegexLimitsDto

datatype ClientAuthConfig = CAC_Disabled | CAC_Optional string | CAC_Required string

record TlsConfigDto =
  td_cert_path :: "string option"
  td_key_path :: "string option"
  td_client_auth :: "ClientAuthConfig option"

record ListenerDto =
  ld_name :: string
  ld_address :: string
  ld_workers :: "u16 option"
  ld_tls :: "TlsConfigDto option"

record TracingConfigDto =
  tr_provider :: "string option"
  tr_sampling :: "u32 option"
  tr_endpoint :: "string option"

record TelemetryDto =
  tm_level :: "string option"
  tm_pingora :: "string option"
  tm_service_name :: "string option"
  tm_metrics :: "string option"
  tm_access_log :: "AccessLogPolicy option"
  tm_tracing :: "TracingConfigDto option"

section \<open>Routes\<close>

datatype PrincipalConfig = PC_Any | PC_Authenticated string | PC_Prefix string

record WeightedDestination =
  wd_upstream :: string
  wd_weight :: u32

datatype RouteActionDto =
    Dto_Forward "WeightedDestination list"
  | Dto_Redirect u16 string
  | Dto_Direct u16 string

datatype PathMatcher = PM_Prefix string | PM_Exact string | PM_Regex string

datatype HeaderMatcherDTO =
    DTO_Exact string string
  | DTO_Prefix string string
  | DTO_Regex string string
  | DTO_Present string
  | DTO_Absent string

record HeaderPredicateLegacy =
  hl_name :: string
  hl_value :: "string option"
  hl_regex :: bool
  hl_prefix :: bool
  hl_absent :: bool

datatype HeaderPredicateDto = V2 HeaderMatcherDTO | V1 HeaderPredicateLegacy

record Matcher =
  mt_path :: PathMatcher
  mt_method :: "string option"
  mt_methods :: "string list option"
  mt_headers :: "HeaderPredicateDto list option"

record RewriteDto =
  wr_path :: "string option"
  wr_host :: "string option"

datatype BackoffStrategyDTO = DTO_Fixed u64 | DTO_Linear u64 | DTO_Exponential u64 u64

record RetryDto =
  rd_max_attempts :: u16
  rd_retryable_reasons :: "string list"
  rd_retryable_status_codes :: "u16 list option"
  rd_backoff :: BackoffStrategyDTO
  rd_retry_non_idempotent :: bool
  rd_fail_on_non_replayable_retry :: bool
  rd_max_request_body_buffer_bytes :: u64
  rd_per_try :: "duration option"

text \<open>The defaults of a retry policy and of its backoff.\<close>

definition default_max_attempts :: u16 where
  "default_max_attempts = 1"

definition default_retryable_reasons :: "string list" where
  "default_retryable_reasons = [''status_code'', ''connect_timeout'', ''read_timeout'']"

definition default_max_body_buffer :: u64 where
  "default_max_body_buffer = 1048576"

definition default_backoff_base_ms :: u64 where
  "default_backoff_base_ms = 100"

definition default_backoff_max_ms :: u64 where
  "default_backoff_max_ms = 5000"

definition backoff_dto_default :: BackoffStrategyDTO where
  "backoff_dto_default = DTO_Exponential 100 5000"

record HeaderOperations =
  ho_set_headers :: "(string \<times> string) list"
  ho_append_headers :: "(string \<times> string) list"
  ho_add_headers :: "(string \<times> string) list"
  ho_remove_headers :: "string list"

record RouteDto =
  ro_matcher :: "Matcher option"
  ro_timeout :: "duration option"
  ro_retry :: "RetryDto option"
  ro_request_headers :: "HeaderOperations option"
  ro_response_headers :: "HeaderOperations option"
  ro_rewrite :: "RewriteDto option"
  ro_action :: RouteActionDto
  ro_principal :: "PrincipalConfig option"

record VirtualHostDto =
  vd_host :: string
  vd_paths :: "RouteDto list"

datatype PredicateNodeDTO =
    DTO_True
  | DTO_False
  | DTO_Method string
  | DTO_Methods "string list"
  | DTO_Header HeaderMatcherDTO
  | DTO_And "PredicateNodeDTO list"
  | DTO_Or "PredicateNodeDTO list"
  | DTO_Not PredicateNodeDTO

section \<open>Upstreams\<close>

datatype ClientCertChainMode = Mode_None | Mode_Embedded | Mode_File

datatype SniMode = SniMode_Auto | SniMode_Name | SniMode_Disabled

record ClientCertConfig =
  cc_cert_path :: string
  cc_key_path :: string
  cc_chain_path :: "string option"
  cc_chain_mode :: "ClientCertChainMode option"

record UpstreamTlsConfig =
  ut_enabled :: "bool option"
  ut_verify_hostname :: "bool option"
  ut_verify_cert :: "bool option"
  ut_sni :: "string option"
  ut_sni_mode :: "SniMode option"
  ut_canonical_sni :: "string option"
  ut_reuse_across_sni :: "bool option"
  ut_ca_bundle_path :: "string option"
  ut_cert :: "ClientCertConfig option"

record ConnectionPoolConfig =
  cp_idle :: "duration option"
  cp_connect :: "duration option"
  cp_max :: "int option"
  cp_queue_capacity :: "int option"
  cp_queue_timeout_ms :: "int option"
  cp_tcp_keepalive :: "duration option"
  cp_tcp_nodelay :: "bool option"
  cp_recv_buffer_size :: "u32 option"

record CircuitBreakerDto =
  cbd_max_connections :: u64
  cbd_max_pending_requests :: u64
  cbd_max_retries :: "u64 option"

record OutlierDetectionDto =
  od_consecutive_errors :: u64
  od_eject_duration :: duration

record HealthCheckDto =
  hd_path :: string
  hd_interval :: duration
  hd_timeout :: "duration option"
  hd_healthy_threshold :: u64
  hd_unhealthy_threshold :: u64

definition default_health_threshold :: u64 where
  "default_health_threshold = 1"

record EndpointDto =
  ed_address :: string
  ed_port :: u16
  ed_weight :: "u32 option"

record UpstreamDto =
  ud_id :: "u16 option"
  ud_name :: string
  ud_discovery :: "Discovery option"
  ud_balancer :: "LoadBalancer option"
  ud_protocol :: "HttpVersion option"
  ud_pool :: "ConnectionPoolConfig option"
  ud_tls :: "UpstreamTlsConfig option"
  ud_circuit_breaker :: "CircuitBreakerDto option"
  ud_outlier_detection :: "OutlierDetectionDto option"
  ud_health_check :: "HealthCheckDto option"
  ud_endpoints :: "EndpointDto list"

section \<open>The document\<close>

record SerdeConfig =
  sc_listeners :: "ListenerDto list option"
  sc_telemetry :: "TelemetryDto option"
  sc_upstreams :: "UpstreamDto list option"
  sc_routes :: "VirtualHostDto list option"
  sc_shutdown :: "ShutdownDto option"
  sc_admin :: "AdminDto option"
  sc_features :: "RoutingFeatureConfig option"

record StructurallyConfig =
  st_listeners :: "ListenerDto list"
  st_telemetry :: TelemetryDto
  st_upstreams :: "UpstreamDto list"
  st_routes :: "VirtualHostDto list"
  st_shutdown :: ShutdownDto
  st_admin :: AdminDto
  st_features :: RoutingFeatureConfig

section \<open>Errors and field paths\<close>

text \<open>
  An error of the conversion: \<open>invalid_config_error\<close> with its field path and its constraint, or an \<open>anyhow\<close> error with
  its text. The names and numbers a text interpolates are left out.
\<close>

datatype conv_error = Invalid_Config (field_path: string) (broken_constraint: string) | Anyhow string

text \<open>\<open>FieldPathBuilder\<close>; its assertions hold because every path starts with \<open>root\<close>, called once.\<close>

definition fp_root :: "string \<Rightarrow> string" where
  "fp_root r = r"

definition fp_field :: "string \<Rightarrow> string \<Rightarrow> string" where
  "fp_field f segments = segments @ ''.'' @ f"

definition fp_index :: "nat \<Rightarrow> string \<Rightarrow> string" where
  "fp_index i segments = segments @ ''['' @ to_dec i @ '']''"

definition escape_key :: "string \<Rightarrow> string" where
  "escape_key k = concat (map (\<lambda>ch. if ch = CHR 0x22 \<or> ch = CHR 0x5C then [CHR 0x5C, ch] else [ch]) k)"

definition fp_map_key :: "string \<Rightarrow> string \<Rightarrow> string" where
  "fp_map_key k segments = segments @ ''['' @ [CHR 0x22] @ escape_key k @ [CHR 0x22] @ '']''"

section \<open>Integers and texts\<close>

text \<open>\<open>try_from\<close> into an unsigned integer, and \<open>NonZero::new\<close>.\<close>

definition try_into :: "nat \<Rightarrow> 'a::len word option" where
  "try_into n = (if n < 2 ^ LENGTH('a) then Some (of_nat n) else None)"

definition non_zero :: "'a::len word \<Rightarrow> 'a word option" where
  "non_zero w = (if w = 0 then None else Some w)"

text \<open>
  What the conversion uses of Unicode: \<open>to_uppercase\<close>, \<open>to_lowercase\<close>, whether \<open>trim\<close> leaves nothing, and whether a
  control character other than the tab occurs; and of the regex crate: whether a pattern compiles. On
  ASCII the Unicode operations are the ASCII ones.
\<close>

record codec_env =
  to_uppercase :: "string \<Rightarrow> string"
  to_lowercase :: "string \<Rightarrow> string"
  blank :: "string \<Rightarrow> bool"
  has_control :: "string \<Rightarrow> bool"
  regex_valid :: "string \<Rightarrow> bool"

definition to_ascii_uppercase :: "string \<Rightarrow> string" where
  "to_ascii_uppercase = map (\<lambda>c. let n = of_char c :: nat in if 97 \<le> n \<and> n \<le> 122 then char_of (n - 32) else c)"

definition codec_env_ok :: "codec_env \<Rightarrow> bool" where
  "codec_env_ok env \<longleftrightarrow> (\<forall>s. ascii s \<longrightarrow>
     to_uppercase env s = to_ascii_uppercase s \<and> to_lowercase env s = to_ascii_lowercase s
     \<and> blank env s = list_all (\<lambda>c. (of_char c :: nat) \<in> {9, 10, 11, 12, 13, 32}) s
     \<and> has_control env s = list_ex (\<lambda>c. ((of_char c :: nat) < 32 \<or> (of_char c :: nat) = 127) \<and> (of_char c :: nat) \<noteq> 9) s)"

text \<open>The string functions of the standard library on ASCII strings, with every regex valid.\<close>

definition ascii_env :: codec_env where
  "ascii_env = \<lparr>to_uppercase = to_ascii_uppercase, to_lowercase = to_ascii_lowercase,
     blank = list_all (\<lambda>c. (of_char c :: nat) \<in> {9, 10, 11, 12, 13, 32}),
     has_control = list_ex (\<lambda>c. ((of_char c :: nat) < 32 \<or> (of_char c :: nat) = 127) \<and> (of_char c :: nat) \<noteq> 9),
     regex_valid = \<lambda>_. True\<rparr>"

lemma ascii_env_ok: "codec_env_ok ascii_env"
  by (simp add: codec_env_ok_def ascii_env_def)

lemma try_into_eq_Some: "try_into n = Some (w :: 'a::len word) \<longleftrightarrow> n = unat w"
  using unat_less_exp [of w] by (auto simp: try_into_def unat_of_nat)

lemma try_into_unat [simp]: "try_into (unat (w :: 'a::len word)) = Some w"
  by (simp add: try_into_eq_Some)

lemma non_zero_eq_Some: "non_zero w = Some v \<longleftrightarrow> w = v \<and> v \<noteq> 0"
  by (auto simp: non_zero_def)

lemma non_zero_Some [simp]: "w \<noteq> 0 \<Longrightarrow> non_zero w = Some w"
  by (simp add: non_zero_def)

end
