(* ===== verification/Serde_Routes.thy ===== *)
theory Serde_Routes
  imports Serde_Types
begin

text \<open>
  Routes of a document and of the runtime configuration: crates/pavis-codec-serde/src/config/convert/routes.
  \<open>to_runtime\<close> (emit.rs, materialize.rs, semantic\_validate.rs) and \<open>from_runtime\<close> (dto\_adapter.rs). The positions of a
  virtual host, of a path and of a header enter the field path of an error only.
\<close>

section \<open>Field paths\<close>

definition route_match_field_path :: "nat \<Rightarrow> nat \<Rightarrow> string" where
  "route_match_field_path v p = fp_field ''match'' (fp_index p (fp_field ''paths'' (fp_index v (fp_root ''routes''))))"

definition route_method_field_path :: "nat \<Rightarrow> nat \<Rightarrow> string" where
  "route_method_field_path v p = fp_field ''method'' (route_match_field_path v p)"

definition route_headers_field_path :: "nat \<Rightarrow> nat \<Rightarrow> string" where
  "route_headers_field_path v p = fp_field ''headers'' (route_match_field_path v p)"

definition header_field_path :: "nat \<Rightarrow> nat \<Rightarrow> string option \<Rightarrow> nat \<Rightarrow> string" where
  "header_field_path v p name h =
     (case name of
        Some n \<Rightarrow> if n \<noteq> [] then fp_map_key n (route_headers_field_path v p) else fp_index h (route_headers_field_path v p)
      | None \<Rightarrow> fp_index h (route_headers_field_path v p))"

section \<open>Semantic checks (semantic\_validate.rs)\<close>

definition http_method_of :: "string \<Rightarrow> HttpMethod option" where
  "http_method_of u =
     (if u = ''GET'' then Some GET else if u = ''POST'' then Some POST else if u = ''PUT'' then Some PUT
      else if u = ''DELETE'' then Some DELETE else if u = ''PATCH'' then Some PATCH else if u = ''HEAD'' then Some HEAD
      else if u = ''OPTIONS'' then Some OPTIONS else if u = ''CONNECT'' then Some CONNECT
      else if u = ''TRACE'' then Some TRACE else None)"

definition parse_http_method :: "codec_env \<Rightarrow> string \<Rightarrow> string \<Rightarrow> conv_error + HttpMethod" where
  "parse_http_method env verb path = ok_or (http_method_of (to_uppercase env verb)) (Invalid_Config path ''valid_http_method'')"

definition header_name_char :: "char \<Rightarrow> bool" where
  "header_name_char c \<longleftrightarrow> (let n = of_char c :: nat in
     48 \<le> n \<and> n \<le> 57 \<or> 65 \<le> n \<and> n \<le> 90 \<or> 97 \<le> n \<and> n \<le> 122 \<or> n = 45 \<or> n = 95)"

definition validate_header_name :: "string \<Rightarrow> nat \<Rightarrow> nat \<Rightarrow> nat \<Rightarrow> conv_error + unit" where
  "validate_header_name name v p h =
     (if name = [] then Inl (Invalid_Config (header_field_path v p None h) ''header_name_non_empty'')
      else if \<not> list_all header_name_char name
      then Inl (Invalid_Config (header_field_path v p (Some name) h) ''header_name_invalid'')
      else Inr ())"

text \<open>The two checks of a pattern.\<close>

definition check_header_regex :: "codec_env \<Rightarrow> string \<Rightarrow> string \<Rightarrow> conv_error + HeaderMatch" where
  "check_header_regex env path pattern =
     (if length pattern > 256 then Inl (Invalid_Config path ''regex_pattern_too_long'')
      else if \<not> regex_valid env pattern then Inl (Invalid_Config path ''regex_invalid_syntax'')
      else Inr (Match_Regex pattern))"

definition to_runtime_header_predicate_dto ::
  "codec_env \<Rightarrow> HeaderMatcherDTO \<Rightarrow> nat \<Rightarrow> nat \<Rightarrow> nat \<Rightarrow> conv_error + HeaderPredicate" where
  "to_runtime_header_predicate_dto env pred v p h =
     and_then (case pred of
         DTO_Exact name val \<Rightarrow> Inr (name, Match_Exact val)
       | DTO_Prefix name pre \<Rightarrow> Inr (name, Match_Prefix pre)
       | DTO_Regex name pattern \<Rightarrow>
           and_then (check_header_regex env (header_field_path v p (Some name) h) pattern) (\<lambda>m. Inr (name, m))
       | DTO_Present name \<Rightarrow> Inr (name, Match_Present)
       | DTO_Absent name \<Rightarrow> Inr (name, Match_Absent)) (\<lambda>(name, m).
     and_then (validate_header_name name v p h) (\<lambda>_.
       Inr \<lparr>hp_name = to_ascii_lowercase name, hp_matcher = m\<rparr>))"

definition to_runtime_header_predicate_legacy ::
  "codec_env \<Rightarrow> HeaderPredicateLegacy \<Rightarrow> nat \<Rightarrow> nat \<Rightarrow> nat \<Rightarrow> conv_error + HeaderPredicate" where
  "to_runtime_header_predicate_legacy env pred v p h =
     (let canonical_name = to_ascii_lowercase (hl_name pred);
          header_path = header_field_path v p (Some canonical_name) h in
      and_then (validate_header_name (hl_name pred) v p h) (\<lambda>_.
      and_then
        (if hl_absent pred
         then if hl_value pred \<noteq> None \<or> hl_regex pred \<or> hl_prefix pred
           then Inl (Invalid_Config header_path ''header_absent_incompatible'')
           else Inr Match_Absent
         else (case (hl_value pred, hl_regex pred, hl_prefix pred) of
             (None, False, False) \<Rightarrow> Inr Match_Present
           | (Some val, False, False) \<Rightarrow> Inr (Match_Exact val)
           | (Some pre, False, True) \<Rightarrow> Inr (Match_Prefix pre)
           | (Some pattern, True, False) \<Rightarrow> check_header_regex env header_path pattern
           | (None, True, _) \<Rightarrow> Inl (Invalid_Config header_path ''regex_requires_value'')
           | (None, _, True) \<Rightarrow> Inl (Invalid_Config header_path ''prefix_requires_value'')
           | (Some _, True, True) \<Rightarrow> Inl (Invalid_Config header_path ''regex_prefix_exclusive''))) (\<lambda>m.
        Inr \<lparr>hp_name = canonical_name, hp_matcher = m\<rparr>)))"

definition to_runtime_header_predicate ::
  "codec_env \<Rightarrow> HeaderPredicateDto \<Rightarrow> nat \<Rightarrow> nat \<Rightarrow> nat \<Rightarrow> conv_error + HeaderPredicate" where
  "to_runtime_header_predicate env pred v p h =
     (case pred of
        V1 legacy \<Rightarrow> to_runtime_header_predicate_legacy env legacy v p h
      | V2 dto \<Rightarrow> to_runtime_header_predicate_dto env dto v p h)"

section \<open>Retry policies\<close>

definition retry_reason_of :: "string \<Rightarrow> RetryReason option" where
  "retry_reason_of s =
     (if s = ''status_code'' then Some Reason_StatusCode
      else if s = ''connect_timeout'' then Some Reason_ConnectTimeout
      else if s = ''read_timeout'' then Some Reason_ReadTimeout
      else if s = ''per_try_timeout'' then Some Reason_PerTryTimeout
      else if s = ''pool_full'' then Some Reason_PoolFull
      else if s = ''connect_error'' then Some Reason_ConnectError else None)"

fun backoff_of_dto :: "BackoffStrategyDTO \<Rightarrow> BackoffStrategy" where
  "backoff_of_dto (DTO_Fixed base) = Backoff_Fixed base"
| "backoff_of_dto (DTO_Linear base) = Backoff_Linear base"
| "backoff_of_dto (DTO_Exponential base mx) = Backoff_Exponential base mx"

text \<open>\<open>as_millis() as u32\<close> truncates; a zero becomes the least duration.\<close>

definition convert_per_try :: "duration option \<Rightarrow> Timeout \<Rightarrow> string \<Rightarrow> conv_error + TryTimeout" where
  "convert_per_try per_try route_timeout path =
     (case per_try of
        None \<Rightarrow> Inr TryTimeout_Inherit
      | Some d \<Rightarrow>
          let per_try_ms = of_nat (as_millis d) :: u32;
              request_timeout_ms = (case route_timeout of Timeout_Enabled d \<Rightarrow> d | Timeout_Disabled \<Rightarrow> 60000) in
          if per_try_ms > request_timeout_ms
          then Inl (Invalid_Config (path @ ''.per_try'') ''per_try_timeout_lte_request_timeout'')
          else Inr (TryTimeout_Enabled (if per_try_ms = 0 then 1 else per_try_ms)))"

definition convert_status_codes :: "RetryReason list \<Rightarrow> u16 list option \<Rightarrow> string \<Rightarrow> conv_error + RetryableStatusCodes option" where
  "convert_status_codes reasons codes path =
     (if Reason_StatusCode \<in> set reasons \<and> (codes = None \<or> codes = Some [])
      then Inl (Invalid_Config (path @ ''.retryable_status_codes'') ''required_when_status_code_retryable'')
      else Inr codes)"

definition convert_retry_at :: "string \<Rightarrow> RetryDto \<Rightarrow> Timeout \<Rightarrow> conv_error + RetryPolicy" where
  "convert_retry_at path dto route_timeout =
     and_then (fail_if (rd_max_attempts dto = 0) (Invalid_Config (path @ ''.max_attempts'') ''min_value=1'')) (\<lambda>_.
     and_then (fail_if (rd_max_attempts dto > 10) (Invalid_Config (path @ ''.max_attempts'') ''max_value=10'')) (\<lambda>_.
     and_then (ok_or (non_zero (rd_max_attempts dto)) (Anyhow ''max_attempts must be > 0'')) (\<lambda>attempts.
     and_then (try_map (\<lambda>s. ok_or (retry_reason_of s) (Invalid_Config (path @ ''.retryable_reasons'') ''valid_retry_reason''))
         (rd_retryable_reasons dto)) (\<lambda>reasons.
     and_then (convert_status_codes reasons (rd_retryable_status_codes dto) path) (\<lambda>codes.
     and_then (convert_per_try (rd_per_try dto) route_timeout path) (\<lambda>per_try.
       Inr (Retry_Enabled \<lparr>rp_max_attempts = attempts, rp_per_try = per_try, rp_retryable_reasons = reasons,
         rp_retryable_status_codes = codes, rp_backoff = backoff_of_dto (rd_backoff dto),
         rp_retry_non_idempotent = rd_retry_non_idempotent dto,
         rp_fail_on_non_replayable_retry = rd_fail_on_non_replayable_retry dto,
         rp_max_request_body_buffer_bytes = rd_max_request_body_buffer_bytes dto\<rparr>)))))))"

definition convert_retry_policy :: "RetryDto \<Rightarrow> Timeout \<Rightarrow> nat \<Rightarrow> nat \<Rightarrow> conv_error + RetryPolicy" where
  "convert_retry_policy dto route_timeout v p =
     convert_retry_at (''routes['' @ to_dec v @ ''].paths['' @ to_dec p @ ''].retry'') dto route_timeout"

section \<open>Materialisation (materialize.rs)\<close>

definition to_runtime_matcher ::
  "codec_env \<Rightarrow> PathMatch \<Rightarrow> string option \<Rightarrow> string list option \<Rightarrow> HeaderPredicateDto list option \<Rightarrow> nat \<Rightarrow> nat
   \<Rightarrow> conv_error + RouteMatcher" where
  "to_runtime_matcher env path verb verbs headers v p =
     (let method_path = route_method_field_path v p in
      and_then (case verbs of
          Some vs \<Rightarrow> and_then (try_map (\<lambda>(i, m). parse_http_method env m (fp_index i method_path)) (List.enumerate 0 vs))
            (\<lambda>ms. Inr (Method_List ms))
        | None \<Rightarrow> (case verb of
            Some m \<Rightarrow> and_then (parse_http_method env m method_path) (\<lambda>m. Inr (Method_Specific m))
          | None \<Rightarrow> Inr Method_Any)) (\<lambda>method.
      and_then (case headers of
          None \<Rightarrow> Inr Predicates_None
        | Some [] \<Rightarrow> Inr Predicates_None
        | Some preds \<Rightarrow> and_then
            (try_map (\<lambda>(h, pred). to_runtime_header_predicate env pred v p h) (List.enumerate 0 preds))
            (\<lambda>ps. Inr (Predicates_Some ps))) (\<lambda>hs.
        Inr \<lparr>rm_path = path, rm_method = method, rm_headers = hs\<rparr>)))"

definition to_runtime_headers :: "HeaderOperations option \<Rightarrow> HeadersPolicy" where
  "to_runtime_headers h =
     (case h of
        None \<Rightarrow> Headers_Disabled
      | Some h \<Rightarrow> Headers_Enabled \<lparr>set_headers = ho_set_headers h, append_headers = ho_append_headers h,
          add_headers = ho_add_headers h, remove_headers = ho_remove_headers h\<rparr>)"

definition default_matcher :: Matcher where
  "default_matcher = \<lparr>mt_path = PM_Prefix ''/'', mt_method = None, mt_methods = None, mt_headers = None\<rparr>"

definition matcher_path :: "Matcher \<Rightarrow> string" where
  "matcher_path m = (case mt_path m of PM_Prefix p \<Rightarrow> p | PM_Exact p \<Rightarrow> p | PM_Regex p \<Rightarrow> p)"

section \<open>To the runtime (emit.rs)\<close>

definition to_runtime_destination :: "WeightedDestination \<Rightarrow> conv_error + Destination" where
  "to_runtime_destination d =
     and_then (ok_or (try_into (unat (wd_weight d))) (Anyhow ''destination weight exceeds u16::MAX'')) (\<lambda>w.
     and_then (ok_or (non_zero w) (Anyhow ''destination weight must be > 0'')) (\<lambda>w.
       Inr \<lparr>dest_upstream = wd_upstream d, dest_weight = w\<rparr>))"

definition to_runtime_action :: "RouteActionDto \<Rightarrow> conv_error + RouteAction" where
  "to_runtime_action a =
     (case a of
        Dto_Forward ds \<Rightarrow> and_then (try_map to_runtime_destination ds) (\<lambda>ds. Inr (Action_Forward ds))
      | Dto_Redirect code location \<Rightarrow> Inr (Action_Redirect code location)
      | Dto_Direct code content \<Rightarrow> Inr (Action_Direct code content))"

definition to_runtime_timeout :: "duration option \<Rightarrow> conv_error + Timeout" where
  "to_runtime_timeout t =
     (case t of
        None \<Rightarrow> Inr Timeout_Disabled
      | Some d \<Rightarrow>
          and_then (ok_or (try_into (as_millis d)) (Anyhow ''timeout exceeds u32::MAX ms'')) (\<lambda>ms.
          and_then (ok_or (non_zero ms) (Anyhow ''timeout must be > 0'')) (\<lambda>ms. Inr (Timeout_Enabled ms))))"

definition to_runtime_rewrite :: "RewriteDto option \<Rightarrow> Matcher \<Rightarrow> Rewrite" where
  "to_runtime_rewrite r matcher_cfg =
     (case r of
        None \<Rightarrow> \<lparr>rw_path = RewritePath_Disabled, rw_host = RewriteHost_Disabled\<rparr>
      | Some r \<Rightarrow>
          \<lparr>rw_path = (case wr_path r of Some to \<Rightarrow> RewritePath_Prefix (matcher_path matcher_cfg) to
             | None \<Rightarrow> RewritePath_Disabled),
           rw_host = (case wr_host r of Some h \<Rightarrow> RewriteHost_Literal h | None \<Rightarrow> RewriteHost_Disabled)\<rparr>)"

definition path_match_of :: "PathMatcher \<Rightarrow> PathMatch" where
  "path_match_of m = (case m of PM_Prefix p \<Rightarrow> Path_Prefix p | PM_Exact p \<Rightarrow> Path_Exact p | PM_Regex p \<Rightarrow> Path_Regex p)"

definition to_runtime_principal :: "PrincipalConfig option \<Rightarrow> conv_error + Principal" where
  "to_runtime_principal pr =
     (case pr of
        None \<Rightarrow> Inr Principal_Any
      | Some PC_Any \<Rightarrow> Inr Principal_Any
      | Some (PC_Authenticated s) \<Rightarrow> Inr (Principal_Authenticated s)
      | Some (PC_Prefix s) \<Rightarrow> if s = [] then Inl (Anyhow ''principal.prefix must not be empty'') else Inr (Principal_Prefix s))"

definition to_runtime_route :: "codec_env \<Rightarrow> nat \<Rightarrow> nat \<Rightarrow> RouteDto \<Rightarrow> conv_error + Route" where
  "to_runtime_route env v p r =
     (let request_headers = to_runtime_headers (ro_request_headers r);
          response_headers = to_runtime_headers (ro_response_headers r);
          matcher_cfg = (case ro_matcher r of Some m \<Rightarrow> m | None \<Rightarrow> default_matcher) in
      and_then (to_runtime_action (ro_action r)) (\<lambda>action.
      and_then (to_runtime_timeout (ro_timeout r)) (\<lambda>timeout.
      and_then (case ro_retry r of Some dto \<Rightarrow> convert_retry_policy dto timeout v p | None \<Rightarrow> Inr Retry_Disabled) (\<lambda>retry.
      and_then (to_runtime_matcher env (path_match_of (mt_path matcher_cfg)) (mt_method matcher_cfg) (mt_methods matcher_cfg)
          (mt_headers matcher_cfg) v p) (\<lambda>matcher.
      and_then (to_runtime_principal (ro_principal r)) (\<lambda>principal.
        Inr \<lparr>r_matcher = matcher, r_timeout = timeout, r_retry = retry, r_request_headers = request_headers,
          r_response_headers = response_headers, r_rewrite = to_runtime_rewrite (ro_rewrite r) matcher_cfg,
          r_action = action, r_principal = principal\<rparr>))))))"

definition to_runtime_vhost :: "codec_env \<Rightarrow> nat \<Rightarrow> VirtualHostDto \<Rightarrow> conv_error + VirtualHost" where
  "to_runtime_vhost env v vh =
     and_then (try_map (\<lambda>(p, r). to_runtime_route env v p r) (List.enumerate 0 (vd_paths vh))) (\<lambda>paths.
       Inr \<lparr>vh_host = vd_host vh, vh_paths = paths\<rparr>)"

definition routes_to_runtime :: "codec_env \<Rightarrow> VirtualHostDto list \<Rightarrow> conv_error + VirtualHost list" where
  "routes_to_runtime env vhs = try_map (\<lambda>(v, vh). to_runtime_vhost env v vh) (List.enumerate 0 vhs)"

section \<open>From the runtime (dto\_adapter.rs)\<close>

fun retry_reason_name :: "RetryReason \<Rightarrow> string" where
  "retry_reason_name Reason_StatusCode = ''status_code''"
| "retry_reason_name Reason_ConnectTimeout = ''connect_timeout''"
| "retry_reason_name Reason_ReadTimeout = ''read_timeout''"
| "retry_reason_name Reason_PerTryTimeout = ''per_try_timeout''"
| "retry_reason_name Reason_PoolFull = ''pool_full''"
| "retry_reason_name Reason_ConnectError = ''connect_error''"

fun backoff_to_dto :: "BackoffStrategy \<Rightarrow> BackoffStrategyDTO" where
  "backoff_to_dto (Backoff_Fixed base) = DTO_Fixed base"
| "backoff_to_dto (Backoff_Linear base) = DTO_Linear base"
| "backoff_to_dto (Backoff_Exponential base mx) = DTO_Exponential base mx"

definition from_runtime_retry :: "RetryPolicy \<Rightarrow> RetryDto option" where
  "from_runtime_retry r =
     (case r of
        Retry_Disabled \<Rightarrow> None
      | Retry_Enabled c \<Rightarrow> Some \<lparr>rd_max_attempts = rp_max_attempts c,
          rd_retryable_reasons = map retry_reason_name (rp_retryable_reasons c),
          rd_retryable_status_codes = rp_retryable_status_codes c, rd_backoff = backoff_to_dto (rp_backoff c),
          rd_retry_non_idempotent = rp_retry_non_idempotent c,
          rd_fail_on_non_replayable_retry = rp_fail_on_non_replayable_retry c,
          rd_max_request_body_buffer_bytes = rp_max_request_body_buffer_bytes c,
          rd_per_try = (case rp_per_try c of TryTimeout_Enabled d \<Rightarrow> Some (from_millis (unat d)) | _ \<Rightarrow> None)\<rparr>)"

definition from_runtime_method :: "MethodPredicate \<Rightarrow> string option" where
  "from_runtime_method m = (case m of Method_Specific v \<Rightarrow> Some (method_as_str v) | _ \<Rightarrow> None)"

definition from_runtime_methods :: "MethodPredicate \<Rightarrow> string list option" where
  "from_runtime_methods m = (case m of Method_List vs \<Rightarrow> Some (map method_as_str vs) | _ \<Rightarrow> None)"

definition from_runtime_header_predicate :: "HeaderPredicate \<Rightarrow> HeaderPredicateDto" where
  "from_runtime_header_predicate pred =
     (let legacy = (\<lambda>val regex prefix absent. V1 \<lparr>hl_name = hp_name pred, hl_value = val, hl_regex = regex, hl_prefix = prefix,
            hl_absent = absent\<rparr>) in
      case hp_matcher pred of
        Match_Present \<Rightarrow> legacy None False False False
      | Match_Exact val \<Rightarrow> legacy (Some val) False False False
      | Match_Prefix pre \<Rightarrow> legacy (Some pre) False True False
      | Match_Regex pattern \<Rightarrow> legacy (Some pattern) True False False
      | Match_Absent \<Rightarrow> legacy None False False True)"

definition from_runtime_headers_predicates :: "HeaderPredicates \<Rightarrow> HeaderPredicateDto list option" where
  "from_runtime_headers_predicates hs =
     (case hs of Predicates_None \<Rightarrow> None | Predicates_Some ps \<Rightarrow> Some (map from_runtime_header_predicate ps))"

definition from_runtime_headers :: "HeadersPolicy \<Rightarrow> HeaderOperations option" where
  "from_runtime_headers h =
     (case h of
        Headers_Disabled \<Rightarrow> None
      | Headers_Enabled rules \<Rightarrow> Some \<lparr>ho_set_headers = set_headers rules, ho_append_headers = append_headers rules,
          ho_add_headers = add_headers rules, ho_remove_headers = remove_headers rules\<rparr>)"

definition from_runtime_action :: "RouteAction \<Rightarrow> RouteActionDto" where
  "from_runtime_action a =
     (case a of
        Action_Forward ds \<Rightarrow> Dto_Forward (map (\<lambda>d. \<lparr>wd_upstream = dest_upstream d, wd_weight = ucast (dest_weight d)\<rparr>) ds)
      | Action_Redirect code location \<Rightarrow> Dto_Redirect code location
      | Action_Direct code content \<Rightarrow> Dto_Direct code content)"

definition from_runtime_rewrite :: "Rewrite \<Rightarrow> RewriteDto option" where
  "from_runtime_rewrite r =
     (if rw_path r = RewritePath_Disabled \<and> rw_host r = RewriteHost_Disabled then None
      else Some \<lparr>wr_path = (case rw_path r of RewritePath_Prefix from to \<Rightarrow> Some to | RewritePath_Disabled \<Rightarrow> None),
             wr_host = (case rw_host r of RewriteHost_Literal h \<Rightarrow> Some h | RewriteHost_Disabled \<Rightarrow> None)\<rparr>)"

definition from_runtime_matcher :: "RouteMatcher \<Rightarrow> Matcher" where
  "from_runtime_matcher m =
     \<lparr>mt_path = (case rm_path m of Path_Prefix p \<Rightarrow> PM_Prefix p | Path_Exact p \<Rightarrow> PM_Exact p | Path_Regex p \<Rightarrow> PM_Regex p),
      mt_method = from_runtime_method (rm_method m), mt_methods = from_runtime_methods (rm_method m),
      mt_headers = from_runtime_headers_predicates (rm_headers m)\<rparr>"

definition from_runtime_principal :: "Principal \<Rightarrow> PrincipalConfig option" where
  "from_runtime_principal p =
     (case p of
        Principal_Any \<Rightarrow> None
      | Principal_Authenticated s \<Rightarrow> Some (PC_Authenticated s)
      | Principal_Prefix s \<Rightarrow> Some (PC_Prefix s))"

definition from_runtime_route :: "Route \<Rightarrow> RouteDto" where
  "from_runtime_route r =
     \<lparr>ro_matcher = Some (from_runtime_matcher (r_matcher r)),
      ro_timeout = (case r_timeout r of Timeout_Disabled \<Rightarrow> None | Timeout_Enabled d \<Rightarrow> Some (from_millis (unat d))),
      ro_retry = from_runtime_retry (r_retry r),
      ro_request_headers = from_runtime_headers (r_request_headers r),
      ro_response_headers = from_runtime_headers (r_response_headers r),
      ro_rewrite = from_runtime_rewrite (r_rewrite r), ro_action = from_runtime_action (r_action r),
      ro_principal = from_runtime_principal (r_principal r)\<rparr>"

definition routes_from_runtime :: "VirtualHost list \<Rightarrow> VirtualHostDto list" where
  "routes_from_runtime vhs = map (\<lambda>v. \<lparr>vd_host = vh_host v, vd_paths = map from_runtime_route (vh_paths v)\<rparr>) vhs"


section \<open>What survives a document\<close>

text \<open>
  A part of the runtime configuration is codable when a document can express it: the document written for it is read back as
  that part. The lemmas show for each part that this is exactly what its predicate says.
\<close>

definition header_codable :: "codec_env \<Rightarrow> HeaderPredicate \<Rightarrow> bool" where
  "header_codable env p \<longleftrightarrow> hp_name p \<noteq> [] \<and> list_all header_name_char (hp_name p)
     \<and> to_ascii_lowercase (hp_name p) = hp_name p
     \<and> (\<forall>pattern. hp_matcher p = Match_Regex pattern \<longrightarrow> length pattern \<le> 256 \<and> regex_valid env pattern)"

definition matcher_codable :: "codec_env \<Rightarrow> RouteMatcher \<Rightarrow> bool" where
  "matcher_codable env m \<longleftrightarrow> (case rm_headers m of
     Predicates_None \<Rightarrow> True | Predicates_Some ps \<Rightarrow> ps \<noteq> [] \<and> (\<forall>p\<in>set ps. header_codable env p))"

definition retry_codable :: "Timeout \<Rightarrow> RetryPolicy \<Rightarrow> bool" where
  "retry_codable timeout r \<longleftrightarrow> (\<forall>c. r = Retry_Enabled c \<longrightarrow>
     rp_max_attempts c \<noteq> 0 \<and> rp_max_attempts c \<le> 10
     \<and> (Reason_StatusCode \<in> set (rp_retryable_reasons c) \<longrightarrow> rp_retryable_status_codes c \<notin> {None, Some []})
     \<and> rp_per_try c \<noteq> TryTimeout_Disabled
     \<and> (\<forall>d. rp_per_try c = TryTimeout_Enabled d \<longrightarrow>
          d \<noteq> 0 \<and> d \<le> (case timeout of Timeout_Enabled t \<Rightarrow> t | Timeout_Disabled \<Rightarrow> 60000)))"

definition action_codable :: "RouteAction \<Rightarrow> bool" where
  "action_codable a \<longleftrightarrow> (\<forall>ds. a = Action_Forward ds \<longrightarrow> (\<forall>d\<in>set ds. dest_weight d \<noteq> 0))"

definition rewrite_codable :: "RouteMatcher \<Rightarrow> Rewrite \<Rightarrow> bool" where
  "rewrite_codable m rw \<longleftrightarrow> (\<forall>from to. rw_path rw = RewritePath_Prefix from to \<longrightarrow>
     rm_path m \<in> {Path_Prefix from, Path_Exact from, Path_Regex from})"

definition route_codable :: "codec_env \<Rightarrow> Route \<Rightarrow> bool" where
  "route_codable env r \<longleftrightarrow> matcher_codable env (r_matcher r) \<and> r_timeout r \<noteq> Timeout_Enabled 0
     \<and> retry_codable (r_timeout r) (r_retry r) \<and> rewrite_codable (r_matcher r) (r_rewrite r)
     \<and> action_codable (r_action r) \<and> r_principal r \<noteq> Principal_Prefix []"

lemma header_roundtrip:
  "to_runtime_header_predicate env (from_runtime_header_predicate p) v i h = Inr p \<longleftrightarrow> header_codable env p"
  by (cases p; cases "hp_matcher p")
    (auto simp: to_runtime_header_predicate_def from_runtime_header_predicate_def to_runtime_header_predicate_legacy_def
      header_codable_def check_header_regex_def validate_header_name_def Let_def result_simps split: if_splits)

lemma http_method_roundtrip:
  assumes "codec_env_ok env"
  shows "parse_http_method env (method_as_str m) path = Inr m"
proof -
  have "ascii (method_as_str m) \<and> http_method_of (to_ascii_uppercase (method_as_str m)) = Some m"
    by (cases m) (simp_all add: to_ascii_uppercase_def http_method_of_def)
  with assms show ?thesis by (simp add: parse_http_method_def codec_env_ok_def)
qed

lemma matcher_roundtrip:
  assumes "codec_env_ok env"
  shows "to_runtime_matcher env (rm_path m) (from_runtime_method (rm_method m)) (from_runtime_methods (rm_method m))
    (from_runtime_headers_predicates (rm_headers m)) v p = Inr m \<longleftrightarrow> matcher_codable env m"
proof -
  have methods: "try_map (\<lambda>(i, x). parse_http_method env x (fp_index i q)) (List.enumerate 0 (map method_as_str ms)) = Inr ms"
    for ms q using try_map_enumerate_roundtrip [of "\<lambda>i x. parse_http_method env x (fp_index i q)" method_as_str "\<lambda>_. True" 0 ms]
    by (simp add: http_method_roundtrip [OF assms])
  have headers: "try_map (\<lambda>(h, x). to_runtime_header_predicate env x v p h) (List.enumerate 0 (map from_runtime_header_predicate ps))
      = Inr ps \<longleftrightarrow> (\<forall>y\<in>set ps. header_codable env y)" for ps
    by (rule try_map_enumerate_roundtrip) (rule header_roundtrip)
  have verb: "(case from_runtime_methods (rm_method m) of
        Some vs \<Rightarrow> and_then (try_map (\<lambda>(i, m). parse_http_method env m (fp_index i (route_method_field_path v p))) (List.enumerate 0 vs))
          (\<lambda>ms. Inr (Method_List ms))
      | None \<Rightarrow> (case from_runtime_method (rm_method m) of
          Some m \<Rightarrow> and_then (parse_http_method env m (route_method_field_path v p)) (\<lambda>m. Inr (Method_Specific m))
        | None \<Rightarrow> Inr Method_Any)) = Inr (rm_method m)"
    by (cases "rm_method m") (simp_all add: from_runtime_methods_def from_runtime_method_def methods http_method_roundtrip [OF assms])
  have "(case from_runtime_headers_predicates (rm_headers m) of
        None \<Rightarrow> Inr Predicates_None
      | Some [] \<Rightarrow> Inr Predicates_None
      | Some preds \<Rightarrow> and_then
          (try_map (\<lambda>(h, pred). to_runtime_header_predicate env pred v p h) (List.enumerate 0 preds))
          (\<lambda>ps. Inr (Predicates_Some ps))) = Inr (rm_headers m) \<longleftrightarrow> matcher_codable env m"
  proof (cases "rm_headers m")
    case (Predicates_Some ps)
    then show ?thesis
      using headers [of ps] by (cases ps) (auto simp: from_runtime_headers_predicates_def matcher_codable_def and_then_eq_Inr)
  qed (simp add: from_runtime_headers_predicates_def matcher_codable_def)
  moreover have "\<lparr>rm_path = rm_path m, rm_method = rm_method m, rm_headers = hs\<rparr> = m \<longleftrightarrow> hs = rm_headers m" for hs
    by (cases m) auto
  ultimately show ?thesis
    unfolding to_runtime_matcher_def Let_def verb and_then.simps by (simp only: and_then_eq_Inr sum.inject) simp
qed

lemma retry_reason_roundtrip: "retry_reason_of (retry_reason_name r) = Some r"
  by (cases r) (simp_all add: retry_reason_of_def)

lemma of_nat_as_millis: "of_nat (as_millis (from_millis (unat (d :: u32)))) = d"
  by (simp add: as_millis_from_millis)

lemma per_try_roundtrip:
  "convert_per_try (case t of TryTimeout_Enabled d \<Rightarrow> Some (from_millis (unat d)) | _ \<Rightarrow> None) timeout path = Inr t \<longleftrightarrow>
     t \<noteq> TryTimeout_Disabled \<and> (\<forall>d. t = TryTimeout_Enabled d \<longrightarrow>
       d \<noteq> 0 \<and> d \<le> (case timeout of Timeout_Enabled t \<Rightarrow> t | Timeout_Disabled \<Rightarrow> 60000))"
  by (cases t) (auto simp: convert_per_try_def Let_def of_nat_as_millis split: Timeout.splits)

lemma retry_roundtrip:
  "(case from_runtime_retry r of Some dto \<Rightarrow> convert_retry_policy dto timeout v p | None \<Rightarrow> Inr Retry_Disabled) = Inr r
     \<longleftrightarrow> retry_codable timeout r"
proof (cases r)
  case (Retry_Enabled c)
  have reasons: "try_map (\<lambda>s. ok_or (retry_reason_of s) e) (map retry_reason_name rs) = Inr rs" for e :: conv_error and rs
    by (simp add: try_map_roundtrip retry_reason_roundtrip)
  have backoff: "backoff_of_dto (backoff_to_dto b) = b" for b by (cases b) simp_all
  show ?thesis
    unfolding Retry_Enabled retry_codable_def from_runtime_retry_def
    by (cases c) (auto simp: convert_retry_policy_def convert_retry_at_def and_then_eq_Inr fail_if_eq_Inr ok_or_eq_Inr non_zero_eq_Some reasons
        backoff per_try_roundtrip convert_status_codes_def word_not_simps)
qed (simp add: from_runtime_retry_def retry_codable_def)


lemma destination_roundtrip:
  "to_runtime_destination \<lparr>wd_upstream = dest_upstream d, wd_weight = ucast (dest_weight d)\<rparr> = Inr d \<longleftrightarrow> dest_weight d \<noteq> 0"
proof -
  have "unat (ucast (dest_weight d) :: u32) = unat (dest_weight d)"
    using unat_less_exp [of "dest_weight d"] by (simp add: unsigned_ucast_eq take_bit_eq_mod)
  then show ?thesis
    by (cases d) (auto simp: to_runtime_destination_def and_then_eq_Inr ok_or_eq_Inr non_zero_eq_Some)
qed

lemma action_roundtrip: "to_runtime_action (from_runtime_action a) = Inr a \<longleftrightarrow> action_codable a"
  by (cases a) (auto simp: to_runtime_action_def from_runtime_action_def action_codable_def and_then_eq_Inr try_map_roundtrip
      destination_roundtrip)

lemma timeout_roundtrip:
  "to_runtime_timeout (case t of Timeout_Disabled \<Rightarrow> None | Timeout_Enabled d \<Rightarrow> Some (from_millis (unat d))) = Inr t
     \<longleftrightarrow> t \<noteq> Timeout_Enabled 0"
  by (cases t) (auto simp: to_runtime_timeout_def and_then_eq_Inr ok_or_eq_Inr non_zero_eq_Some as_millis_from_millis)

lemma rewrite_roundtrip:
  "to_runtime_rewrite (from_runtime_rewrite rw) (from_runtime_matcher m) = rw \<longleftrightarrow> rewrite_codable m rw"
  by (cases rw; cases "rw_path rw"; cases "rw_host rw"; cases "rm_path m")
    (auto simp: to_runtime_rewrite_def from_runtime_rewrite_def from_runtime_matcher_def matcher_path_def rewrite_codable_def)

lemma principal_roundtrip: "to_runtime_principal (from_runtime_principal p) = Inr p \<longleftrightarrow> p \<noteq> Principal_Prefix []"
  by (cases p) (auto simp: to_runtime_principal_def from_runtime_principal_def)

lemma headers_roundtrip: "to_runtime_headers (from_runtime_headers h) = h"
  by (cases h) (simp_all add: to_runtime_headers_def from_runtime_headers_def)

lemma path_roundtrip: "path_match_of (mt_path (from_runtime_matcher m)) = rm_path m"
  by (cases "rm_path m") (simp_all add: path_match_of_def from_runtime_matcher_def)

lemma from_runtime_matcher_fields:
  "mt_method (from_runtime_matcher m) = from_runtime_method (rm_method m)"
  "mt_methods (from_runtime_matcher m) = from_runtime_methods (rm_method m)"
  "mt_headers (from_runtime_matcher m) = from_runtime_headers_predicates (rm_headers m)"
  by (simp_all add: from_runtime_matcher_def)

lemma route_eq:
  "\<lparr>r_matcher = m, r_timeout = t, r_retry = rt, r_request_headers = rq, r_response_headers = rs, r_rewrite = rw, r_action = a,
     r_principal = p\<rparr> = r \<longleftrightarrow> m = r_matcher r \<and> t = r_timeout r \<and> rt = r_retry r \<and> rq = r_request_headers r
     \<and> rs = r_response_headers r \<and> rw = r_rewrite r \<and> a = r_action r \<and> p = r_principal r"
  by (cases r) auto

lemma route_roundtrip:
  assumes "codec_env_ok env"
  shows "to_runtime_route env v p (from_runtime_route r) = Inr r \<longleftrightarrow> route_codable env r"
proof -
  have "to_runtime_route env v p (from_runtime_route r) = Inr r \<longleftrightarrow>
      to_runtime_action (from_runtime_action (r_action r)) = Inr (r_action r)
      \<and> to_runtime_timeout (case r_timeout r of Timeout_Disabled \<Rightarrow> None | Timeout_Enabled d \<Rightarrow> Some (from_millis (unat d)))
          = Inr (r_timeout r)
      \<and> (case from_runtime_retry (r_retry r) of Some dto \<Rightarrow> convert_retry_policy dto (r_timeout r) v p | None \<Rightarrow> Inr Retry_Disabled)
          = Inr (r_retry r)
      \<and> to_runtime_matcher env (rm_path (r_matcher r)) (from_runtime_method (rm_method (r_matcher r)))
          (from_runtime_methods (rm_method (r_matcher r))) (from_runtime_headers_predicates (rm_headers (r_matcher r))) v p
          = Inr (r_matcher r)
      \<and> to_runtime_principal (from_runtime_principal (r_principal r)) = Inr (r_principal r)
      \<and> to_runtime_rewrite (from_runtime_rewrite (r_rewrite r)) (from_runtime_matcher (r_matcher r)) = r_rewrite r"
    by (auto simp: to_runtime_route_def from_runtime_route_def Let_def and_then_eq_Inr path_roundtrip headers_roundtrip
        from_runtime_matcher_fields route_eq simp del: and_then.simps)
  then show ?thesis
    unfolding action_roundtrip timeout_roundtrip retry_roundtrip matcher_roundtrip [OF assms] principal_roundtrip rewrite_roundtrip
      route_codable_def by blast
qed

lemma vhost_roundtrip:
  assumes "codec_env_ok env"
  shows "to_runtime_vhost env v \<lparr>vd_host = vh_host h, vd_paths = map from_runtime_route (vh_paths h)\<rparr> = Inr h
    \<longleftrightarrow> (\<forall>r\<in>set (vh_paths h). route_codable env r)"
proof -
  have "try_map (\<lambda>(p, r). to_runtime_route env v p r) (List.enumerate 0 (map from_runtime_route (vh_paths h))) = Inr (vh_paths h)
      \<longleftrightarrow> (\<forall>r\<in>set (vh_paths h). route_codable env r)"
    by (rule try_map_enumerate_roundtrip) (rule route_roundtrip [OF assms])
  then show ?thesis
    by (cases h) (auto simp: to_runtime_vhost_def and_then_eq_Inr)
qed

lemma routes_roundtrip:
  assumes "codec_env_ok env"
  shows "routes_to_runtime env (routes_from_runtime vhs) = Inr vhs \<longleftrightarrow> (\<forall>h\<in>set vhs. \<forall>r\<in>set (vh_paths h). route_codable env r)"
  unfolding routes_to_runtime_def routes_from_runtime_def
  by (rule try_map_enumerate_roundtrip) (rule vhost_roundtrip [OF assms])


section \<open>What a document yields survives\<close>

lemma header_name_char_lowercase: "header_name_char c \<Longrightarrow> header_name_char (to_ascii_lowercase_char c)"
  by (auto simp: header_name_char_def to_ascii_lowercase_char_def Let_def)

lemma lowercase_name_ok:
  assumes "validate_header_name name v p h = Inr u"
  shows "to_ascii_lowercase name \<noteq> [] \<and> list_all header_name_char (to_ascii_lowercase name)
    \<and> to_ascii_lowercase (to_ascii_lowercase name) = to_ascii_lowercase name"
proof (intro conjI)
  from assms have ok: "name \<noteq> []" "list_all header_name_char name"
    by (auto simp: validate_header_name_def split: if_splits)
  show "to_ascii_lowercase name \<noteq> []" using ok(1) by (simp add: to_ascii_lowercase_def)
  show "list_all header_name_char (to_ascii_lowercase name)"
    using ok(2) by (auto simp: to_ascii_lowercase_def list_all_iff header_name_char_lowercase)
  show "to_ascii_lowercase (to_ascii_lowercase name) = to_ascii_lowercase name" by (rule to_ascii_lowercase_idem)
qed

lemma check_header_regex_Inr:
  "check_header_regex env path pattern = Inr m \<longleftrightarrow> m = Match_Regex pattern \<and> length pattern \<le> 256 \<and> regex_valid env pattern"
  by (auto simp: check_header_regex_def)

lemma header_yields_codable:
  assumes "to_runtime_header_predicate env d v p h = Inr q"
  shows "header_codable env q"
proof (cases d)
  case (V1 legacy)
  with assms show ?thesis
    by (auto simp: to_runtime_header_predicate_def to_runtime_header_predicate_legacy_def Let_def and_then_eq_Inr header_codable_def
        check_header_regex_Inr dest: lowercase_name_ok split: if_splits option.splits bool.splits)
next
  case (V2 dto)
  with assms show ?thesis
    by (auto simp: to_runtime_header_predicate_def to_runtime_header_predicate_dto_def and_then_eq_Inr header_codable_def
        check_header_regex_Inr dest: lowercase_name_ok split: HeaderMatcherDTO.splits)
qed

lemma matcher_yields_codable:
  assumes "to_runtime_matcher env path verb verbs headers v p = Inr m"
  shows "matcher_codable env m \<and> rm_path m = path"
proof (cases "rm_headers m")
  case Predicates_None
  with assms show ?thesis by (auto simp: to_runtime_matcher_def Let_def and_then_eq_Inr matcher_codable_def)
next
  case (Predicates_Some ps)
  with assms obtain a preds where "headers = Some (a # preds)"
    and t: "try_map (\<lambda>(h, pred). to_runtime_header_predicate env pred v p h) (List.enumerate 0 (a # preds)) = Inr ps"
    and "rm_path m = path"
    unfolding to_runtime_matcher_def Let_def
    by (auto simp: and_then_eq_Inr simp del: try_map.simps enumerate_simps split: option.splits list.splits)
  moreover have "ps \<noteq> []" using t by (auto simp: and_then_eq_Inr)
  moreover have "\<forall>q\<in>set ps. header_codable env q"
    using try_map_enumerate_elem [of "\<lambda>h pred. to_runtime_header_predicate env pred v p h", OF t] header_yields_codable by blast
  ultimately show ?thesis using Predicates_Some by (simp add: matcher_codable_def)
qed

lemma per_try_yields:
  assumes "convert_per_try t timeout path = Inr r" "timeout \<noteq> Timeout_Enabled 0"
  shows "r \<noteq> TryTimeout_Disabled \<and> (\<forall>d. r = TryTimeout_Enabled d \<longrightarrow>
    d \<noteq> 0 \<and> d \<le> (case timeout of Timeout_Enabled t \<Rightarrow> t | Timeout_Disabled \<Rightarrow> 60000))"
proof -
  have "1 \<le> w" if "w \<noteq> 0" for w :: u32 using that by (simp add: word_le_nat_alt unat_gt_0 Suc_le_eq)
  with assms show ?thesis
    by (auto simp: convert_per_try_def Let_def not_less split: option.splits if_splits Timeout.splits)
qed

lemma retry_at_yields_codable:
  assumes "convert_retry_at path dto timeout = Inr r" "timeout \<noteq> Timeout_Enabled 0"
  shows "retry_codable timeout r"
proof -
  from assms(1) obtain a reasons codes t where ok: "rd_max_attempts dto = a" "a \<noteq> 0" "a \<le> 10"
    and codes: "convert_status_codes reasons (rd_retryable_status_codes dto) path = Inr codes"
    and t: "convert_per_try (rd_per_try dto) timeout path = Inr t"
    and r: "r = Retry_Enabled \<lparr>rp_max_attempts = a, rp_per_try = t, rp_retryable_reasons = reasons,
      rp_retryable_status_codes = codes, rp_backoff = backoff_of_dto (rd_backoff dto),
      rp_retry_non_idempotent = rd_retry_non_idempotent dto,
      rp_fail_on_non_replayable_retry = rd_fail_on_non_replayable_retry dto,
      rp_max_request_body_buffer_bytes = rd_max_request_body_buffer_bytes dto\<rparr>"
    unfolding convert_retry_at_def by (auto simp: and_then_eq_Inr fail_if_eq_Inr ok_or_eq_Inr non_zero_eq_Some not_less)
  from codes have "Reason_StatusCode \<in> set reasons \<longrightarrow> codes \<notin> {None, Some []}"
    by (auto simp: convert_status_codes_def split: if_splits)
  with ok per_try_yields [OF t assms(2)] show ?thesis
    by (simp add: r retry_codable_def)
qed

lemma retry_yields_codable:
  assumes "(case d of Some dto \<Rightarrow> convert_retry_policy dto timeout v p | None \<Rightarrow> Inr Retry_Disabled) = Inr r"
    and "timeout \<noteq> Timeout_Enabled 0"
  shows "retry_codable timeout r"
proof (cases d)
  case None
  with assms show ?thesis by (simp add: retry_codable_def)
next
  case (Some dto)
  with assms show ?thesis
    unfolding convert_retry_policy_def option.case Some by (intro retry_at_yields_codable)
qed

lemma action_yields_codable:
  assumes "to_runtime_action d = Inr a"
  shows "action_codable a"
proof -
  have "dest_weight y \<noteq> 0" if "to_runtime_destination x = Inr y" for x y
    using that by (auto simp: to_runtime_destination_def and_then_eq_Inr ok_or_eq_Inr non_zero_eq_Some)
  then have "\<forall>y\<in>set ys. dest_weight y \<noteq> 0" if "try_map to_runtime_destination xs = Inr ys" for xs ys
    using try_map_elem [OF that] by blast
  with assms show ?thesis
    by (auto simp: to_runtime_action_def and_then_eq_Inr action_codable_def split: RouteActionDto.splits)
qed

lemma rewrite_yields_codable:
  "rm_path m = path_match_of (mt_path cfg) \<Longrightarrow> rewrite_codable m (to_runtime_rewrite d cfg)"
  by (cases "mt_path cfg")
    (auto simp: to_runtime_rewrite_def rewrite_codable_def matcher_path_def path_match_of_def split: option.splits)

lemma route_yields_codable:
  assumes "to_runtime_route env v p d = Inr r"
  shows "route_codable env r"
proof -
  let ?cfg = "case ro_matcher d of Some m \<Rightarrow> m | None \<Rightarrow> default_matcher"
  from assms have r: "to_runtime_action (ro_action d) = Inr (r_action r)" "to_runtime_timeout (ro_timeout d) = Inr (r_timeout r)"
    "(case ro_retry d of Some dto \<Rightarrow> convert_retry_policy dto (r_timeout r) v p | None \<Rightarrow> Inr Retry_Disabled) = Inr (r_retry r)"
    "to_runtime_matcher env (path_match_of (mt_path ?cfg)) (mt_method ?cfg) (mt_methods ?cfg) (mt_headers ?cfg) v p = Inr (r_matcher r)"
    "to_runtime_principal (ro_principal d) = Inr (r_principal r)" "r_rewrite r = to_runtime_rewrite (ro_rewrite d) ?cfg"
    unfolding to_runtime_route_def Let_def and_then_eq_Inr sum.inject route_eq by auto
  have t: "r_timeout r \<noteq> Timeout_Enabled 0"
    using r(2) by (auto simp: to_runtime_timeout_def and_then_eq_Inr ok_or_eq_Inr non_zero_eq_Some split: option.splits)
  have "r_principal r \<noteq> Principal_Prefix []"
    using r(5) by (auto simp: to_runtime_principal_def split: option.splits PrincipalConfig.splits if_splits)
  with t r(6) show ?thesis
    using action_yields_codable [OF r(1)] retry_yields_codable [OF r(3) t] matcher_yields_codable [OF r(4)]
      rewrite_yields_codable [of "r_matcher r" ?cfg "ro_rewrite d"]
    by (simp add: route_codable_def)
qed

lemma routes_yield_codable:
  assumes "routes_to_runtime env d = Inr vhs" "vh \<in> set vhs" "r \<in> set (vh_paths vh)"
  shows "route_codable env r"
proof -
  from try_map_enumerate_elem [of "\<lambda>v x. to_runtime_vhost env v x", OF assms(1) [unfolded routes_to_runtime_def] assms(2)]
  obtain v x where "to_runtime_vhost env v x = Inr vh" by blast
  then have t: "try_map (\<lambda>(p, r). to_runtime_route env v p r) (List.enumerate 0 (vd_paths x)) = Inr (vh_paths vh)"
    by (auto simp: to_runtime_vhost_def and_then_eq_Inr)
  from try_map_enumerate_elem [of "\<lambda>p r. to_runtime_route env v p r", OF t assms(3)] route_yields_codable show ?thesis by blast
qed

end
