(* ===== verification/Serde_Upstreams.thy ===== *)
theory Serde_Upstreams
  imports Serde_Types
begin

text \<open>
  Upstreams of a document and of the runtime configuration: crates/pavis-codec-serde/src/config/convert/upstreams.
  \<open>to_runtime\<close> (emit.rs, materialize.rs, semantic\_validate.rs) and \<open>from_runtime\<close> (dto\_adapter.rs). The index of an
  upstream enters the field path of an error and the identifier of an upstream that has none.
\<close>

section \<open>Materialisation (materialize.rs)\<close>

definition DEFAULT_POOL_QUEUE_CAPACITY :: u32 where
  "DEFAULT_POOL_QUEUE_CAPACITY = 0"

definition DEFAULT_POOL_QUEUE_TIMEOUT_MS :: u32 where
  "DEFAULT_POOL_QUEUE_TIMEOUT_MS = 0"

definition default_idle_timeout :: duration where
  "default_idle_timeout = from_secs 60"

definition default_connection_timeout :: duration where
  "default_connection_timeout = from_secs 5"

definition default_pool_config :: ConnectionPoolConfig where
  "default_pool_config = \<lparr>cp_idle = Some default_idle_timeout, cp_connect = Some default_connection_timeout, cp_max = None,
     cp_queue_capacity = None, cp_queue_timeout_ms = None, cp_tcp_keepalive = None, cp_tcp_nodelay = None,
     cp_recv_buffer_size = None\<rparr>"

definition duration_to_policy :: "duration \<Rightarrow> conv_error + IdleTimeout" where
  "duration_to_policy d =
     and_then (ok_or (try_into (as_millis d)) (Anyhow ''idle timeout exceeds u32::MAX ms'')) (\<lambda>ms.
       Inr (case non_zero ms of Some ms \<Rightarrow> IdleTimeout_Enabled ms | None \<Rightarrow> IdleTimeout_Disabled))"

definition duration_to_connect :: "duration \<Rightarrow> conv_error + ConnectTimeout" where
  "duration_to_connect d =
     and_then (ok_or (try_into (as_millis d)) (Anyhow ''connect timeout exceeds u32::MAX ms'')) (\<lambda>ms.
       Inr (case non_zero ms of Some ms \<Rightarrow> ConnectTimeout_Enabled ms | None \<Rightarrow> ConnectTimeout_Disabled))"

definition duration_to_required :: "duration \<Rightarrow> string \<Rightarrow> conv_error + Duration" where
  "duration_to_required d cxt =
     and_then (ok_or (try_into (as_millis d)) (Anyhow (cxt @ '' exceeds u32::MAX ms''))) (\<lambda>ms.
       ok_or (non_zero ms) (Anyhow (cxt @ '' must be > 0'')))"

definition upstream_field_path :: "nat \<Rightarrow> string" where
  "upstream_field_path i = fp_index i (fp_root ''upstreams'')"

definition upstream_pool_field_path :: "nat \<Rightarrow> string \<Rightarrow> string" where
  "upstream_pool_field_path i field = fp_field field (fp_field ''pool'' (upstream_field_path i))"

text \<open>\<open>u32::try_from\<close> of an \<open>i64\<close>.\<close>

definition u32_of_int :: "int \<Rightarrow> u32 option" where
  "u32_of_int i = (if i < 0 then None else try_into (nat i))"

definition materialize_pool_max :: "int option \<Rightarrow> nat \<Rightarrow> conv_error + u32" where
  "materialize_pool_max m i =
     (case m of
        None \<Rightarrow> Inr DEFAULT_POOL_MAX
      | Some width \<Rightarrow>
          and_then (fail_if (width < 1) (Invalid_Config (upstream_pool_field_path i ''max'') ''min_value=1'')) (\<lambda>_.
          and_then (ok_or (u32_of_int width) (Invalid_Config (upstream_pool_field_path i ''max'') ''max_value=u32::MAX'')) (\<lambda>w.
            ok_or (non_zero w) (Invalid_Config (upstream_pool_field_path i ''max'') ''min_value=1''))))"

definition materialize_queue_value :: "int option \<Rightarrow> u32 \<Rightarrow> string \<Rightarrow> nat \<Rightarrow> conv_error + u32" where
  "materialize_queue_value m d field i =
     (case m of
        None \<Rightarrow> Inr d
      | Some raw \<Rightarrow>
          and_then (fail_if (raw < 0) (Invalid_Config (upstream_pool_field_path i field) ''min_value=0'')) (\<lambda>_.
            ok_or (u32_of_int raw) (Invalid_Config (upstream_pool_field_path i field) ''max_value=u32::MAX'')))"

definition duration_to_tcp_keepalive :: "duration \<Rightarrow> nat \<Rightarrow> conv_error + Duration" where
  "duration_to_tcp_keepalive d i =
     and_then (ok_or (try_into (as_millis d))
         (Invalid_Config (upstream_pool_field_path i ''tcp_keepalive'') ''max_value=u32::MAX milliseconds'')) (\<lambda>ms.
       ok_or (non_zero ms) (Invalid_Config (upstream_pool_field_path i ''tcp_keepalive'') ''min_value=1ms''))"

definition validate_recv_buffer_size :: "u32 \<Rightarrow> conv_error + u32" where
  "validate_recv_buffer_size n = Inr n"

section \<open>To the runtime (emit.rs)\<close>

definition to_runtime_endpoint :: "Discovery \<Rightarrow> EndpointDto \<Rightarrow> conv_error + Endpoint" where
  "to_runtime_endpoint discovery e =
     and_then (ok_or (non_zero (ed_port e)) (Anyhow ''endpoint port must be > 0'')) (\<lambda>port.
     and_then (case discovery of
         Discovery_Static \<Rightarrow> and_then (ok_or (parse_ip (ed_address e)) (Anyhow ''Invalid endpoint IP'')) (\<lambda>ip.
           Inr (Endpoint_Ip ip port))
       | _ \<Rightarrow> Inr (Endpoint_Dns (ed_address e) port)) (\<lambda>address.
     and_then (ok_or (try_into (unat (unwrap_or (ed_weight e) 1))) (Anyhow ''endpoint weight exceeds u16::MAX'')) (\<lambda>w.
     and_then (ok_or (non_zero w) (Anyhow ''endpoint weight must be > 0'')) (\<lambda>w.
       Inr \<lparr>ep_address = address, ep_weight = w\<rparr>))))"

definition to_runtime_pool :: "ConnectionPoolConfig \<Rightarrow> nat \<Rightarrow> conv_error + Pool" where
  "to_runtime_pool c i =
     and_then (duration_to_policy (unwrap_or (cp_idle c) default_idle_timeout)) (\<lambda>idle.
     and_then (duration_to_connect (unwrap_or (cp_connect c) default_connection_timeout)) (\<lambda>connect.
     and_then (materialize_pool_max (cp_max c) i) (\<lambda>mx.
     and_then (materialize_queue_value (cp_queue_capacity c) DEFAULT_POOL_QUEUE_CAPACITY ''queue_capacity'' i) (\<lambda>capacity.
     and_then (materialize_queue_value (cp_queue_timeout_ms c) DEFAULT_POOL_QUEUE_TIMEOUT_MS ''queue_timeout_ms'' i) (\<lambda>timeout.
     and_then (case cp_tcp_keepalive c of
         Some d \<Rightarrow> and_then (duration_to_tcp_keepalive d i) (\<lambda>k. Inr (Some k)) | None \<Rightarrow> Inr None) (\<lambda>keepalive.
     and_then (case cp_recv_buffer_size c of
         Some n \<Rightarrow> and_then (validate_recv_buffer_size n) (\<lambda>n. Inr (Some n)) | None \<Rightarrow> Inr None) (\<lambda>recv.
       Inr \<lparr>pool_idle = idle, pool_connect = connect, pool_max = mx,
         pool_queue = \<lparr>pq_capacity = capacity, pq_timeout_ms = timeout\<rparr>, pool_tcp_keepalive = keepalive,
         pool_tcp_nodelay = cp_tcp_nodelay c, pool_recv_buffer_size = recv\<rparr>)))))))"

definition to_runtime_verify :: "bool \<Rightarrow> bool \<Rightarrow> TlsVerify" where
  "to_runtime_verify verify_cert verify_hostname =
     (if \<not> verify_cert then Verify_Disabled else if \<not> verify_hostname then Verify_CaOnly else Verify_Full)"

definition to_runtime_sni :: "SniMode option \<Rightarrow> string option \<Rightarrow> conv_error + SniName" where
  "to_runtime_sni mode sni =
     (case mode of
        Some SniMode_Auto \<Rightarrow>
          if sni \<noteq> None then Inl (Anyhow ''sni_mode=auto but also provides sni'') else Inr Sni_Auto
      | Some SniMode_Name \<Rightarrow> and_then (ok_or sni (Anyhow ''sni_mode=name without sni'')) (\<lambda>n. Inr (Sni_Name n))
      | Some SniMode_Disabled \<Rightarrow>
          if sni \<noteq> None then Inl (Anyhow ''sni_mode=disabled but also provides sni'') else Inr Sni_Disabled
      | None \<Rightarrow> (case sni of Some n \<Rightarrow> Inr (Sni_Name n) | None \<Rightarrow> Inr Sni_Auto))"

definition chain_file :: "codec_env \<Rightarrow> string \<Rightarrow> conv_error + ClientCertChain" where
  "chain_file env p = (if blank env p then Inl (Anyhow ''chain_path cannot be empty'') else Inr (Chain_File p))"

definition to_runtime_chain :: "codec_env \<Rightarrow> ClientCertChainMode option \<Rightarrow> string option \<Rightarrow> conv_error + ClientCertChain" where
  "to_runtime_chain env mode chain =
     (case (mode, chain) of
        (None, None) \<Rightarrow> Inr Chain_None
      | (None, Some p) \<Rightarrow> chain_file env p
      | (Some Mode_File, Some p) \<Rightarrow> chain_file env p
      | (Some Mode_File, None) \<Rightarrow> Inl (Anyhow ''chain_mode=file requires chain_path'')
      | (Some Mode_Embedded, None) \<Rightarrow> Inr Chain_Embedded
      | (Some Mode_None, None) \<Rightarrow> Inr Chain_None
      | (Some Mode_Embedded, Some _) \<Rightarrow> Inl (Anyhow ''chain_path is only valid with chain_mode=file'')
      | (Some Mode_None, Some _) \<Rightarrow> Inl (Anyhow ''chain_path is only valid with chain_mode=file''))"

definition to_runtime_cert :: "codec_env \<Rightarrow> ClientCertConfig option \<Rightarrow> conv_error + ClientCert" where
  "to_runtime_cert env cert =
     (case cert of
        None \<Rightarrow> Inr ClientCert_Disabled
      | Some cc \<Rightarrow>
          and_then (fail_if (blank env (cc_cert_path cc) \<or> blank env (cc_key_path cc))
              (Anyhow ''cert_path and key_path must be non-empty'')) (\<lambda>_.
          and_then (to_runtime_chain env (cc_chain_mode cc) (cc_chain_path cc)) (\<lambda>chain.
            Inr (ClientCert_Enabled (cc_cert_path cc) (cc_key_path cc) chain))))"

definition to_runtime_tls :: "codec_env \<Rightarrow> UpstreamTlsConfig option \<Rightarrow> conv_error + TlsPolicy" where
  "to_runtime_tls env tls =
     (case tls of
        None \<Rightarrow> Inr TlsPolicy_Disabled
      | Some t \<Rightarrow>
          if \<not> unwrap_or (ut_enabled t) True then Inr TlsPolicy_Disabled
          else
            let verify = to_runtime_verify (unwrap_or (ut_verify_cert t) True) (unwrap_or (ut_verify_hostname t) True) in
            and_then (to_runtime_sni (ut_sni_mode t) (ut_sni t)) (\<lambda>sni.
            and_then (fail_if (verify = Verify_Full \<and> sni = Sni_Disabled) (Anyhow ''verify=full requires sni=auto or sni=name'')) (\<lambda>_.
            and_then (case ut_canonical_sni t of
                Some n \<Rightarrow> if blank env n then Inl (Anyhow ''canonical_sni cannot be empty'') else Inr (CanonicalSni_Enabled n)
              | None \<Rightarrow> Inr CanonicalSni_Disabled) (\<lambda>canonical.
            let reuse = (if unwrap_or (ut_reuse_across_sni t) False then Reuse_Enabled else Reuse_Disabled) in
            and_then (fail_if (reuse = Reuse_Enabled \<and> verify = Verify_Disabled)
                (Anyhow ''reuse_across_sni requires verify != disabled'')) (\<lambda>_.
            and_then (case ut_ca_bundle_path t of
                Some p \<Rightarrow> if blank env p then Inl (Anyhow ''ca_bundle_path cannot be empty'') else Inr (Ca_File p)
              | None \<Rightarrow> Inr Ca_System) (\<lambda>ca.
            and_then (to_runtime_cert env (ut_cert t)) (\<lambda>cert.
              Inr (TlsPolicy_Enabled \<lparr>tls_verify = verify, tls_sni = sni, tls_canonical_sni = canonical,
                tls_reuse_across_sni = reuse, tls_cert = cert, tls_ca = ca\<rparr>))))))))"

text \<open>Without an identifier the position counted from one is taken, truncated to 16 bits.\<close>

definition to_runtime_id :: "u16 option \<Rightarrow> nat \<Rightarrow> conv_error + UpstreamId" where
  "to_runtime_id i index =
     (case i of
        Some n \<Rightarrow> ok_or (non_zero n) (Anyhow ''upstream id must be > 0'')
      | None \<Rightarrow> ok_or (non_zero (of_nat (index + 1))) (Anyhow ''upstream id must be > 0''))"

definition to_runtime_outlier :: "OutlierDetectionDto option \<Rightarrow> conv_error + OutlierDetectionPolicy" where
  "to_runtime_outlier od =
     (case od of
        None \<Rightarrow> Inr Outlier_Disabled
      | Some outlier \<Rightarrow>
          and_then (ok_or (try_into (unat (od_consecutive_errors outlier)))
              (Anyhow ''outlier_detection.consecutive_errors exceeds u32::MAX'')) (\<lambda>errors.
          and_then (ok_or (non_zero errors) (Anyhow ''outlier_detection.consecutive_errors must be > 0'')) (\<lambda>errors.
          and_then (duration_to_required (od_eject_duration outlier) ''outlier_detection.eject_duration'') (\<lambda>d.
            Inr (Outlier_Enabled errors d)))))"

definition to_runtime_breaker :: "CircuitBreakerDto option \<Rightarrow> conv_error + CircuitBreakerPolicy" where
  "to_runtime_breaker b =
     (case b of
        None \<Rightarrow> Inr Breaker_Disabled
      | Some cb \<Rightarrow>
          and_then (fail_if (cbd_max_retries cb \<noteq> None) (Anyhow ''circuit_breaker.max_retries is not supported'')) (\<lambda>_.
          and_then (ok_or (try_into (unat (cbd_max_connections cb)))
              (Anyhow ''circuit_breaker.max_connections exceeds u32::MAX'')) (\<lambda>c.
          and_then (ok_or (non_zero c) (Anyhow ''circuit_breaker.max_connections must be > 0'')) (\<lambda>c.
          and_then (ok_or (try_into (unat (cbd_max_pending_requests cb)))
              (Anyhow ''circuit_breaker.max_pending_requests exceeds u32::MAX'')) (\<lambda>p.
          and_then (ok_or (non_zero p) (Anyhow ''circuit_breaker.max_pending_requests must be > 0'')) (\<lambda>p.
            Inr (Breaker_Enabled c p)))))))"

definition to_runtime_health :: "codec_env \<Rightarrow> HealthCheckDto option \<Rightarrow> conv_error + ActiveHealthCheck" where
  "to_runtime_health env h =
     (case h of
        None \<Rightarrow> Inr Health_Disabled
      | Some hc \<Rightarrow>
          and_then (fail_if (hd_healthy_threshold hc \<noteq> 1 \<or> hd_unhealthy_threshold hc \<noteq> 1)
              (Anyhow ''health_check thresholds are not supported (must be 1)'')) (\<lambda>_.
          and_then (fail_if (blank env (hd_path hc)) (Anyhow ''health_check.path cannot be empty'')) (\<lambda>_.
          and_then (duration_to_required (hd_interval hc) ''health_check.interval'') (\<lambda>interval.
          and_then (case hd_timeout hc of
              Some t \<Rightarrow> duration_to_required t ''health_check.timeout'' | None \<Rightarrow> Inr interval) (\<lambda>timeout.
          and_then (fail_if (timeout > interval) (Anyhow ''health_check.timeout must be <= health_check.interval'')) (\<lambda>_.
            Inr (Health_Enabled (hd_path hc) interval timeout)))))))"

definition to_runtime_upstream :: "codec_env \<Rightarrow> nat \<Rightarrow> UpstreamDto \<Rightarrow> conv_error + Upstream" where
  "to_runtime_upstream env index u =
     (let discovery = unwrap_or (ud_discovery u) Discovery_Static;
          balancer = unwrap_or (ud_balancer u) Random;
          protocol = unwrap_or (ud_protocol u) H1;
          pool_config = unwrap_or (ud_pool u) default_pool_config in
      and_then (try_map (to_runtime_endpoint discovery) (ud_endpoints u)) (\<lambda>endpoints.
      and_then (to_runtime_pool pool_config index) (\<lambda>pool.
      and_then (to_runtime_tls env (ud_tls u)) (\<lambda>tls.
      and_then (to_runtime_id (ud_id u) index) (\<lambda>i.
      and_then (to_runtime_outlier (ud_outlier_detection u)) (\<lambda>outlier.
      and_then (to_runtime_breaker (ud_circuit_breaker u)) (\<lambda>breaker.
      and_then (to_runtime_health env (ud_health_check u)) (\<lambda>health.
        map_err (\<lambda>_. Anyhow ''upstream builder'')
          (upstream_build (fold upstream_builder_call
            ([Upstream_id i, Upstream_name (ud_name u), Upstream_discovery discovery, Upstream_balancer balancer,
              Upstream_protocol protocol, Upstream_pool pool, Upstream_outlier_detection outlier, Upstream_circuit_breaker breaker,
              Upstream_health_check health, Upstream_tls tls] @ map Upstream_add_endpoint endpoints) upstream_builder_new))))))))))"

definition upstreams_to_runtime :: "codec_env \<Rightarrow> UpstreamDto list \<Rightarrow> conv_error + Upstream list" where
  "upstreams_to_runtime env us = try_map (\<lambda>(i, u). to_runtime_upstream env i u) (List.enumerate 0 us)"

section \<open>From the runtime (dto\_adapter.rs)\<close>

definition idle_timeout_ms :: "IdleTimeout \<Rightarrow> nat" where
  "idle_timeout_ms t = (case t of IdleTimeout_Disabled \<Rightarrow> 0 | IdleTimeout_Enabled d \<Rightarrow> unat d)"

definition connect_timeout_ms :: "ConnectTimeout \<Rightarrow> nat" where
  "connect_timeout_ms t = (case t of ConnectTimeout_Disabled \<Rightarrow> 0 | ConnectTimeout_Enabled d \<Rightarrow> unat d)"

definition from_runtime_endpoint :: "Endpoint \<Rightarrow> EndpointDto" where
  "from_runtime_endpoint e =
     (case ep_address e of
        Endpoint_Ip ip port \<Rightarrow> \<lparr>ed_address = ip_display ip, ed_port = port, ed_weight = Some (ucast (ep_weight e))\<rparr>
      | Endpoint_Dns host port \<Rightarrow> \<lparr>ed_address = host, ed_port = port, ed_weight = Some (ucast (ep_weight e))\<rparr>)"

definition from_runtime_pool :: "Pool \<Rightarrow> ConnectionPoolConfig" where
  "from_runtime_pool p =
     \<lparr>cp_idle = Some (from_millis (idle_timeout_ms (pool_idle p))),
      cp_connect = Some (from_millis (connect_timeout_ms (pool_connect p))),
      cp_max = Some (uint (pool_max p)), cp_queue_capacity = Some (uint (pq_capacity (pool_queue p))),
      cp_queue_timeout_ms = Some (uint (pq_timeout_ms (pool_queue p))),
      cp_tcp_keepalive = map_option (\<lambda>d. from_millis (unat d)) (pool_tcp_keepalive p),
      cp_tcp_nodelay = pool_tcp_nodelay p, cp_recv_buffer_size = pool_recv_buffer_size p\<rparr>"

definition from_runtime_cert :: "ClientCert \<Rightarrow> ClientCertConfig option" where
  "from_runtime_cert c =
     (case c of
        ClientCert_Disabled \<Rightarrow> None
      | ClientCert_Enabled cert key chain \<Rightarrow> Some
          \<lparr>cc_cert_path = cert, cc_key_path = key,
           cc_chain_path = (case chain of Chain_File p \<Rightarrow> Some p | _ \<Rightarrow> None),
           cc_chain_mode = Some (case chain of Chain_None \<Rightarrow> Mode_None | Chain_Embedded \<Rightarrow> Mode_Embedded | Chain_File _ \<Rightarrow> Mode_File)\<rparr>)"

definition from_runtime_tls :: "TlsPolicy \<Rightarrow> UpstreamTlsConfig option" where
  "from_runtime_tls p =
     (case p of
        TlsPolicy_Disabled \<Rightarrow> None
      | TlsPolicy_Enabled t \<Rightarrow> Some
          \<lparr>ut_enabled = Some True, ut_verify_hostname = Some (tls_verify t = Verify_Full),
           ut_verify_cert = Some (tls_verify t \<noteq> Verify_Disabled),
           ut_sni = (case tls_sni t of Sni_Name n \<Rightarrow> Some n | _ \<Rightarrow> None),
           ut_sni_mode = Some (case tls_sni t of Sni_Auto \<Rightarrow> SniMode_Auto | Sni_Name _ \<Rightarrow> SniMode_Name | Sni_Disabled \<Rightarrow> SniMode_Disabled),
           ut_canonical_sni = (case tls_canonical_sni t of CanonicalSni_Disabled \<Rightarrow> None | CanonicalSni_Enabled n \<Rightarrow> Some n),
           ut_reuse_across_sni = (case tls_reuse_across_sni t of Reuse_Enabled \<Rightarrow> Some True | Reuse_Disabled \<Rightarrow> None),
           ut_ca_bundle_path = (case tls_ca t of Ca_System \<Rightarrow> None | Ca_File p \<Rightarrow> Some p),
           ut_cert = from_runtime_cert (tls_cert t)\<rparr>)"

definition from_runtime_breaker :: "CircuitBreakerPolicy \<Rightarrow> CircuitBreakerDto option" where
  "from_runtime_breaker b =
     (case b of
        Breaker_Disabled \<Rightarrow> None
      | Breaker_Enabled c p \<Rightarrow> Some \<lparr>cbd_max_connections = ucast c, cbd_max_pending_requests = ucast p, cbd_max_retries = None\<rparr>)"

definition from_runtime_outlier :: "OutlierDetectionPolicy \<Rightarrow> OutlierDetectionDto option" where
  "from_runtime_outlier od =
     (case od of
        Outlier_Disabled \<Rightarrow> None
      | Outlier_Enabled errors d \<Rightarrow> Some \<lparr>od_consecutive_errors = ucast errors, od_eject_duration = from_millis (unat d)\<rparr>)"

definition from_runtime_health :: "ActiveHealthCheck \<Rightarrow> HealthCheckDto option" where
  "from_runtime_health h =
     (case h of
        Health_Disabled \<Rightarrow> None
      | Health_Enabled p interval timeout \<Rightarrow> Some \<lparr>hd_path = p, hd_interval = from_millis (unat interval),
          hd_timeout = Some (from_millis (unat timeout)), hd_healthy_threshold = 1, hd_unhealthy_threshold = 1\<rparr>)"

definition from_runtime_upstream :: "Upstream \<Rightarrow> UpstreamDto" where
  "from_runtime_upstream u =
     \<lparr>ud_id = Some (u_id u), ud_name = u_name u, ud_discovery = Some (u_discovery u), ud_balancer = Some (u_balancer u),
      ud_protocol = Some (u_protocol u), ud_pool = Some (from_runtime_pool (u_pool u)), ud_tls = from_runtime_tls (u_tls u),
      ud_circuit_breaker = from_runtime_breaker (u_circuit_breaker u),
      ud_outlier_detection = from_runtime_outlier (u_outlier_detection u),
      ud_health_check = from_runtime_health (u_health_check u), ud_endpoints = map from_runtime_endpoint (u_endpoints u)\<rparr>"

definition upstreams_from_runtime :: "Upstream list \<Rightarrow> UpstreamDto list" where
  "upstreams_from_runtime us = map from_runtime_upstream us"


section \<open>What survives a document\<close>

definition endpoint_codable :: "Discovery \<Rightarrow> Endpoint \<Rightarrow> bool" where
  "endpoint_codable discovery e \<longleftrightarrow> ep_weight e \<noteq> 0 \<and> (case ep_address e of
       Endpoint_Ip ip port \<Rightarrow> port \<noteq> 0 \<and> discovery = Discovery_Static
     | Endpoint_Dns host port \<Rightarrow> port \<noteq> 0 \<and> discovery \<noteq> Discovery_Static)"

definition pool_codable :: "Pool \<Rightarrow> bool" where
  "pool_codable p \<longleftrightarrow> pool_idle p \<noteq> IdleTimeout_Enabled 0 \<and> pool_connect p \<noteq> ConnectTimeout_Enabled 0 \<and> pool_max p \<noteq> 0
     \<and> pool_tcp_keepalive p \<noteq> Some 0"

definition cert_codable :: "codec_env \<Rightarrow> ClientCert \<Rightarrow> bool" where
  "cert_codable env c \<longleftrightarrow> (\<forall>cert key chain. c = ClientCert_Enabled cert key chain \<longrightarrow>
     \<not> blank env cert \<and> \<not> blank env key \<and> (\<forall>p. chain = Chain_File p \<longrightarrow> \<not> blank env p))"

definition tls_codable :: "codec_env \<Rightarrow> TlsPolicy \<Rightarrow> bool" where
  "tls_codable env p \<longleftrightarrow> (\<forall>t. p = TlsPolicy_Enabled t \<longrightarrow>
     \<not> (tls_verify t = Verify_Full \<and> tls_sni t = Sni_Disabled)
     \<and> \<not> (tls_reuse_across_sni t = Reuse_Enabled \<and> tls_verify t = Verify_Disabled)
     \<and> (\<forall>n. tls_canonical_sni t = CanonicalSni_Enabled n \<longrightarrow> \<not> blank env n)
     \<and> (\<forall>f. tls_ca t = Ca_File f \<longrightarrow> \<not> blank env f) \<and> cert_codable env (tls_cert t))"

definition health_codable :: "codec_env \<Rightarrow> ActiveHealthCheck \<Rightarrow> bool" where
  "health_codable env h \<longleftrightarrow> (\<forall>p interval timeout. h = Health_Enabled p interval timeout \<longrightarrow>
     \<not> blank env p \<and> interval \<noteq> 0 \<and> timeout \<noteq> 0 \<and> timeout \<le> interval)"

definition upstream_codable :: "codec_env \<Rightarrow> Upstream \<Rightarrow> bool" where
  "upstream_codable env u \<longleftrightarrow> (\<forall>e\<in>set (u_endpoints u). endpoint_codable (u_discovery u) e) \<and> pool_codable (u_pool u)
     \<and> tls_codable env (u_tls u) \<and> u_id u \<noteq> 0
     \<and> (\<forall>e d. u_outlier_detection u = Outlier_Enabled e d \<longrightarrow> e \<noteq> 0 \<and> d \<noteq> 0)
     \<and> (\<forall>c p. u_circuit_breaker u = Breaker_Enabled c p \<longrightarrow> c \<noteq> 0 \<and> p \<noteq> 0) \<and> health_codable env (u_health_check u)"

lemma unat_ucast_wider:
  "LENGTH('a::len) \<le> LENGTH('b::len) \<Longrightarrow> unat (ucast (w :: 'a word) :: 'b word) = unat w"
  by (simp add: unsigned_ucast_eq take_bit_nat_eq_self_iff)
    (metis power_increasing_iff one_less_numeral_iff order_less_le_trans semiring_norm(76) unat_less_exp)

lemma u32_of_uint [simp]: "u32_of_int (uint w) = Some w"
  by (simp add: u32_of_int_def try_into_eq_Some)

lemmas conv_simps = and_then_eq_Inr ok_or_eq_Inr fail_if_eq_Inr non_zero_eq_Some try_into_eq_Some as_millis_from_millis
  unwrap_or_def

lemma endpoint_roundtrip:
  "to_runtime_endpoint d (from_runtime_endpoint e) = Inr e \<longleftrightarrow> endpoint_codable d e"
proof -
  have w: "unat (ucast (ep_weight e) :: u32) = unat (ep_weight e)" by (rule unat_ucast_wider) simp
  have "\<lparr>ep_address = a, ep_weight = v\<rparr> = e \<longleftrightarrow> a = ep_address e \<and> v = ep_weight e" for a v
    by (cases e) auto
  with w show ?thesis
    by (cases d; cases "ep_address e")
      (auto simp: to_runtime_endpoint_def from_runtime_endpoint_def endpoint_codable_def conv_simps parse_ip_display)
qed

lemma idle_roundtrip:
  "duration_to_policy (from_millis (idle_timeout_ms t)) = Inr t \<longleftrightarrow> t \<noteq> IdleTimeout_Enabled 0"
  by (cases t) (auto simp: duration_to_policy_def idle_timeout_ms_def and_then_eq_Inr ok_or_eq_Inr as_millis_from_millis try_into_eq_Some
      non_zero_def)

lemma connect_roundtrip:
  "duration_to_connect (from_millis (connect_timeout_ms t)) = Inr t \<longleftrightarrow> t \<noteq> ConnectTimeout_Enabled 0"
  by (cases t) (auto simp: duration_to_connect_def connect_timeout_ms_def and_then_eq_Inr ok_or_eq_Inr as_millis_from_millis try_into_eq_Some
      non_zero_def)

lemma pool_max_roundtrip: "materialize_pool_max (Some (uint w)) i = Inr w \<longleftrightarrow> w \<noteq> 0"
proof -
  have "w \<noteq> 0 \<longleftrightarrow> 1 \<le> uint w" by (metis uint_0_iff uint_ge_0 order_le_less int_one_le_iff_zero_less not_one_le_zero)
  then show ?thesis by (auto simp: materialize_pool_max_def conv_simps)
qed

lemma queue_roundtrip: "materialize_queue_value (Some (uint w)) d f i = Inr w"
  by (simp add: materialize_queue_value_def conv_simps)

lemma keepalive_roundtrip:
  "(case map_option (\<lambda>d. from_millis (unat d)) k of
      Some d \<Rightarrow> and_then (duration_to_tcp_keepalive d i) (\<lambda>k. Inr (Some k)) | None \<Rightarrow> Inr None) = Inr k \<longleftrightarrow> k \<noteq> Some 0"
  by (cases k) (auto simp: duration_to_tcp_keepalive_def conv_simps)

lemma pool_roundtrip: "to_runtime_pool (from_runtime_pool p) i = Inr p \<longleftrightarrow> pool_codable p"
proof -
  have recv: "(case b of Some n \<Rightarrow> and_then (validate_recv_buffer_size n) (\<lambda>n. Inr (Some n)) | None \<Rightarrow> Inr None) = Inr b" for b
    by (cases b) (simp_all add: validate_recv_buffer_size_def)
  have "\<lparr>pool_idle = a, pool_connect = b, pool_max = c, pool_queue = \<lparr>pq_capacity = pq_capacity (pool_queue p),
      pq_timeout_ms = pq_timeout_ms (pool_queue p)\<rparr>, pool_tcp_keepalive = d, pool_tcp_nodelay = pool_tcp_nodelay p,
      pool_recv_buffer_size = pool_recv_buffer_size p\<rparr> = p
      \<longleftrightarrow> a = pool_idle p \<and> b = pool_connect p \<and> c = pool_max p \<and> d = pool_tcp_keepalive p" for a b c d
    by (cases p; cases "pool_queue p") auto
  then have "to_runtime_pool (from_runtime_pool p) i = Inr p \<longleftrightarrow>
      duration_to_policy (from_millis (idle_timeout_ms (pool_idle p))) = Inr (pool_idle p)
      \<and> duration_to_connect (from_millis (connect_timeout_ms (pool_connect p))) = Inr (pool_connect p)
      \<and> materialize_pool_max (Some (uint (pool_max p))) i = Inr (pool_max p)
      \<and> (case map_option (\<lambda>d. from_millis (unat d)) (pool_tcp_keepalive p) of
          Some d \<Rightarrow> and_then (duration_to_tcp_keepalive d i) (\<lambda>k. Inr (Some k)) | None \<Rightarrow> Inr None) = Inr (pool_tcp_keepalive p)"
    by (auto simp: to_runtime_pool_def from_runtime_pool_def unwrap_or_def queue_roundtrip recv and_then_eq_Inr)
  then show ?thesis
    by (simp only: idle_roundtrip connect_roundtrip pool_max_roundtrip keepalive_roundtrip pool_codable_def)
qed

lemma cert_roundtrip: "to_runtime_cert env (from_runtime_cert c) = Inr c \<longleftrightarrow> cert_codable env c"
proof (cases c)
  case (ClientCert_Enabled cert key chain)
  then show ?thesis
    by (cases chain) (auto simp: to_runtime_cert_def from_runtime_cert_def cert_codable_def to_runtime_chain_def chain_file_def conv_simps)
qed (simp add: to_runtime_cert_def from_runtime_cert_def cert_codable_def)

lemma verify_roundtrip: "to_runtime_verify (v \<noteq> Verify_Disabled) (v = Verify_Full) = v"
  by (cases v) (simp_all add: to_runtime_verify_def)

lemma sni_roundtrip:
  "to_runtime_sni (Some (case s of Sni_Auto \<Rightarrow> SniMode_Auto | Sni_Name _ \<Rightarrow> SniMode_Name | Sni_Disabled \<Rightarrow> SniMode_Disabled))
     (case s of Sni_Name n \<Rightarrow> Some n | _ \<Rightarrow> None) = Inr s"
  by (cases s) (simp_all add: to_runtime_sni_def)

lemma tls_roundtrip: "to_runtime_tls env (from_runtime_tls p) = Inr p \<longleftrightarrow> tls_codable env p"
proof (cases p)
  case (TlsPolicy_Enabled t)
  have reuse: "(if unwrap_or (case r of Reuse_Enabled \<Rightarrow> Some True | Reuse_Disabled \<Rightarrow> None) False then Reuse_Enabled else Reuse_Disabled) = r"
    for r by (cases r) (simp_all add: unwrap_or_def)
  have canonical: "(case (case c of CanonicalSni_Disabled \<Rightarrow> None | CanonicalSni_Enabled n \<Rightarrow> Some n) of
      Some n \<Rightarrow> if blank env n then Inl (Anyhow e) else Inr (CanonicalSni_Enabled n) | None \<Rightarrow> Inr CanonicalSni_Disabled) = Inr c
      \<longleftrightarrow> (\<forall>n. c = CanonicalSni_Enabled n \<longrightarrow> \<not> blank env n)" for c e by (cases c) auto
  have ca: "(case (case c of Ca_System \<Rightarrow> None | Ca_File n \<Rightarrow> Some n) of
      Some n \<Rightarrow> if blank env n then Inl (Anyhow e) else Inr (Ca_File n) | None \<Rightarrow> Inr Ca_System) = Inr c
      \<longleftrightarrow> (\<forall>n. c = Ca_File n \<longrightarrow> \<not> blank env n)" for c e by (cases c) auto
  have "\<lparr>tls_verify = tls_verify t, tls_sni = tls_sni t, tls_canonical_sni = a, tls_reuse_across_sni = tls_reuse_across_sni t,
      tls_cert = b, tls_ca = c\<rparr> = t \<longleftrightarrow> a = tls_canonical_sni t \<and> b = tls_cert t \<and> c = tls_ca t" for a b c
    by (cases t) auto
  then show ?thesis
    unfolding TlsPolicy_Enabled tls_codable_def cert_roundtrip [symmetric] canonical [where e = "''canonical_sni cannot be empty''", symmetric]
      ca [where e = "''ca_bundle_path cannot be empty''", symmetric]
    by (auto simp: to_runtime_tls_def from_runtime_tls_def Let_def verify_roundtrip sni_roundtrip reuse unwrap_or_def [of "Some _"]
        and_then_eq_Inr fail_if_eq_Inr)
qed (simp add: to_runtime_tls_def from_runtime_tls_def tls_codable_def)

lemma required_roundtrip: "duration_to_required (from_millis (unat d)) c = Inr d' \<longleftrightarrow> d' = d \<and> d \<noteq> 0"
  by (auto simp: duration_to_required_def conv_simps)

lemma outlier_roundtrip:
  "to_runtime_outlier (from_runtime_outlier od) = Inr od \<longleftrightarrow> (\<forall>e d. od = Outlier_Enabled e d \<longrightarrow> e \<noteq> 0 \<and> d \<noteq> 0)"
  by (cases od) (auto simp: to_runtime_outlier_def from_runtime_outlier_def conv_simps unat_ucast_wider required_roundtrip)

lemma breaker_roundtrip:
  "to_runtime_breaker (from_runtime_breaker b) = Inr b \<longleftrightarrow> (\<forall>c p. b = Breaker_Enabled c p \<longrightarrow> c \<noteq> 0 \<and> p \<noteq> 0)"
  by (cases b) (auto simp: to_runtime_breaker_def from_runtime_breaker_def conv_simps unat_ucast_wider)

lemma health_roundtrip: "to_runtime_health env (from_runtime_health h) = Inr h \<longleftrightarrow> health_codable env h"
  by (cases h) (auto simp: to_runtime_health_def from_runtime_health_def health_codable_def conv_simps required_roundtrip)

text \<open>The builder returns what it is given.\<close>

lemma upstream_builder_endpoints:
  "fold upstream_builder_call (map Upstream_add_endpoint es) b = b\<lparr>ub_endpoints := ub_endpoints b @ es\<rparr>"
  by (induction es arbitrary: b) simp_all

lemma upstream_built:
  "upstream_build (fold upstream_builder_call
     ([Upstream_id i, Upstream_name n, Upstream_discovery d, Upstream_balancer b, Upstream_protocol v, Upstream_pool p,
       Upstream_outlier_detection od, Upstream_circuit_breaker c, Upstream_health_check h, Upstream_tls t]
       @ map Upstream_add_endpoint es) upstream_builder_new)
   = Inr \<lparr>u_id = i, u_name = n, u_discovery = d, u_balancer = b, u_protocol = v, u_pool = p, u_outlier_detection = od,
       u_circuit_breaker = c, u_health_check = h, u_tls = t, u_endpoints = es\<rparr>"
  by (simp add: upstream_builder_endpoints upstream_builder_new_def upstream_build_def)

lemma upstream_roundtrip:
  "to_runtime_upstream env i (from_runtime_upstream u) = Inr u \<longleftrightarrow> upstream_codable env u"
proof -
  have "\<lparr>u_id = a, u_name = u_name u, u_discovery = u_discovery u, u_balancer = u_balancer u, u_protocol = u_protocol u, u_pool = p,
      u_outlier_detection = od, u_circuit_breaker = c, u_health_check = h, u_tls = t, u_endpoints = es\<rparr> = u
      \<longleftrightarrow> a = u_id u \<and> p = u_pool u \<and> od = u_outlier_detection u \<and> c = u_circuit_breaker u \<and> h = u_health_check u \<and> t = u_tls u
        \<and> es = u_endpoints u" for a p od c h t es
    by (cases u) auto
  then have "to_runtime_upstream env i (from_runtime_upstream u) = Inr u \<longleftrightarrow>
      try_map (to_runtime_endpoint (u_discovery u)) (map from_runtime_endpoint (u_endpoints u)) = Inr (u_endpoints u)
      \<and> to_runtime_pool (from_runtime_pool (u_pool u)) i = Inr (u_pool u) \<and> to_runtime_tls env (from_runtime_tls (u_tls u)) = Inr (u_tls u)
      \<and> u_id u \<noteq> 0 \<and> to_runtime_outlier (from_runtime_outlier (u_outlier_detection u)) = Inr (u_outlier_detection u)
      \<and> to_runtime_breaker (from_runtime_breaker (u_circuit_breaker u)) = Inr (u_circuit_breaker u)
      \<and> to_runtime_health env (from_runtime_health (u_health_check u)) = Inr (u_health_check u)"
    unfolding to_runtime_upstream_def from_runtime_upstream_def upstream_built Let_def
    by (auto simp: unwrap_or_def and_then_eq_Inr to_runtime_id_def ok_or_eq_Inr non_zero_eq_Some)
  then show ?thesis
    unfolding try_map_roundtrip endpoint_roundtrip pool_roundtrip tls_roundtrip outlier_roundtrip breaker_roundtrip health_roundtrip
      upstream_codable_def by blast
qed

lemma upstreams_roundtrip:
  "upstreams_to_runtime env (upstreams_from_runtime us) = Inr us \<longleftrightarrow> (\<forall>u\<in>set us. upstream_codable env u)"
  unfolding upstreams_to_runtime_def upstreams_from_runtime_def
  by (rule try_map_enumerate_roundtrip) (rule upstream_roundtrip)


section \<open>What a document yields survives\<close>

lemma endpoint_yields_codable: "to_runtime_endpoint d e = Inr r \<Longrightarrow> endpoint_codable d r"
  by (cases d) (auto simp: to_runtime_endpoint_def endpoint_codable_def and_then_eq_Inr ok_or_eq_Inr non_zero_eq_Some)

lemma pool_yields_codable:
  assumes "to_runtime_pool c i = Inr p"
  shows "pool_codable p"
proof -
  have idle: "t \<noteq> IdleTimeout_Enabled 0" if "duration_to_policy d = Inr t" for d t
    using that by (auto simp: duration_to_policy_def and_then_eq_Inr non_zero_def split: if_splits)
  have connect: "t \<noteq> ConnectTimeout_Enabled 0" if "duration_to_connect d = Inr t" for d t
    using that by (auto simp: duration_to_connect_def and_then_eq_Inr non_zero_def split: if_splits)
  have mx: "w \<noteq> 0" if "materialize_pool_max m i = Inr w" for m w
    using that by (auto simp: materialize_pool_max_def conv_simps DEFAULT_POOL_MAX_def split: option.splits)
  have keep: "k \<noteq> Some 0" if "(case q of Some d \<Rightarrow> and_then (duration_to_tcp_keepalive d i) (\<lambda>k. Inr (Some k)) | None \<Rightarrow> Inr None) = Inr k"
    for q k using that by (cases q) (auto simp: duration_to_tcp_keepalive_def and_then_eq_Inr ok_or_eq_Inr non_zero_eq_Some)
  from assms obtain a b w k where "duration_to_policy (unwrap_or (cp_idle c) default_idle_timeout) = Inr a"
    "duration_to_connect (unwrap_or (cp_connect c) default_connection_timeout) = Inr b" "materialize_pool_max (cp_max c) i = Inr w"
    "(case cp_tcp_keepalive c of Some d \<Rightarrow> and_then (duration_to_tcp_keepalive d i) (\<lambda>k. Inr (Some k)) | None \<Rightarrow> Inr None) = Inr k"
    "pool_idle p = a" "pool_connect p = b" "pool_max p = w" "pool_tcp_keepalive p = k"
    unfolding to_runtime_pool_def and_then_eq_Inr sum.inject by auto
  with idle connect mx keep show ?thesis unfolding pool_codable_def by blast
qed

lemma cert_yields_codable:
  assumes "to_runtime_cert env d = Inr c"
  shows "cert_codable env c"
proof -
  have "\<not> blank env p" if "to_runtime_chain env m q = Inr (Chain_File p)" for m q p
    using that by (cases m; cases q) (auto simp: to_runtime_chain_def chain_file_def split: ClientCertChainMode.splits if_splits)
  with assms show ?thesis
    by (auto simp: to_runtime_cert_def cert_codable_def and_then_eq_Inr fail_if_eq_Inr split: option.splits)
qed

lemma tls_yields_codable:
  assumes "to_runtime_tls env d = Inr p"
  shows "tls_codable env p"
proof (cases p)
  case (TlsPolicy_Enabled s)
  with assms obtain t where d: "d = Some t" by (cases d) (auto simp: to_runtime_tls_def)
  have c1: "\<not> blank env n" if "(case q of Some n \<Rightarrow> if blank env n then Inl e else Inr (CanonicalSni_Enabled n) | None \<Rightarrow> Inr CanonicalSni_Disabled)
      = Inr (CanonicalSni_Enabled n)" for q e n using that by (auto split: option.splits if_splits)
  have c2: "\<not> blank env n" if "(case q of Some n \<Rightarrow> if blank env n then Inl e else Inr (Ca_File n) | None \<Rightarrow> Inr Ca_System) = Inr (Ca_File n)"
    for q e n using that by (auto split: option.splits if_splits)
  have "unwrap_or (ut_enabled t) True" using assms TlsPolicy_Enabled by (auto simp: d to_runtime_tls_def split: if_splits)
  from assms this have "(case ut_canonical_sni t of Some n \<Rightarrow> if blank env n then Inl (Anyhow ''canonical_sni cannot be empty'')
        else Inr (CanonicalSni_Enabled n) | None \<Rightarrow> Inr CanonicalSni_Disabled) = Inr (tls_canonical_sni s)
    \<and> (case ut_ca_bundle_path t of Some n \<Rightarrow> if blank env n then Inl (Anyhow ''ca_bundle_path cannot be empty'')
        else Inr (Ca_File n) | None \<Rightarrow> Inr Ca_System) = Inr (tls_ca s)
    \<and> to_runtime_cert env (ut_cert t) = Inr (tls_cert s)
    \<and> \<not> (tls_verify s = Verify_Full \<and> tls_sni s = Sni_Disabled)
    \<and> \<not> (tls_reuse_across_sni s = Reuse_Enabled \<and> tls_verify s = Verify_Disabled)"
    unfolding d TlsPolicy_Enabled
    by (simp only: to_runtime_tls_def option.case simp_thms if_False Let_def and_then_eq_Inr fail_if_eq_Inr sum.inject
        TlsPolicy.inject) (elim exE conjE, hypsubst, simp)
  then show ?thesis
    unfolding TlsPolicy_Enabled tls_codable_def TlsPolicy.inject
    by (auto dest: c1 c2 intro: cert_yields_codable)
qed (simp add: tls_codable_def)

lemma required_yields: "duration_to_required d c = Inr r \<Longrightarrow> r \<noteq> 0"
  by (auto simp: duration_to_required_def and_then_eq_Inr ok_or_eq_Inr non_zero_eq_Some)

lemma health_yields:
  assumes "to_runtime_health env d = Inr h"
  shows "health_codable env h \<and> (\<forall>p i t. h = Health_Enabled p i t \<longrightarrow> (\<exists>hc. d = Some hc \<and> hd_path hc = p))"
  using assms by (auto simp: to_runtime_health_def health_codable_def and_then_eq_Inr fail_if_eq_Inr not_less
      dest: required_yields split: option.splits)

lemma upstream_yields_codable:
  assumes "to_runtime_upstream env i d = Inr u"
  shows "upstream_codable env u \<and> (\<forall>p j t. u_health_check u = Health_Enabled p j t \<longrightarrow> (\<exists>hc. ud_health_check d = Some hc \<and> hd_path hc = p))"
proof -
  from assms have parts:
    "try_map (to_runtime_endpoint (u_discovery u)) (ud_endpoints d) = Inr (u_endpoints u)"
    "to_runtime_pool (unwrap_or (ud_pool d) default_pool_config) i = Inr (u_pool u)"
    "to_runtime_tls env (ud_tls d) = Inr (u_tls u)" "to_runtime_id (ud_id d) i = Inr (u_id u)"
    "to_runtime_outlier (ud_outlier_detection d) = Inr (u_outlier_detection u)"
    "to_runtime_breaker (ud_circuit_breaker d) = Inr (u_circuit_breaker u)"
    "to_runtime_health env (ud_health_check d) = Inr (u_health_check u)"
    unfolding to_runtime_upstream_def Let_def upstream_built and_then_eq_Inr map_err_eq_Inr sum.inject by auto
  have "\<forall>e\<in>set (u_endpoints u). endpoint_codable (u_discovery u) e"
    using try_map_elem [OF parts(1)] endpoint_yields_codable by blast
  moreover have "u_id u \<noteq> 0"
    using parts(4) by (auto simp: to_runtime_id_def ok_or_eq_Inr non_zero_eq_Some split: option.splits)
  moreover have "\<forall>e d. u_outlier_detection u = Outlier_Enabled e d \<longrightarrow> e \<noteq> 0 \<and> d \<noteq> 0"
    using parts(5) by (auto simp: to_runtime_outlier_def and_then_eq_Inr ok_or_eq_Inr non_zero_eq_Some dest: required_yields split: option.splits)
  moreover have "\<forall>c p. u_circuit_breaker u = Breaker_Enabled c p \<longrightarrow> c \<noteq> 0 \<and> p \<noteq> 0"
    using parts(6) by (auto simp: to_runtime_breaker_def and_then_eq_Inr ok_or_eq_Inr non_zero_eq_Some split: option.splits)
  ultimately show ?thesis
    using pool_yields_codable [OF parts(2)] tls_yields_codable [OF parts(3)] health_yields [OF parts(7)]
    unfolding upstream_codable_def by blast
qed

end
