(* ===== verification/Serde_Config.thy ===== *)
theory Serde_Config
  imports Serde_Routes Serde_Upstreams Relay_Pipeline
begin

text \<open>
  The serde codec as a whole: the conversion of listeners, telemetry, shutdown, admin and features
  (crates/pavis-codec-serde/src/config/convert/server.rs, telemetry.rs, admin.rs), of a whole document
  (config/convert.rs), the checks of a document (config/validation.rs) and the codec itself (lib.rs). Parsing the text of a
  document is a parameter of the codec.
\<close>

section \<open>Listeners (convert/server.rs)\<close>

definition to_runtime_client_auth :: "ClientAuthConfig option \<Rightarrow> ClientAuth" where
  "to_runtime_client_auth a =
     (case a of
        None \<Rightarrow> ClientAuth_Disabled
      | Some CAC_Disabled \<Rightarrow> ClientAuth_Disabled
      | Some (CAC_Optional p) \<Rightarrow> ClientAuth_Optional p
      | Some (CAC_Required p) \<Rightarrow> ClientAuth_Required p)"

definition listener_to_runtime :: "ListenerDto \<Rightarrow> conv_error + Listener" where
  "listener_to_runtime l =
     and_then (ok_or (parse_socket (ld_address l)) (Anyhow ''Invalid address'')) (\<lambda>address.
     and_then (case ld_workers l of
         Some n \<Rightarrow> and_then (ok_or (non_zero n) (Anyhow ''workers must be > 0'')) (\<lambda>n. Inr (Workers_Count n))
       | None \<Rightarrow> Inr Workers_Auto) (\<lambda>workers.
     and_then (case ld_tls l of
         None \<Rightarrow> Inr TlsConfig_Disabled
       | Some tls \<Rightarrow>
           and_then (ok_or (td_cert_path tls) (Anyhow ''tls.cert_path is required when tls is set'')) (\<lambda>cert.
           and_then (ok_or (td_key_path tls) (Anyhow ''tls.key_path is required when tls is set'')) (\<lambda>key.
             Inr (TlsConfig_Enabled cert key (to_runtime_client_auth (td_client_auth tls)))))) (\<lambda>tls.
       map_err (\<lambda>_. Anyhow ''listener builder'')
         (listener_build (fold listener_builder_call
           [Listener_name (ld_name l), Listener_address address, Listener_workers workers, Listener_tls tls] listener_builder_new)))))"

definition listener_from_runtime :: "Listener \<Rightarrow> ListenerDto" where
  "listener_from_runtime l =
     \<lparr>ld_name = l_name l, ld_address = socket_display (l_address l),
      ld_workers = (case l_workers l of Workers_Auto \<Rightarrow> None | Workers_Count n \<Rightarrow> Some n),
      ld_tls = (case l_tls l of
          TlsConfig_Disabled \<Rightarrow> None
        | TlsConfig_Enabled cert key client \<Rightarrow> Some \<lparr>td_cert_path = Some cert, td_key_path = Some key,
            td_client_auth = (case client of ClientAuth_Disabled \<Rightarrow> None | ClientAuth_Optional p \<Rightarrow> Some (CAC_Optional p)
              | ClientAuth_Required p \<Rightarrow> Some (CAC_Required p))\<rparr>)\<rparr>"

section \<open>Telemetry (convert/telemetry.rs)\<close>

definition parse_log_level :: "codec_env \<Rightarrow> string option \<Rightarrow> LogLevel option" where
  "parse_log_level env level =
     Option.bind level (\<lambda>l. let t = to_lowercase env l in
       if t = ''error'' then Some Log_Error else if t = ''warn'' then Some Log_Warn else if t = ''info'' then Some Log_Info
       else if t = ''debug'' then Some Log_Debug else if t = ''trace'' then Some Log_Trace else None)"

fun log_level_to_string :: "LogLevel \<Rightarrow> string option" where
  "log_level_to_string Log_Error = Some ''error''"
| "log_level_to_string Log_Warn = Some ''warn''"
| "log_level_to_string Log_Info = Some ''info''"
| "log_level_to_string Log_Debug = Some ''debug''"
| "log_level_to_string Log_Trace = Some ''trace''"

definition tracing_provider_of :: "string \<Rightarrow> TracingProvider" where
  "tracing_provider_of p =
     (if p = ''otlp'' then Otlp else if p = ''jaeger'' then Jaeger else if p = ''zipkin'' then Zipkin else Otlp)"

definition telemetry_to_runtime :: "codec_env \<Rightarrow> TelemetryDto \<Rightarrow> conv_error + Telemetry" where
  "telemetry_to_runtime env t =
     (let level = unwrap_or (parse_log_level env (tm_level t)) Log_Info;
          pingora = unwrap_or (parse_log_level env (tm_pingora t)) Log_Info;
          service_name = unwrap_or (tm_service_name t) ''pavis'' in
      and_then (case tm_metrics t of
          None \<Rightarrow> Inr Metrics_Disabled
        | Some addr \<Rightarrow> and_then (ok_or (parse_socket addr) (Anyhow ''metrics must be a socket address (host:port)''))
            (\<lambda>a. Inr (Metrics_Enabled a))) (\<lambda>metrics.
        Inr \<lparr>t_level = level, t_pingora = pingora, t_service_name = service_name, t_metrics = metrics,
          t_access_log = unwrap_or (tm_access_log t) AccessLog_Stdout,
          t_tracing = (case tm_tracing t of
              None \<Rightarrow> Tracing_Disabled
            | Some tr \<Rightarrow> Tracing_Enabled (tracing_provider_of (to_lowercase env (unwrap_or (tr_provider tr) ''otlp'')))
                (unwrap_or (tr_sampling tr) 100) (unwrap_or (tr_endpoint tr) ''http://localhost:4317''))\<rparr>))"

fun tracing_provider_name :: "TracingProvider \<Rightarrow> string" where
  "tracing_provider_name Otlp = ''otlp''"
| "tracing_provider_name Jaeger = ''jaeger''"
| "tracing_provider_name Zipkin = ''zipkin''"

definition telemetry_from_runtime :: "Telemetry \<Rightarrow> TelemetryDto" where
  "telemetry_from_runtime t =
     \<lparr>tm_level = log_level_to_string (t_level t), tm_pingora = log_level_to_string (t_pingora t),
      tm_service_name = Some (t_service_name t),
      tm_metrics = (case t_metrics t of Metrics_Disabled \<Rightarrow> None | Metrics_Enabled a \<Rightarrow> Some (socket_display a)),
      tm_access_log = Some (t_access_log t),
      tm_tracing = (case t_tracing t of
          Tracing_Disabled \<Rightarrow> None
        | Tracing_Enabled p s e \<Rightarrow> Some \<lparr>tr_provider = Some (tracing_provider_name p), tr_sampling = Some s, tr_endpoint = Some e\<rparr>)\<rparr>"

section \<open>Shutdown and admin (convert/admin.rs)\<close>

definition DEFAULT_SHUTDOWN_DRAIN_TIMEOUT_MS :: u32 where
  "DEFAULT_SHUTDOWN_DRAIN_TIMEOUT_MS = 30000"

definition DEFAULT_ADMIN_ADDRESS :: string where
  "DEFAULT_ADMIN_ADDRESS = ''127.0.0.1:9901''"

definition shutdown_to_runtime :: "ShutdownDto \<Rightarrow> conv_error + ShutdownPolicy" where
  "shutdown_to_runtime dto =
     (if \<not> unwrap_or (sd_enabled dto) True then Inr Shutdown_Disabled
      else and_then (ok_or (non_zero (unwrap_or (sd_drain_timeout_ms dto) DEFAULT_SHUTDOWN_DRAIN_TIMEOUT_MS))
          (Anyhow ''drain_timeout_ms must be non-zero when shutdown is enabled'')) (\<lambda>ms. Inr (Shutdown_Enabled ms)))"

definition admin_to_runtime :: "AdminDto \<Rightarrow> conv_error + AdminConfig" where
  "admin_to_runtime dto =
     (if \<not> unwrap_or (ad_enabled dto) False then Inr Admin_Disabled
      else and_then (ok_or (parse_socket (unwrap_or (ad_address dto) DEFAULT_ADMIN_ADDRESS)) (Anyhow ''Invalid admin address''))
        (\<lambda>a. Inr (Admin_Enabled a)))"

definition shutdown_from_runtime :: "ShutdownPolicy \<Rightarrow> ShutdownDto" where
  "shutdown_from_runtime p =
     (case p of
        Shutdown_Disabled \<Rightarrow> \<lparr>sd_enabled = Some False, sd_drain_timeout_ms = None\<rparr>
      | Shutdown_Enabled d \<Rightarrow> \<lparr>sd_enabled = Some True, sd_drain_timeout_ms = Some d\<rparr>)"

definition admin_from_runtime :: "AdminConfig \<Rightarrow> AdminDto" where
  "admin_from_runtime c =
     (case c of
        Admin_Disabled \<Rightarrow> \<lparr>ad_enabled = Some False, ad_address = None\<rparr>
      | Admin_Enabled a \<Rightarrow> \<lparr>ad_enabled = Some True, ad_address = Some (socket_display a)\<rparr>)"

section \<open>Whole documents (config/convert.rs)\<close>

definition structural :: "SerdeConfig \<Rightarrow> StructurallyConfig" where
  "structural s =
     \<lparr>st_listeners = unwrap_or (sc_listeners s) [],
      st_telemetry = unwrap_or (sc_telemetry s) \<lparr>tm_level = None, tm_pingora = None, tm_service_name = None, tm_metrics = None,
        tm_access_log = None, tm_tracing = None\<rparr>,
      st_upstreams = unwrap_or (sc_upstreams s) [], st_routes = unwrap_or (sc_routes s) [],
      st_shutdown = unwrap_or (sc_shutdown s) \<lparr>sd_enabled = None, sd_drain_timeout_ms = None\<rparr>,
      st_admin = unwrap_or (sc_admin s) \<lparr>ad_enabled = None, ad_address = None\<rparr>,
      st_features = unwrap_or (sc_features s) \<lparr>fc_advanced_matchers = False,
        fc_regex_limits = \<lparr>rl_pattern_max_bytes = None, rl_size_limit_bytes = None, rl_input_max_bytes = None,
          rl_max_regex_per_route = None, rl_max_regex_per_config = None\<rparr>\<rparr>\<rparr>"

definition features_to_runtime :: "RoutingFeatureConfig \<Rightarrow> RoutingFeatures" where
  "features_to_runtime f =
     (let l = fc_regex_limits f; d = regex_limits_default in
      \<lparr>advanced_matchers = fc_advanced_matchers f,
       regex_limits = \<lparr>pattern_max_bytes = unwrap_or (rl_pattern_max_bytes l) (pattern_max_bytes d),
         size_limit_bytes = unwrap_or (rl_size_limit_bytes l) (size_limit_bytes d),
         input_max_bytes = unwrap_or (rl_input_max_bytes l) (input_max_bytes d),
         max_regex_per_route = unwrap_or (rl_max_regex_per_route l) (max_regex_per_route d),
         max_regex_per_config = unwrap_or (rl_max_regex_per_config l) (max_regex_per_config d)\<rparr>\<rparr>)"

fun plain_match :: "HeaderMatch \<Rightarrow> bool" where
  "plain_match (Match_Exact _) \<longleftrightarrow> True"
| "plain_match _ \<longleftrightarrow> False"

definition advanced_route :: "Route \<Rightarrow> bool" where
  "advanced_route r \<longleftrightarrow>
     (case rm_method (r_matcher r) of Method_List _ \<Rightarrow> True | _ \<Rightarrow> False)
     \<or> (case rm_headers (r_matcher r) of Predicates_Some ps \<Rightarrow> list_ex (\<lambda>p. \<not> plain_match (hp_matcher p)) ps | Predicates_None \<Rightarrow> False)"

definition has_advanced_matchers :: "VirtualHost list \<Rightarrow> bool" where
  "has_advanced_matchers vhs \<longleftrightarrow> list_ex (\<lambda>v. list_ex advanced_route (vh_paths v)) vhs"

definition config_to_runtime :: "codec_env \<Rightarrow> StructurallyConfig \<Rightarrow> conv_error + RuntimeConfig" where
  "config_to_runtime env s =
     and_then (try_map listener_to_runtime (st_listeners s)) (\<lambda>listeners.
     and_then (telemetry_to_runtime env (st_telemetry s)) (\<lambda>telemetry.
     and_then (upstreams_to_runtime env (st_upstreams s)) (\<lambda>upstreams.
     and_then (routes_to_runtime env (st_routes s)) (\<lambda>routes.
     and_then (shutdown_to_runtime (st_shutdown s)) (\<lambda>shutdown.
     and_then (admin_to_runtime (st_admin s)) (\<lambda>admin.
       let features = features_to_runtime (st_features s);
           required = (if has_advanced_matchers routes then [''advanced_matchers''] else []) in
       map_err (\<lambda>_. Anyhow ''config builder'')
         (config_build (fold config_builder_call
           ([With_telemetry telemetry, With_shutdown shutdown, With_admin admin, With_features features]
             @ map Add_listener listeners @ map Add_upstream upstreams @ map Add_route routes
             @ map Add_required_capability required) config_builder_new))))))))"

definition features_from_runtime :: "RoutingFeatures \<Rightarrow> RoutingFeatureConfig" where
  "features_from_runtime f =
     (let l = regex_limits f in
      \<lparr>fc_advanced_matchers = advanced_matchers f,
       fc_regex_limits = \<lparr>rl_pattern_max_bytes = Some (pattern_max_bytes l), rl_size_limit_bytes = Some (size_limit_bytes l),
         rl_input_max_bytes = Some (input_max_bytes l), rl_max_regex_per_route = Some (max_regex_per_route l),
         rl_max_regex_per_config = Some (max_regex_per_config l)\<rparr>\<rparr>)"

definition config_from_runtime :: "RuntimeConfig \<Rightarrow> SerdeConfig" where
  "config_from_runtime c =
     \<lparr>sc_listeners = Some (map listener_from_runtime (listeners c)),
      sc_telemetry = Some (telemetry_from_runtime (telemetry c)),
      sc_upstreams = Some (upstreams_from_runtime (upstreams c)), sc_routes = Some (routes_from_runtime (routes c)),
      sc_shutdown = Some (shutdown_from_runtime (shutdown c)), sc_admin = Some (admin_from_runtime (admin c)),
      sc_features = Some (features_from_runtime (features c))\<rparr>"

section \<open>Checks of a document (config/validation.rs)\<close>

definition validate_breaker :: "CircuitBreakerDto \<Rightarrow> conv_error + unit" where
  "validate_breaker cb =
     and_then (fail_if (cbd_max_retries cb \<noteq> None) (Anyhow ''circuit_breaker.max_retries (unsupported)'')) (\<lambda>_.
       fail_if (cbd_max_connections cb = 0 \<or> cbd_max_pending_requests cb = 0) (Anyhow ''circuit_breaker limits must be > 0''))"

definition validate_outlier :: "OutlierDetectionDto \<Rightarrow> conv_error + unit" where
  "validate_outlier od =
     and_then (fail_if (od_consecutive_errors od = 0) (Anyhow ''outlier_detection.consecutive_errors must be > 0'')) (\<lambda>_.
       fail_if (as_millis (od_eject_duration od) = 0) (Anyhow ''outlier_detection.eject_duration must be > 0''))"

definition validate_health :: "codec_env \<Rightarrow> HealthCheckDto \<Rightarrow> conv_error + unit" where
  "validate_health env hc =
     and_then (fail_if (hd_healthy_threshold hc \<noteq> 1 \<or> hd_unhealthy_threshold hc \<noteq> 1) (Anyhow ''health_check thresholds must be 1'')) (\<lambda>_.
     and_then (fail_if (blank env (hd_path hc)) (Anyhow ''health_check.path cannot be empty'')) (\<lambda>_.
     and_then (fail_if (\<not> starts_with (hd_path hc) ''/'' \<or> CHR '' '' \<in> set (hd_path hc))
         (Anyhow ''health_check.path must start with / and contain no spaces'')) (\<lambda>_.
     and_then (fail_if (as_millis (hd_interval hc) = 0) (Anyhow ''health_check.interval must be > 0'')) (\<lambda>_.
       case hd_timeout hc of
         None \<Rightarrow> Inr ()
       | Some t \<Rightarrow>
           and_then (fail_if (as_millis t = 0) (Anyhow ''health_check.timeout must be > 0'')) (\<lambda>_.
             fail_if (t > hd_interval hc) (Anyhow ''health_check.timeout must be <= health_check.interval''))))))"

definition validate_upstream_policies :: "codec_env \<Rightarrow> UpstreamDto \<Rightarrow> conv_error + unit" where
  "validate_upstream_policies env u =
     and_then (case ud_circuit_breaker u of None \<Rightarrow> Inr () | Some cb \<Rightarrow> validate_breaker cb) (\<lambda>_.
     and_then (case ud_outlier_detection u of None \<Rightarrow> Inr () | Some od \<Rightarrow> validate_outlier od) (\<lambda>_.
       case ud_health_check u of None \<Rightarrow> Inr () | Some hc \<Rightarrow> validate_health env hc))"

definition validate_phase6_policies :: "codec_env \<Rightarrow> SerdeConfig \<Rightarrow> conv_error + unit" where
  "validate_phase6_policies env c =
     (case sc_upstreams c of None \<Rightarrow> Inr () | Some us \<Rightarrow> try_each (validate_upstream_policies env) us)"

definition validate_route_retry :: "RouteDto \<Rightarrow> conv_error + unit" where
  "validate_route_retry r =
     (case ro_retry r of
        None \<Rightarrow> Inr ()
      | Some retry \<Rightarrow> try_each (\<lambda>reason. fail_if (reason = []) (Anyhow ''Retry retryable_reasons cannot contain empty strings''))
          (rd_retryable_reasons retry))"

definition validate_document :: "codec_env \<Rightarrow> SerdeConfig \<Rightarrow> conv_error + unit" where
  "validate_document env c =
     and_then (case sc_routes c of
         None \<Rightarrow> Inr ()
       | Some vhs \<Rightarrow> try_each (\<lambda>vh. try_each validate_route_retry (vd_paths vh)) vhs) (\<lambda>_.
       validate_phase6_policies env c)"

text \<open>\<open>SerdeConfig::build\<close>.\<close>

definition serde_build :: "codec_env \<Rightarrow> SerdeConfig \<Rightarrow> conv_error + RuntimeConfig" where
  "serde_build env c = and_then (validate_document env c) (\<lambda>_. config_to_runtime env (structural c))"

section \<open>The codec (lib.rs)\<close>

fun ingest_format :: "SerdeFormat \<Rightarrow> Format" where
  "ingest_format Serde_Json = Json"
| "ingest_format Serde_Yaml = Yaml"

definition serde_check :: "SerdeFormat \<Rightarrow> Artifact \<Rightarrow> CodecError + 's CheckedArtifact" where
  "serde_check fmt art =
     (if ar_bytes art = [] then Inl (Check ''Artifact payload is empty'')
      else if ar_format art \<noteq> ingest_format fmt then Inl (Check ''Unsupported format'')
      else Inr \<lparr>ca_artifact = art, ca_state = None\<rparr>)"

definition serde_compile ::
  "codec_env \<Rightarrow> (SerdeFormat \<Rightarrow> bytes \<Rightarrow> string + SerdeConfig) \<Rightarrow> SerdeFormat \<Rightarrow> 's CheckedArtifact \<Rightarrow> CodecError + RuntimeConfig" where
  "serde_compile env parse fmt checked =
     and_then (map_err (\<lambda>_. Compile ''Failed to parse'') (parse fmt (ar_bytes (ca_artifact checked)))) (\<lambda>config.
     and_then (map_err (\<lambda>_. Compile ''Failed to validate'') (validate_document env config)) (\<lambda>_.
       map_err (\<lambda>_. Compile ''Failed to build RuntimeConfig'') (config_to_runtime env (structural config))))"

definition serde_codec ::
  "codec_env \<Rightarrow> (SerdeFormat \<Rightarrow> bytes \<Rightarrow> string + SerdeConfig) \<Rightarrow> SerdeFormat \<Rightarrow> 's codec" where
  "serde_codec env parse fmt =
     \<lparr>codec_check = serde_check fmt, codec_compile = serde_compile env parse fmt, codec_compact = \<lambda>_ c. c\<rparr>"


section \<open>What survives a document\<close>

definition config_codable :: "codec_env \<Rightarrow> RuntimeConfig \<Rightarrow> bool" where
  "config_codable env c \<longleftrightarrow> listeners c \<noteq> [] \<and> (\<forall>l\<in>set (listeners c). l_workers l \<noteq> Workers_Count 0)
     \<and> (\<forall>u\<in>set (upstreams c). upstream_codable env u
          \<and> (\<forall>p i t. u_health_check u = Health_Enabled p i t \<longrightarrow> starts_with p ''/'' \<and> CHR '' '' \<notin> set p))
     \<and> (\<forall>v\<in>set (routes c). \<forall>r\<in>set (vh_paths v). route_codable env r) \<and> shutdown c \<noteq> Shutdown_Enabled 0
     \<and> required_capabilities c = (if has_advanced_matchers (routes c) then [''advanced_matchers''] else [])"

lemma listener_built:
  "listener_build (fold listener_builder_call [Listener_name n, Listener_address a, Listener_workers w, Listener_tls t] listener_builder_new)
     = Inr \<lparr>l_name = n, l_address = a, l_workers = w, l_tls = t\<rparr>"
  by (simp add: listener_builder_new_def listener_build_def)

lemma listener_roundtrip: "listener_to_runtime (listener_from_runtime l) = Inr l \<longleftrightarrow> l_workers l \<noteq> Workers_Count 0"
proof -
  have tls: "(case (case t of
          TlsConfig_Disabled \<Rightarrow> None
        | TlsConfig_Enabled cert key client \<Rightarrow> Some \<lparr>td_cert_path = Some cert, td_key_path = Some key,
            td_client_auth = (case client of ClientAuth_Disabled \<Rightarrow> None | ClientAuth_Optional p \<Rightarrow> Some (CAC_Optional p)
              | ClientAuth_Required p \<Rightarrow> Some (CAC_Required p))\<rparr>) of
        None \<Rightarrow> Inr TlsConfig_Disabled
      | Some tls \<Rightarrow>
          and_then (ok_or (td_cert_path tls) e) (\<lambda>cert. and_then (ok_or (td_key_path tls) e') (\<lambda>key.
            Inr (TlsConfig_Enabled cert key (to_runtime_client_auth (td_client_auth tls)))))) = Inr t" for t e e'
    by (cases t) (auto simp: to_runtime_client_auth_def split: ClientAuth.splits)
  have "\<lparr>l_name = l_name l, l_address = l_address l, l_workers = w, l_tls = l_tls l\<rparr> = l \<longleftrightarrow> w = l_workers l" for w
    by (cases l) auto
  then show ?thesis
    unfolding listener_to_runtime_def listener_from_runtime_def listener_built
    by (cases "l_workers l") (auto simp: parse_socket_display tls conv_simps)
qed

lemma telemetry_roundtrip:
  assumes "codec_env_ok env"
  shows "telemetry_to_runtime env (telemetry_from_runtime t) = Inr t"
proof -
  have lower: "to_lowercase env s = map to_ascii_lowercase_char s" if "ascii s" for s
    using assms that unfolding codec_env_ok_def to_ascii_lowercase_def by blast
  have level: "parse_log_level env (log_level_to_string l) = Some l" for l
    by (cases l) (simp_all add: parse_log_level_def lower to_ascii_lowercase_char_def)
  have provider: "tracing_provider_of (to_lowercase env (tracing_provider_name p)) = p" for p
    by (cases p) (simp_all add: lower to_ascii_lowercase_char_def tracing_provider_of_def)
  show ?thesis
    by (cases "t_metrics t"; cases "t_tracing t")
      (simp_all add: telemetry_to_runtime_def telemetry_from_runtime_def unwrap_or_def level provider parse_socket_display)
qed

lemma shutdown_roundtrip: "shutdown_to_runtime (shutdown_from_runtime p) = Inr p \<longleftrightarrow> p \<noteq> Shutdown_Enabled 0"
  by (cases p) (auto simp: shutdown_to_runtime_def shutdown_from_runtime_def conv_simps)

lemma admin_roundtrip: "admin_to_runtime (admin_from_runtime a) = Inr a"
  by (cases a) (simp_all add: admin_to_runtime_def admin_from_runtime_def unwrap_or_def parse_socket_display)

lemma features_roundtrip: "features_to_runtime (features_from_runtime f) = f"
  by (simp add: features_to_runtime_def features_from_runtime_def Let_def unwrap_or_def)

lemma config_builder_listeners:
  "fold config_builder_call (map Add_listener ls) b = b\<lparr>cb_listeners := cb_listeners b @ ls\<rparr>"
  by (induction ls arbitrary: b) simp_all

lemma config_builder_upstreams:
  "fold config_builder_call (map Add_upstream us) b = b\<lparr>cb_upstreams := cb_upstreams b @ us\<rparr>"
  by (induction us arbitrary: b) simp_all

lemma config_builder_routes:
  "fold config_builder_call (map Add_route rs) b = b\<lparr>cb_routes := cb_routes b @ rs\<rparr>"
  by (induction rs arbitrary: b) simp_all

lemma config_builder_capabilities:
  "fold config_builder_call (map Add_required_capability cs) b = b\<lparr>cb_required_capabilities := cb_required_capabilities b @ cs\<rparr>"
  by (induction cs arbitrary: b) simp_all

lemma config_built:
  "config_build (fold config_builder_call
     ([With_telemetry t, With_shutdown s, With_admin a, With_features f]
       @ map Add_listener ls @ map Add_upstream us @ map Add_route rs @ map Add_required_capability cs) config_builder_new)
   = (if ls = [] then Inl MissingListeners
      else Inr \<lparr>listeners = ls, telemetry = t, upstreams = us, routes = rs, shutdown = s, admin = a, features = f,
        required_capabilities = cs\<rparr>)"
  by (simp add: config_builder_listeners config_builder_upstreams config_builder_routes config_builder_capabilities
      config_builder_new_def config_build_def unwrap_or_def)

lemma config_to_runtime_Inr:
  "config_to_runtime env s = Inr c \<longleftrightarrow>
     try_map listener_to_runtime (st_listeners s) = Inr (listeners c) \<and> listeners c \<noteq> []
     \<and> telemetry_to_runtime env (st_telemetry s) = Inr (telemetry c)
     \<and> upstreams_to_runtime env (st_upstreams s) = Inr (upstreams c) \<and> routes_to_runtime env (st_routes s) = Inr (routes c)
     \<and> shutdown_to_runtime (st_shutdown s) = Inr (shutdown c) \<and> admin_to_runtime (st_admin s) = Inr (admin c)
     \<and> features_to_runtime (st_features s) = features c
     \<and> required_capabilities c = (if has_advanced_matchers (routes c) then [''advanced_matchers''] else [])"
proof -
  have "\<lparr>listeners = ls, telemetry = t, upstreams = us, routes = rs, shutdown = sh, admin = a, features = f, required_capabilities = cs\<rparr> = c
    \<longleftrightarrow> ls = listeners c \<and> t = telemetry c \<and> us = upstreams c \<and> rs = routes c \<and> sh = shutdown c \<and> a = admin c \<and> f = features c
      \<and> cs = required_capabilities c" for ls t us rs sh a f cs by (cases c) auto
  then show ?thesis
    unfolding config_to_runtime_def config_built Let_def and_then_eq_Inr map_err_eq_Inr by (auto split: if_splits)
qed

lemma from_millis_le: "from_millis m \<le> from_millis n \<longleftrightarrow> m \<le> n"
  by (simp add: from_millis_def)

lemma validate_emitted:
  "validate_document env (config_from_runtime c) = Inr () \<longleftrightarrow>
     (\<forall>u\<in>set (upstreams c).
        (\<forall>m p. u_circuit_breaker u = Breaker_Enabled m p \<longrightarrow> m \<noteq> 0 \<and> p \<noteq> 0)
        \<and> (\<forall>e d. u_outlier_detection u = Outlier_Enabled e d \<longrightarrow> e \<noteq> 0 \<and> d \<noteq> 0)
        \<and> (\<forall>p i t. u_health_check u = Health_Enabled p i t \<longrightarrow>
             \<not> blank env p \<and> starts_with p ''/'' \<and> CHR '' '' \<notin> set p \<and> i \<noteq> 0 \<and> t \<noteq> 0 \<and> t \<le> i))"
proof -
  have ucast0: "(ucast (w :: u32) :: u64) = 0 \<longleftrightarrow> w = 0" for w
    using unat_ucast_wider [of w, where 'b = 64] by (auto simp: unat_eq_zero)
  have reasons: "validate_route_retry (from_runtime_route r) = Inr ()" for r
    by (cases "r_retry r")
      (auto simp: validate_route_retry_def from_runtime_route_def from_runtime_retry_def try_each_eq_Inr fail_if_eq_Inr
        elim: retry_reason_name.elims)
  have "validate_upstream_policies env (from_runtime_upstream u) = Inr () \<longleftrightarrow>
      (\<forall>m p. u_circuit_breaker u = Breaker_Enabled m p \<longrightarrow> m \<noteq> 0 \<and> p \<noteq> 0)
      \<and> (\<forall>e d. u_outlier_detection u = Outlier_Enabled e d \<longrightarrow> e \<noteq> 0 \<and> d \<noteq> 0)
      \<and> (\<forall>p i t. u_health_check u = Health_Enabled p i t \<longrightarrow>
           \<not> blank env p \<and> starts_with p ''/'' \<and> CHR '' '' \<notin> set p \<and> i \<noteq> 0 \<and> t \<noteq> 0 \<and> t \<le> i)" for u
    by (cases "u_circuit_breaker u"; cases "u_outlier_detection u"; cases "u_health_check u")
      (auto simp: validate_upstream_policies_def from_runtime_upstream_def from_runtime_breaker_def from_runtime_outlier_def
        from_runtime_health_def validate_breaker_def validate_outlier_def validate_health_def and_then_eq_Inr fail_if_eq_Inr ucast0
        as_millis_from_millis unat_eq_zero from_millis_le not_less word_le_nat_alt)
  then show ?thesis
    by (simp add: validate_document_def validate_phase6_policies_def config_from_runtime_def routes_from_runtime_def
        upstreams_from_runtime_def and_then_eq_Inr try_each_eq_Inr reasons)
qed

lemma structural_emitted:
  "structural (config_from_runtime c) = \<lparr>st_listeners = map listener_from_runtime (listeners c),
     st_telemetry = telemetry_from_runtime (telemetry c), st_upstreams = upstreams_from_runtime (upstreams c),
     st_routes = routes_from_runtime (routes c), st_shutdown = shutdown_from_runtime (shutdown c),
     st_admin = admin_from_runtime (admin c), st_features = features_from_runtime (features c)\<rparr>"
  by (simp add: structural_def config_from_runtime_def unwrap_or_def)

lemma serde_build_emitted:
  assumes "codec_env_ok env"
  shows "serde_build env (config_from_runtime c) = Inr c \<longleftrightarrow> config_codable env c"
proof -
  have "serde_build env (config_from_runtime c) = Inr c \<longleftrightarrow> validate_document env (config_from_runtime c) = Inr ()
      \<and> listeners c \<noteq> [] \<and> (\<forall>l\<in>set (listeners c). l_workers l \<noteq> Workers_Count 0)
      \<and> (\<forall>u\<in>set (upstreams c). upstream_codable env u)
      \<and> (\<forall>v\<in>set (routes c). \<forall>r\<in>set (vh_paths v). route_codable env r) \<and> shutdown c \<noteq> Shutdown_Enabled 0
      \<and> required_capabilities c = (if has_advanced_matchers (routes c) then [''advanced_matchers''] else [])"
    unfolding serde_build_def and_then_eq_Inr config_to_runtime_Inr structural_emitted StructurallyConfig.simps
      try_map_roundtrip listener_roundtrip telemetry_roundtrip [OF assms] upstreams_roundtrip routes_roundtrip [OF assms]
      shutdown_roundtrip admin_roundtrip features_roundtrip by auto
  then show ?thesis
    unfolding validate_emitted config_codable_def upstream_codable_def health_codable_def by blast
qed

section \<open>What a document yields\<close>

lemma listener_yields: "listener_to_runtime l = Inr r \<Longrightarrow> l_workers r \<noteq> Workers_Count 0"
  unfolding listener_to_runtime_def listener_built and_then_eq_Inr map_err_eq_Inr sum.inject
  by (auto simp: and_then_eq_Inr ok_or_eq_Inr non_zero_eq_Some split: option.splits)

lemma shutdown_yields: "shutdown_to_runtime d = Inr s \<Longrightarrow> s \<noteq> Shutdown_Enabled 0"
  by (auto simp: shutdown_to_runtime_def conv_simps split: if_splits)

lemma upstreams_yield_codable:
  assumes "upstreams_to_runtime env ds = Inr us" "u \<in> set us"
  shows "upstream_codable env u
    \<and> (\<forall>p i t. u_health_check u = Health_Enabled p i t \<longrightarrow> (\<exists>d\<in>set ds. \<exists>hc. ud_health_check d = Some hc \<and> hd_path hc = p))"
proof -
  from try_map_enumerate_elem [of "\<lambda>i d. to_runtime_upstream env i d", OF assms(1) [unfolded upstreams_to_runtime_def] assms(2)]
  obtain i d where "d \<in> set ds" "to_runtime_upstream env i d = Inr u" by blast
  with upstream_yields_codable show ?thesis by blast
qed

lemma validated_health_paths:
  assumes "validate_document env d = Inr ()" "u \<in> set (st_upstreams (structural d))" "ud_health_check u = Some hc"
  shows "starts_with (hd_path hc) ''/'' \<and> CHR '' '' \<notin> set (hd_path hc)"
proof -
  from assms obtain us where "sc_upstreams d = Some us" "u \<in> set us"
    by (cases "sc_upstreams d") (auto simp: structural_def unwrap_or_def)
  with assms have "validate_health env hc = Inr ()"
    by (force simp: validate_document_def validate_phase6_policies_def and_then_eq_Inr try_each_eq_Inr validate_upstream_policies_def)
  then show ?thesis by (simp add: validate_health_def and_then_eq_Inr fail_if_eq_Inr)
qed

lemma serde_build_codable:
  assumes "serde_build env d = Inr c"
  shows "config_codable env c"
proof -
  from assms have v: "validate_document env d = Inr ()" and r: "config_to_runtime env (structural d) = Inr c"
    by (auto simp: serde_build_def and_then_eq_Inr)
  note parts = r [unfolded config_to_runtime_Inr]
  from parts have ls: "try_map listener_to_runtime (st_listeners (structural d)) = Inr (listeners c)"
    and us: "upstreams_to_runtime env (st_upstreams (structural d)) = Inr (upstreams c)"
    and rs: "routes_to_runtime env (st_routes (structural d)) = Inr (routes c)"
    and sh: "shutdown_to_runtime (st_shutdown (structural d)) = Inr (shutdown c)" by (simp_all only:)
  have "\<forall>l\<in>set (listeners c). l_workers l \<noteq> Workers_Count 0"
    using try_map_elem [OF ls] listener_yields by blast
  moreover have "upstream_codable env u
      \<and> (\<forall>p i t. u_health_check u = Health_Enabled p i t \<longrightarrow> starts_with p ''/'' \<and> CHR '' '' \<notin> set p)" if "u \<in> set (upstreams c)" for u
    using upstreams_yield_codable [OF us that] validated_health_paths [OF v] by blast
  moreover have "\<forall>v\<in>set (routes c). \<forall>r\<in>set (vh_paths v). route_codable env r"
    using routes_yield_codable [OF rs] by blast
  ultimately show ?thesis
    using parts shutdown_yields [OF sh] unfolding config_codable_def by simp
qed

section \<open>Properties of the codec\<close>

lemma sample_config_codable: "config_codable ascii_env sample_config"
  by (simp add: config_codable_def sample_config_def sample_upstream_def upstream_codable_def endpoint_codable_def pool_codable_def
      pool_default_def DEFAULT_POOL_MAX_def tls_codable_def health_codable_def ascii_env_def sample_route_def route_codable_def matcher_codable_def
      retry_codable_def rewrite_codable_def action_codable_def has_advanced_matchers_def advanced_route_def)

text \<open>
  C7: the document written for a runtime configuration is read back as that configuration exactly when the configuration is one a
  document can express: it has a listener, no duration, weight, limit or identifier is zero, endpoints are addresses for a
  static upstream and names for a discovered one, header names are lower-case tokens, prefix rewrites replace the
  matched path, and the required capabilities are those its routes need.
\<close>

theorem document_roundtrip_iff:
  assumes "codec_env_ok env"
  shows "serde_build env (config_from_runtime c) = Inr c \<longleftrightarrow> config_codable env c"
  using assms by (rule serde_build_emitted)

theorem document_roundtrip_iff_witness:
  "serde_build ascii_env (config_from_runtime sample_config) = Inr sample_config"
  using document_roundtrip_iff [OF ascii_env_ok, of sample_config] sample_config_codable by simp

text \<open>
  C6: compiling is stable. Whatever document a configuration was compiled from, writing the configuration out as a
  document and compiling that again gives the same configuration; a conversion loses nothing.
\<close>

theorem compiled_config_stable:
  assumes "codec_env_ok env" "serde_build env d = Inr c"
  shows "serde_build env (config_from_runtime c) = Inr c"
  using serde_build_codable [OF assms(2)] serde_build_emitted [OF assms(1)] by blast

text \<open>A document that names only a listener, everything else left to the defaults.\<close>

definition minimal_document :: SerdeConfig where
  "minimal_document = \<lparr>sc_listeners = Some [\<lparr>ld_name = ''main'', ld_address = socket_display \<lparr>sa_ip = V4 0, sa_port = 8080\<rparr>,
       ld_workers = Some 4, ld_tls = None\<rparr>],
     sc_telemetry = None, sc_upstreams = None, sc_routes = None, sc_shutdown = None, sc_admin = None, sc_features = None\<rparr>"

definition minimal_config :: RuntimeConfig where
  "minimal_config = \<lparr>listeners = [\<lparr>l_name = ''main'', l_address = \<lparr>sa_ip = V4 0, sa_port = 8080\<rparr>, l_workers = Workers_Count 4,
       l_tls = TlsConfig_Disabled\<rparr>],
     telemetry = \<lparr>t_level = Log_Info, t_pingora = Log_Info, t_service_name = ''pavis'', t_metrics = Metrics_Disabled,
       t_access_log = AccessLog_Stdout, t_tracing = Tracing_Disabled\<rparr>,
     upstreams = [], routes = [], shutdown = Shutdown_Enabled 30000, admin = Admin_Disabled,
     features = \<lparr>advanced_matchers = False, regex_limits = regex_limits_default\<rparr>, required_capabilities = []\<rparr>"

lemma minimal_document_builds: "serde_build ascii_env minimal_document = Inr minimal_config"
proof -
  have "config_to_runtime ascii_env (structural minimal_document) = Inr minimal_config"
    unfolding config_to_runtime_Inr minimal_document_def minimal_config_def structural_def listener_to_runtime_def listener_built
    by (simp add: unwrap_or_def parse_socket_display non_zero_def telemetry_to_runtime_def parse_log_level_def
        upstreams_to_runtime_def routes_to_runtime_def shutdown_to_runtime_def DEFAULT_SHUTDOWN_DRAIN_TIMEOUT_MS_def
        admin_to_runtime_def features_to_runtime_def has_advanced_matchers_def)
  then show ?thesis
    by (simp add: serde_build_def validate_document_def validate_phase6_policies_def minimal_document_def)
qed

theorem compiled_config_stable_witness:
  "serde_build ascii_env (config_from_runtime minimal_config) = Inr minimal_config"
  by (rule compiled_config_stable [OF ascii_env_ok minimal_document_builds])

text \<open>The fields whose type in the sources is a \<open>NonZero\<close> integer, or a \<open>Duration\<close> made of one.\<close>

definition endpoint_nonzero :: "Endpoint \<Rightarrow> bool" where
  "endpoint_nonzero e \<longleftrightarrow> ep_weight e \<noteq> 0 \<and> (case ep_address e of Endpoint_Ip ip port \<Rightarrow> port \<noteq> 0 | Endpoint_Dns host port \<Rightarrow> port \<noteq> 0)"

fun upstream_nonzero :: "Upstream \<Rightarrow> bool" where
  "upstream_nonzero u \<longleftrightarrow> u_id u \<noteq> 0 \<and> list_all endpoint_nonzero (u_endpoints u)
     \<and> pool_max (u_pool u) \<noteq> 0 \<and> pool_idle (u_pool u) \<noteq> IdleTimeout_Enabled 0 \<and> pool_connect (u_pool u) \<noteq> ConnectTimeout_Enabled 0
     \<and> pool_tcp_keepalive (u_pool u) \<noteq> Some 0
     \<and> (case u_outlier_detection u of Outlier_Enabled e d \<Rightarrow> e \<noteq> 0 \<and> d \<noteq> 0 | Outlier_Disabled \<Rightarrow> True)
     \<and> (case u_circuit_breaker u of Breaker_Enabled m p \<Rightarrow> m \<noteq> 0 \<and> p \<noteq> 0 | Breaker_Disabled \<Rightarrow> True)
     \<and> (case u_health_check u of Health_Enabled p i t \<Rightarrow> i \<noteq> 0 \<and> t \<noteq> 0 | Health_Disabled \<Rightarrow> True)"

fun route_nonzero :: "Route \<Rightarrow> bool" where
  "route_nonzero r \<longleftrightarrow> r_timeout r \<noteq> Timeout_Enabled 0
     \<and> (case r_retry r of Retry_Enabled c \<Rightarrow> rp_max_attempts c \<noteq> 0 \<and> rp_per_try c \<noteq> TryTimeout_Enabled 0 | Retry_Disabled \<Rightarrow> True)
     \<and> (case r_action r of Action_Forward ds \<Rightarrow> list_all (\<lambda>d. dest_weight d \<noteq> 0) ds | _ \<Rightarrow> True)"

definition config_nonzero :: "RuntimeConfig \<Rightarrow> bool" where
  "config_nonzero c \<longleftrightarrow> list_all (\<lambda>l. l_workers l \<noteq> Workers_Count 0) (listeners c) \<and> list_all upstream_nonzero (upstreams c)
     \<and> list_all (\<lambda>v. list_all route_nonzero (vh_paths v)) (routes c) \<and> shutdown c \<noteq> Shutdown_Enabled 0"

lemma codable_nonzero:
  assumes "config_codable env c"
  shows "config_nonzero c"
proof -
  have "upstream_nonzero u" if "upstream_codable env u" for u
    using that
    by (simp add: upstream_codable_def endpoint_codable_def endpoint_nonzero_def pool_codable_def health_codable_def list_all_iff
        split: EndpointAddr.splits OutlierDetectionPolicy.splits CircuitBreakerPolicy.splits ActiveHealthCheck.splits)
  moreover have "route_nonzero r" if "route_codable env r" for r
    using that
    by (auto simp: route_codable_def retry_codable_def action_codable_def list_all_iff split: Core_Types.RetryPolicy.splits RouteAction.splits)
  ultimately show ?thesis
    using assms unfolding config_codable_def config_nonzero_def list_all_iff by blast
qed

text \<open>
  C8: a compiled configuration is well-typed: every field whose type in the sources excludes zero (ports and weights of endpoints, limits, timeouts,
  intervals, attempts, weights of destinations, worker counts and identifiers) is nonzero, so no \<open>NonZero\<close> of the sources is ever built from a zero.
\<close>

theorem compiled_config_typed:
  assumes "serde_build env d = Inr c"
  shows "config_nonzero c"
  using serde_build_codable [OF assms] by (rule codable_nonzero)

theorem compiled_config_typed_witness: "config_nonzero minimal_config"
  by (rule compiled_config_typed [OF minimal_document_builds])

text \<open>
  C5: from an artifact to a configuration, with the serde codec. An artifact becomes a configuration exactly when it is not empty,
  has the codec's format, parses to a document that compiles to that configuration, and the configuration satisfies everything
  \<open>validate_runtime\<close> checks; compaction changes nothing.
\<close>

theorem serde_materialize_iff:
  assumes "externs_ok ext" "cache_sound ext cache"
  shows "fst (materialize ext (serde_codec env parse fmt :: 's codec) art level cache) = Inr c \<longleftrightarrow>
    ar_bytes art \<noteq> [] \<and> ar_format art = ingest_format fmt
    \<and> (\<exists>d. parse fmt (ar_bytes art) = Inr d \<and> serde_build env d = Inr c) \<and> config_ok ext c"
proof -
  have compiled: "and_then (serde_check fmt art :: CodecError + 's CheckedArtifact) (serde_compile env parse fmt) = Inr r \<longleftrightarrow>
      ar_bytes art \<noteq> [] \<and> ar_format art = ingest_format fmt \<and> (\<exists>d. parse fmt (ar_bytes art) = Inr d \<and> serde_build env d = Inr r)" for r
    by (auto simp: serde_check_def serde_compile_def serde_build_def and_then_eq_Inr map_err_eq_Inr)
  have "fst (materialize ext (serde_codec env parse fmt :: 's codec) art level cache) = Inr c \<longleftrightarrow>
      (\<exists>r. and_then (serde_check fmt art :: CodecError + 's CheckedArtifact) (serde_compile env parse fmt) = Inr r \<and> fst (validate_runtime ext cache r) = Inr c)"
    by (cases "and_then (serde_check fmt art :: CodecError + 's CheckedArtifact) (serde_compile env parse fmt)")
      (auto simp: materialize_def serde_codec_def map_err_eq_Inr split: prod.splits)
  then show ?thesis
    unfolding compiled validate_runtime_ok_iff [OF assms] by blast
qed

definition sample_artifact :: Artifact where
  "sample_artifact = artifact_new 0 [123] Json (source_info_unknown)"

theorem serde_materialize_iff_witness:
  "fst (materialize sample_externs (serde_codec ascii_env (\<lambda>_ _. Inr (config_from_runtime sample_config)) Serde_Json) sample_artifact Level_Off
     \<lparr>cached = [], poisoned = False\<rparr>) = Inr sample_config"
  using serde_materialize_iff [OF sample_externs_ok, of ascii_env "\<lambda>_ _. Inr (config_from_runtime sample_config)" Serde_Json sample_artifact
      Level_Off sample_config] sample_config_ok sample_config_codable
  by (simp add: serde_build_emitted [OF ascii_env_ok] sample_artifact_def artifact_new_def)

text \<open>
  C39: the bound on a route's timeout per try is checked after the truncation to 32 bits. A duration of \<open>n\<close> milliseconds is
  accepted exactly when \<open>n\<close> modulo \<open>2 ^ 32\<close> is within the route's timeout, and that remainder (at least one millisecond) is used;
  a timeout per try of fifty days and a second is accepted as one second or so under a route timeout of five.
\<close>

theorem per_try_truncated:
  "((\<exists>r. convert_per_try (Some d) (Timeout_Enabled t) path = Inr r) \<longleftrightarrow> as_millis d mod 2 ^ 32 \<le> unat t)
   \<and> convert_per_try (Some (from_millis (2 ^ 32 + 1000))) (Timeout_Enabled 5000) path = Inr (TryTimeout_Enabled 1000)"
proof -
  have "unat (of_nat (as_millis d) :: u32) = as_millis d mod 2 ^ 32" by (simp add: unat_of_nat)
  then have "(\<exists>r. convert_per_try (Some d) (Timeout_Enabled t) path = Inr r) \<longleftrightarrow> as_millis d mod 2 ^ 32 \<le> unat t"
    by (auto simp: convert_per_try_def Let_def word_less_nat_alt not_less)
  moreover have "convert_per_try (Some (from_millis (2 ^ 32 + 1000))) (Timeout_Enabled 5000) path = Inr (TryTimeout_Enabled 1000)"
    by (simp add: convert_per_try_def Let_def as_millis_from_millis)
  ultimately show ?thesis by simp
qed

text \<open>An upstream without an identifier takes its position modulo \<open>2 ^ 16\<close>, so the first and the 65537th share one.\<close>

lemma implicit_ids_wrap: "to_runtime_id None (index + 65536) = to_runtime_id None index"
proof -
  have "(of_nat (index + 65536 + 1) :: u16) = of_nat (index + 1)"
    by (simp add: word_of_nat_eq_iff take_bit_eq_mod)
  then show ?thesis by (simp only: to_runtime_id_def option.case)
qed

end
