(* ===== verification/Serde_Predicates.thy ===== *)
theory Serde_Predicates
  imports Serde_Routes Core_Predicate
begin

text \<open>
  The conversion of predicate documents to the trees of the core
  (crates/pavis-codec-serde/src/config/convert/predicates.rs): explicit trees, header matchers and the list of header
  predicates of a matcher, each with the flag that says whether an advanced feature was used. A reference meaning of the
  documents shows what the conversion preserves.
\<close>

section \<open>Conversion\<close>

definition predicate_http_method :: "codec_env \<Rightarrow> string \<Rightarrow> conv_error + HttpMethod" where
  "predicate_http_method env verb = ok_or (http_method_of (to_uppercase env verb)) (Anyhow ''invalid HTTP method'')"

definition predicate_header_name :: "string \<Rightarrow> conv_error + unit" where
  "predicate_header_name name =
     (if name = [] then Inl (Anyhow ''header name cannot be empty'')
      else if \<not> list_all header_name_char name then Inl (Anyhow ''invalid header name'')
      else Inr ())"

definition predicate_header_value :: "codec_env \<Rightarrow> string \<Rightarrow> conv_error + unit" where
  "predicate_header_value env v = fail_if (has_control env v) (Anyhow ''invalid header value (contains control characters)'')"

definition pattern_fits :: "RegexLimits \<Rightarrow> string \<Rightarrow> conv_error + unit" where
  "pattern_fits limits pattern = fail_if (length pattern > unat (pattern_max_bytes limits)) (Anyhow ''regex pattern exceeds the limit'')"

fun header_to_core :: "codec_env \<Rightarrow> RegexLimits \<Rightarrow> HeaderMatcherDTO \<Rightarrow> conv_error + HeaderMatcher \<times> bool" where
  "header_to_core env limits (DTO_Exact name v) =
     and_then (predicate_header_name name) (\<lambda>_. and_then (predicate_header_value env v) (\<lambda>_.
       Inr (HM_Exact (to_ascii_lowercase name) v, False)))"
| "header_to_core env limits (DTO_Prefix name p) =
     and_then (predicate_header_name name) (\<lambda>_. and_then (predicate_header_value env p) (\<lambda>_.
       Inr (HM_Prefix (to_ascii_lowercase name) p, True)))"
| "header_to_core env limits (DTO_Regex name pattern) =
     and_then (predicate_header_name name) (\<lambda>_. and_then (pattern_fits limits pattern) (\<lambda>_.
       Inr (HM_Regex (to_ascii_lowercase name) pattern, True)))"
| "header_to_core env limits (DTO_Present name) =
     and_then (predicate_header_name name) (\<lambda>_. Inr (HM_Present (to_ascii_lowercase name), False))"
| "header_to_core env limits (DTO_Absent name) =
     and_then (predicate_header_name name) (\<lambda>_. Inr (HM_Present (to_ascii_lowercase name), True))"

lemma try_map_cong [fundef_cong]:
  "xs = ys \<Longrightarrow> (\<And>x. x \<in> set ys \<Longrightarrow> f x = g x) \<Longrightarrow> try_map f xs = try_map g ys"
  by (induction ys arbitrary: xs) simp_all

fun to_core_recursive :: "codec_env \<Rightarrow> RegexLimits \<Rightarrow> PredicateNodeDTO \<Rightarrow> conv_error + PredicateNode \<times> bool" where
  "to_core_recursive env limits DTO_True = Inr (PTrue, False)"
| "to_core_recursive env limits DTO_False = Inr (PFalse, False)"
| "to_core_recursive env limits (DTO_Method m) =
     and_then (predicate_http_method env m) (\<lambda>m. Inr (PMethod (MM_Exact m), False))"
| "to_core_recursive env limits (DTO_Methods ms) =
     (if ms = [] then Inl (Anyhow ''methods list cannot be empty'')
      else and_then (try_map (predicate_http_method env) ms) (\<lambda>ms.
        Inr (PMethod (if length ms = 1 then MM_Exact (hd ms) else MM_AnyOf ms), False)))"
| "to_core_recursive env limits (DTO_Header h) =
     and_then (header_to_core env limits h) (\<lambda>(h, adv). Inr (PHeader h, adv))"
| "to_core_recursive env limits (DTO_And ps) =
     (if ps = [] then Inl (Anyhow ''And predicates cannot be empty'')
      else and_then (try_map (to_core_recursive env limits) ps) (\<lambda>rs.
        Inr (PAnd (map fst rs), list_ex snd rs \<or> length ps > 1)))"
| "to_core_recursive env limits (DTO_Or ps) =
     (if ps = [] then Inl (Anyhow ''Or predicates cannot be empty'')
      else and_then (try_map (to_core_recursive env limits) ps) (\<lambda>rs. Inr (POr (map fst rs), True)))"
| "to_core_recursive env limits (DTO_Not p) =
     and_then (to_core_recursive env limits p) (\<lambda>(n, _). Inr (PNot n, True))"

definition to_core :: "codec_env \<Rightarrow> RegexLimits \<Rightarrow> PredicateNodeDTO \<Rightarrow> conv_error + PredicateNode \<times> bool" where
  "to_core env limits p = and_then (to_core_recursive env limits p) (\<lambda>(n, adv). Inr (normalize n, adv))"

text \<open>One entry of the list of header predicates; the flags of the legacy form exclude each other.\<close>

definition legacy_to_core :: "codec_env \<Rightarrow> RegexLimits \<Rightarrow> HeaderPredicateLegacy \<Rightarrow> conv_error + HeaderMatcher \<times> bool" where
  "legacy_to_core env limits pred =
     (let name = to_ascii_lowercase (hl_name pred) in
      and_then (fail_if (hl_name pred = []) (Anyhow ''header name cannot be empty'')) (\<lambda>_.
      and_then (predicate_header_name (hl_name pred)) (\<lambda>_.
      and_then (fail_if (length (filter id [hl_regex pred, hl_prefix pred, hl_absent pred]) > 1)
          (Anyhow ''regex, prefix, and absent are mutually exclusive'')) (\<lambda>_.
        if hl_absent pred then
          and_then (fail_if (hl_value pred \<noteq> None) (Anyhow ''absent=true cannot have a value'')) (\<lambda>_. Inr (HM_Present name, True))
        else if hl_regex pred then
          and_then (ok_or (hl_value pred) (Anyhow ''regex=true requires a value'')) (\<lambda>pattern.
          and_then (pattern_fits limits pattern) (\<lambda>_. Inr (HM_Regex name pattern, True)))
        else if hl_prefix pred then
          and_then (ok_or (hl_value pred) (Anyhow ''prefix=true requires a value'')) (\<lambda>p. Inr (HM_Prefix name p, True))
        else case hl_value pred of
          Some v \<Rightarrow> and_then (predicate_header_value env v) (\<lambda>_. Inr (HM_Exact name v, False))
        | None \<Rightarrow> Inr (HM_Present name, False)))))"

fun header_predicate_to_core :: "codec_env \<Rightarrow> RegexLimits \<Rightarrow> HeaderPredicateDto \<Rightarrow> conv_error + HeaderMatcher \<times> bool" where
  "header_predicate_to_core env limits (V2 dto) = header_to_core env limits dto"
| "header_predicate_to_core env limits (V1 pred) = legacy_to_core env limits pred"

definition desugar_p0_headers :: "codec_env \<Rightarrow> RegexLimits \<Rightarrow> HeaderPredicateDto list \<Rightarrow> conv_error + PredicateNode \<times> bool" where
  "desugar_p0_headers env limits headers =
     (if headers = [] then Inr (PTrue, False)
      else and_then (try_map (header_predicate_to_core env limits) headers) (\<lambda>rs.
        let predicates = map (PHeader \<circ> fst) rs in
        Inr (if length predicates = 1 then hd predicates else PAnd predicates, list_ex snd rs)))"

section \<open>Meaning\<close>

text \<open>
  What a document says of a request with a given method, where \<open>h\<close> says which header matchers hold of it. Header names
  are compared without regard to case.
\<close>

fun header_meaning :: "(HeaderMatcher \<Rightarrow> bool) \<Rightarrow> HeaderMatcherDTO \<Rightarrow> bool" where
  "header_meaning h (DTO_Exact n v) = h (HM_Exact (to_ascii_lowercase n) v)"
| "header_meaning h (DTO_Prefix n p) = h (HM_Prefix (to_ascii_lowercase n) p)"
| "header_meaning h (DTO_Regex n p) = h (HM_Regex (to_ascii_lowercase n) p)"
| "header_meaning h (DTO_Present n) = h (HM_Present (to_ascii_lowercase n))"
| "header_meaning h (DTO_Absent n) = (\<not> h (HM_Present (to_ascii_lowercase n)))"

fun method_meaning :: "HttpMethod \<Rightarrow> MethodMatcher \<Rightarrow> bool" where
  "method_meaning verb (MM_Exact m) \<longleftrightarrow> m = verb"
| "method_meaning verb (MM_AnyOf ms) \<longleftrightarrow> verb \<in> set ms"

fun document_meaning :: "codec_env \<Rightarrow> HttpMethod \<Rightarrow> (HeaderMatcher \<Rightarrow> bool) \<Rightarrow> PredicateNodeDTO \<Rightarrow> bool" where
  "document_meaning env verb h DTO_True = True"
| "document_meaning env verb h DTO_False = False"
| "document_meaning env verb h (DTO_Method m) = (http_method_of (to_uppercase env m) = Some verb)"
| "document_meaning env verb h (DTO_Methods ms) = list_ex (\<lambda>m. http_method_of (to_uppercase env m) = Some verb) ms"
| "document_meaning env verb h (DTO_Header m) = header_meaning h m"
| "document_meaning env verb h (DTO_And ps) = list_all (document_meaning env verb h) ps"
| "document_meaning env verb h (DTO_Or ps) = list_ex (document_meaning env verb h) ps"
| "document_meaning env verb h (DTO_Not p) = (\<not> document_meaning env verb h p)"

fun absent_free :: "PredicateNodeDTO \<Rightarrow> bool" where
  "absent_free (DTO_Header (DTO_Absent n)) = False"
| "absent_free (DTO_And ps) = list_all absent_free ps"
| "absent_free (DTO_Or ps) = list_all absent_free ps"
| "absent_free (DTO_Not p) = absent_free p"
| "absent_free _ = True"

lemma header_to_core_meaning:
  "header_to_core env limits d = Inr (m, adv) \<Longrightarrow> (\<nexists>n. d = DTO_Absent n) \<Longrightarrow> h m = header_meaning h d"
  by (cases d) (auto simp: and_then_eq_Inr)

lemma methods_meaning:
  "try_map (predicate_http_method env) ms = Inr vs \<Longrightarrow>
     verb \<in> set vs \<longleftrightarrow> list_ex (\<lambda>m. http_method_of (to_uppercase env m) = Some verb) ms"
  by (induction ms arbitrary: vs) (auto simp: and_then_eq_Inr predicate_http_method_def ok_or_eq_Inr)

lemma try_map_meaning:
  assumes "try_map f ds = Inr rs" "\<forall>d\<in>set ds. \<forall>r. f d = Inr r \<longrightarrow> P (fst r) = Q d"
  shows "(list_all P (map fst rs) \<longleftrightarrow> list_all Q ds) \<and> (list_ex P (map fst rs) \<longleftrightarrow> list_ex Q ds)"
proof -
  have "list_all2 (\<lambda>d r. P (fst r) = Q d) ds rs"
    using assms unfolding try_map_eq_Inr list_all2_conv_all_nth by (metis nth_mem)
  then show ?thesis by (induction rule: list_all2_induct) auto
qed

lemma to_core_recursive_meaning:
  assumes "to_core_recursive env limits d = Inr (n, adv)" "absent_free d"
  shows "eval_node (method_meaning verb) h n = document_meaning env verb h d"
  using assms
proof (induction d arbitrary: n adv)
  case (DTO_Methods ms)
  then obtain vs where vs: "try_map (predicate_http_method env) ms = Inr vs"
    and n: "n = PMethod (if length vs = 1 then MM_Exact (hd vs) else MM_AnyOf vs)"
    by (auto simp: and_then_eq_Inr split: if_splits)
  have "method_meaning verb (if length vs = 1 then MM_Exact (hd vs) else MM_AnyOf vs) \<longleftrightarrow> verb \<in> set vs"
    by (auto simp: length_Suc_conv)
  with methods_meaning [OF vs] show ?case by (simp add: n)
next
  case (DTO_And ds)
  then obtain rs where rs: "try_map (to_core_recursive env limits) ds = Inr rs" and n: "n = PAnd (map fst rs)"
    by (auto simp: and_then_eq_Inr split: if_splits)
  have "\<forall>d\<in>set ds. \<forall>r. to_core_recursive env limits d = Inr r \<longrightarrow>
      eval_node (method_meaning verb) h (fst r) = document_meaning env verb h d"
    using DTO_And by (simp add: list_all_iff)
  from try_map_meaning [OF rs this] show ?case by (simp only: n eval_node.simps document_meaning.simps)
next
  case (DTO_Or ds)
  then obtain rs where rs: "try_map (to_core_recursive env limits) ds = Inr rs" and n: "n = POr (map fst rs)"
    by (auto simp: and_then_eq_Inr split: if_splits)
  have "\<forall>d\<in>set ds. \<forall>r. to_core_recursive env limits d = Inr r \<longrightarrow>
      eval_node (method_meaning verb) h (fst r) = document_meaning env verb h d"
    using DTO_Or by (simp add: list_all_iff)
  from try_map_meaning [OF rs this] show ?case by (simp only: n eval_node.simps document_meaning.simps)
next
  case (DTO_Header m)
  then show ?case by (cases m) (auto simp: and_then_eq_Inr)
qed (auto simp: and_then_eq_Inr predicate_http_method_def ok_or_eq_Inr)

section \<open>Properties\<close>

text \<open>
  Converting a predicate document keeps its meaning. When a document without an \<open>absent\<close> matcher is converted, the normalised
  tree matches exactly the requests the document describes: methods without regard to case, lists as alternatives, headers by
  lower-case name.
\<close>

theorem to_core_meaning:
  assumes "to_core env limits d = Inr (n, adv)" "absent_free d"
  shows "eval_node (method_meaning verb) h n = document_meaning env verb h d"
  using assms to_core_recursive_meaning [of env limits d _ adv verb h]
  by (auto simp: to_core_def and_then_eq_Inr eval_normalize)

text \<open>A document that is not already in normal form.\<close>

definition sample_document :: PredicateNodeDTO where
  "sample_document = DTO_And [DTO_Methods [''GET'', ''POST''], DTO_Not (DTO_Not (DTO_Header (DTO_Exact ''host'' ''a'')))]"

theorem to_core_meaning_witness:
  "eval_node (method_meaning GET) (\<lambda>m. m = HM_Exact ''host'' ''a'') (PAnd [PMethod (MM_AnyOf [GET, POST]), PHeader (HM_Exact ''host'' ''a'')])
   = document_meaning ascii_env GET (\<lambda>m. m = HM_Exact ''host'' ''a'') sample_document"
proof (rule to_core_meaning [of ascii_env regex_limits_default])
  have "to_ascii_lowercase ''host'' = ''host''" by (simp add: to_ascii_lowercase_def to_ascii_lowercase_char_def)
  then show "to_core ascii_env regex_limits_default sample_document
      = Inr (PAnd [PMethod (MM_AnyOf [GET, POST]), PHeader (HM_Exact ''host'' ''a'')], True)"
    by (simp add: to_core_def sample_document_def predicate_http_method_def http_method_of_def ascii_env_def to_ascii_uppercase_def
        predicate_header_name_def header_name_char_def predicate_header_value_def fail_if_def normalize_and_def method_cost_def)
qed (simp add: sample_document_def)

text \<open>
  An \<open>absent\<close> matcher is converted to its opposite. The tree for "this header is absent", explicit or in the legacy form, matches
  exactly the requests that carry the header.
\<close>

theorem absent_becomes_present:
  assumes "predicate_header_name name = Inr ()"
  shows "to_core env limits (DTO_Header (DTO_Absent name)) = Inr (PHeader (HM_Present (to_ascii_lowercase name)), True)
    \<and> desugar_p0_headers env limits [V1 \<lparr>hl_name = name, hl_value = None, hl_regex = False, hl_prefix = False, hl_absent = True\<rparr>]
      = Inr (PHeader (HM_Present (to_ascii_lowercase name)), True)
    \<and> eval_node m h (PHeader (HM_Present (to_ascii_lowercase name))) = (\<not> header_meaning h (DTO_Absent name))"
  using assms
  by (auto simp: to_core_def desugar_p0_headers_def legacy_to_core_def and_then_eq_Inr fail_if_eq_Inr predicate_header_name_def
      split: if_splits)

theorem absent_becomes_present_witness:
  "to_core ascii_env regex_limits_default (DTO_Header (DTO_Absent ''x-debug'')) = Inr (PHeader (HM_Present ''x-debug''), True)"
proof -
  have "to_ascii_lowercase ''x-debug'' = ''x-debug''" by (simp add: to_ascii_lowercase_def to_ascii_lowercase_char_def)
  with absent_becomes_present [of "''x-debug''" ascii_env regex_limits_default] show ?thesis
    by (simp add: predicate_header_name_def header_name_char_def)
qed

end
