(* ===== verification/Runtime_State.thy ===== *)
theory Runtime_State
  imports Router Proxy_Service
begin

text \<open>
  The runtime state of the proxy: the client identities of upstreams (crates/pavis/src/upstream/client\_identity.rs), the
  manager of the clusters (upstream.rs), the materialisation of a validated configuration (state.rs) and the DNS resolver
  (upstream/resolver.rs). OpenSSL, reqwest, the
  system's resolver and hickory are parameters. Reloads, resolver tasks and the operations of requests interleave as the steps of
  a relation.
\<close>

section \<open>Client identities (upstream/client\_identity.rs)\<close>

record ('cert, 'key, 'id, 'root) tls_lib =
  file_read :: "string \<Rightarrow> string + bytes"
  stack_from_pem :: "bytes \<Rightarrow> string + 'cert list"
  private_key_from_pem :: "bytes \<Rightarrow> string + 'key"
  cert_to_pem :: "'cert \<Rightarrow> string + bytes"
  key_to_pkcs8 :: "'key \<Rightarrow> string + bytes"
  temp_write :: "bytes \<Rightarrow> string + unit"
  identity_from_pkcs8 :: "bytes \<Rightarrow> bytes \<Rightarrow> string + 'id"
  certificate_from_pem :: "bytes \<Rightarrow> string + 'root"

record ('cert, 'key, 'id, 'root) ClientIdentityMaterials =
  client_cert_key :: "('cert list \<times> 'key) option"
  ca_bundle :: "'cert list option"
  health_identity :: "'id option"
  health_root_certificates :: "'root list"

definition materials_default :: "('cert, 'key, 'id, 'root) ClientIdentityMaterials" where
  "materials_default = \<lparr>client_cert_key = None, ca_bundle = None, health_identity = None, health_root_certificates = []\<rparr>"

definition build_reqwest_identity ::
  "('cert, 'key, 'id, 'root) tls_lib \<Rightarrow> 'cert \<Rightarrow> 'key \<Rightarrow> 'cert list \<Rightarrow> string + 'id option" where
  "build_reqwest_identity lib leaf key chain =
     and_then (cert_to_pem lib leaf) (\<lambda>leaf_pem.
     and_then (try_map (cert_to_pem lib) chain) (\<lambda>pems.
       let cert_bundle = leaf_pem @ concat pems in
     and_then (key_to_pkcs8 lib key) (\<lambda>key_pem.
     and_then (temp_write lib cert_bundle) (\<lambda>_.
     and_then (temp_write lib key_pem) (\<lambda>_.
     and_then (identity_from_pkcs8 lib cert_bundle key_pem) (\<lambda>identity. Inr (Some identity)))))))"

text \<open>The certificates for the upstream connection and the rest of the chain for the health client.\<close>

definition select_chain ::
  "('cert, 'key, 'id, 'root) tls_lib \<Rightarrow> ClientCertChain \<Rightarrow> 'cert list \<Rightarrow> string + 'cert list \<times> 'cert list" where
  "select_chain lib chain parsed =
     and_then (case chain of
         Chain_Embedded \<Rightarrow> Inr parsed
       | _ \<Rightarrow> (if length parsed \<noteq> 1 then Inl ''client cert must contain exactly one certificate'' else Inr [hd parsed])) (\<lambda>selected.
       case chain of
         Chain_File path \<Rightarrow>
           and_then (file_read lib path) (\<lambda>pem.
           and_then (stack_from_pem lib pem) (\<lambda>certs.
           and_then (fail_if (certs = []) ''client cert chain is empty'') (\<lambda>_. Inr (selected @ certs, certs))))
       | Chain_Embedded \<Rightarrow> Inr (selected, drop 1 selected)
       | Chain_None \<Rightarrow> Inr (selected, []))"

definition load_client_cert ::
  "('cert, 'key, 'id, 'root) tls_lib \<Rightarrow> ClientCert \<Rightarrow> string + ('cert list \<times> 'key) option \<times> 'id option" where
  "load_client_cert lib cert =
     (case cert of
        ClientCert_Disabled \<Rightarrow> Inr (None, None)
      | ClientCert_Enabled cert_path key_path chain \<Rightarrow>
          and_then (file_read lib cert_path) (\<lambda>cert_pem.
          and_then (stack_from_pem lib cert_pem) (\<lambda>parsed.
          and_then (fail_if (parsed = []) ''client cert bundle is empty'') (\<lambda>_.
          and_then (select_chain lib chain parsed) (\<lambda>(selected, identity_chain).
          and_then (file_read lib key_path) (\<lambda>key_pem.
          and_then (private_key_from_pem lib key_pem) (\<lambda>key.
          and_then (case selected of leaf # _ \<Rightarrow> Inr leaf | [] \<Rightarrow> Inl ''missing client certificate'') (\<lambda>leaf.
          and_then (build_reqwest_identity lib leaf key identity_chain) (\<lambda>identity.
            Inr (Some (selected, key), identity))))))))))"

definition load_ca_materials :: "('cert, 'key, 'id, 'root) tls_lib \<Rightarrow> UpstreamCa \<Rightarrow> string + 'cert list option \<times> 'root list" where
  "load_ca_materials lib ca =
     (case ca of
        Ca_System \<Rightarrow> Inr (None, [])
      | Ca_File path \<Rightarrow>
          and_then (file_read lib path) (\<lambda>pem.
          and_then (stack_from_pem lib pem) (\<lambda>certs.
          and_then (fail_if (certs = []) ''CA bundle is empty'') (\<lambda>_.
          and_then (certificate_from_pem lib pem) (\<lambda>root. Inr (Some certs, [root]))))))"

definition materialize_identity ::
  "('cert, 'key, 'id, 'root) tls_lib \<Rightarrow> Upstream \<Rightarrow> string + ('cert, 'key, 'id, 'root) ClientIdentityMaterials" where
  "materialize_identity lib upstream =
     (case u_tls upstream of
        TlsPolicy_Disabled \<Rightarrow> Inr materials_default
      | TlsPolicy_Enabled s \<Rightarrow>
          and_then (load_client_cert lib (tls_cert s)) (\<lambda>(cert_key, identity).
          and_then (load_ca_materials lib (tls_ca s)) (\<lambda>(bundle, roots).
            Inr \<lparr>client_cert_key = cert_key, ca_bundle = bundle, health_identity = identity, health_root_certificates = roots\<rparr>)))"

section \<open>The manager (upstream.rs)\<close>

type_synonym 'm manager = "string \<rightharpoonup> Cluster \<times> 'm"

definition manager_new ::
  "('cert, 'key, 'id, 'root) tls_lib \<Rightarrow> instant \<Rightarrow> Upstream list \<Rightarrow> string + ('cert, 'key, 'id, 'root) ClientIdentityMaterials manager" where
  "manager_new lib now us =
     try_fold (\<lambda>clusters u. and_then (materialize_identity lib u) (\<lambda>materials.
       Inr (clusters(u_name u \<mapsto> (cluster_new now u, materials))))) Map.empty us"

section \<open>Materialisation (state.rs)\<close>

text \<open>\<open>system_resolve\<close> is \<open>to_socket_addrs\<close>.\<close>

type_synonym system_resolve = "Hostname \<Rightarrow> Port \<Rightarrow> string + SocketAddr list"

definition resolve_dns_once :: "system_resolve \<Rightarrow> Hostname \<Rightarrow> Port \<Rightarrow> string + SocketAddr list" where
  "resolve_dns_once resolve host port =
     and_then (resolve host port) (\<lambda>addrs. if addrs = [] then Inl ''DNS resolution returned no addresses'' else Inr addrs)"

definition materialize_endpoint :: "system_resolve \<Rightarrow> Endpoint \<Rightarrow> string + Endpoint list" where
  "materialize_endpoint resolve endpoint =
     (case ep_address endpoint of
        Endpoint_Ip _ _ \<Rightarrow> Inr [endpoint]
      | Endpoint_Dns host port \<Rightarrow>
          and_then (resolve_dns_once resolve host port) (\<lambda>addrs.
            Inr (map (\<lambda>a. \<lparr>ep_address = Endpoint_Ip (sa_ip a) port, ep_weight = ep_weight endpoint\<rparr>) addrs)))"

definition materialize_all_endpoints :: "system_resolve \<Rightarrow> Upstream \<Rightarrow> string + Endpoint list" where
  "materialize_all_endpoints resolve upstream =
     and_then (try_map (materialize_endpoint resolve) (u_endpoints upstream)) (\<lambda>ess.
       if concat ess = [] then Inl ''Upstream has no resolvable endpoints'' else Inr (concat ess))"

definition is_ip :: "Endpoint \<Rightarrow> bool" where
  "is_ip e = (case ep_address e of Endpoint_Ip _ _ \<Rightarrow> True | Endpoint_Dns _ _ \<Rightarrow> False)"

definition materialize_logical_upstream :: "system_resolve \<Rightarrow> Upstream \<Rightarrow> string + Endpoint list" where
  "materialize_logical_upstream resolve upstream =
     (case List.find is_ip (u_endpoints upstream) of
        Some e \<Rightarrow> Inr [e]
      | None \<Rightarrow>
          and_then (ok_or (List.find (\<lambda>e. \<not> is_ip e) (u_endpoints upstream))
              ''Logical DNS upstream must define at least one DNS endpoint'') (\<lambda>dns.
          and_then (materialize_endpoint resolve dns) (\<lambda>resolved.
            case resolved of
              [] \<Rightarrow> Inl ''DNS resolution returned no addresses for logical upstream''
            | e # _ \<Rightarrow> Inr [e])))"

definition materialize_upstreams :: "system_resolve \<Rightarrow> Upstream list \<Rightarrow> string + (string \<rightharpoonup> Endpoint list)" where
  "materialize_upstreams resolve us =
     try_fold (\<lambda>resolved u.
       and_then (case u_discovery u of
           Discovery_Logical \<Rightarrow> materialize_logical_upstream resolve u
         | _ \<Rightarrow> materialize_all_endpoints resolve u) (\<lambda>es. Inr (resolved(u_name u \<mapsto> es)))) Map.empty us"

text \<open>\<open>update_endpoints\<close> of the cluster with a name, when the manager has one.\<close>

definition manager_update :: "instant \<Rightarrow> (string \<rightharpoonup> Endpoint list) \<Rightarrow> 'm manager \<Rightarrow> 'm manager" where
  "manager_update now resolved clusters = (\<lambda>name.
     case clusters name of
       None \<Rightarrow> None
     | Some (c, m) \<Rightarrow> Some (case resolved name of None \<Rightarrow> c | Some es \<Rightarrow> update_endpoints now es c, m))"

record 'm RuntimeState =
  rs_config :: RuntimeConfig
  rs_router :: Router
  rs_manager :: "'m manager"
  rs_config_version :: "u64 option"

definition from_config ::
  "regex_lib \<Rightarrow> ('cert, 'key, 'id, 'root) tls_lib \<Rightarrow> system_resolve \<Rightarrow> instant \<Rightarrow> RuntimeConfig
   \<Rightarrow> string + ('cert, 'key, 'id, 'root) ClientIdentityMaterials RuntimeState" where
  "from_config rx lib resolve now config =
     (let limits = regex_limits (features config) in
      and_then (validate_and_compile_regexes rx (routes config) limits) (\<lambda>cache.
      and_then (with_regex rx (routes config) cache limits) (\<lambda>router.
      and_then (materialize_upstreams resolve (upstreams config)) (\<lambda>resolved.
      and_then (manager_new lib now (upstreams config)) (\<lambda>clusters.
        Inr \<lparr>rs_config = config, rs_router = router, rs_manager = manager_update now resolved clusters, rs_config_version = None\<rparr>)))))"

section \<open>The resolver (upstream/resolver.rs)\<close>

text \<open>
  \<open>lookup\<close> is hickory's \<open>lookup_ip\<close>. The port of a resolved address is the endpoint's, which is not zero by its
  type, so \<open>endpoint_port\<close> never panics.
\<close>

type_synonym lookup = "Hostname \<Rightarrow> string + IpAddr list"

definition resolve_dns :: "lookup \<Rightarrow> Hostname \<Rightarrow> Port \<Rightarrow> string + SocketAddr list" where
  "resolve_dns lookup host port = and_then (lookup host) (\<lambda>ips. Inr (map (\<lambda>ip. \<lparr>sa_ip = ip, sa_port = port\<rparr>) ips))"

fun select_existing_or_first :: "SocketAddr list \<Rightarrow> Endpoint list \<Rightarrow> SocketAddr option" where
  "select_existing_or_first resolved [] = None"
| "select_existing_or_first resolved (e # es) =
     (case ep_address e of
        Endpoint_Ip ip port \<Rightarrow>
          (if \<lparr>sa_ip = ip, sa_port = port\<rparr> \<in> set resolved then Some \<lparr>sa_ip = ip, sa_port = port\<rparr>
           else select_existing_or_first resolved es)
      | Endpoint_Dns _ _ \<Rightarrow> select_existing_or_first resolved es)"

definition resolve_logical_dns :: "lookup \<Rightarrow> Upstream \<Rightarrow> Endpoint list \<Rightarrow> string + Endpoint list option" where
  "resolve_logical_dns lookup config current =
     (case filter (\<lambda>e. \<not> is_ip e) (u_endpoints config) of
        [] \<Rightarrow> Inr None
      | e # _ \<Rightarrow>
          (case ep_address e of
             Endpoint_Ip _ _ \<Rightarrow> Inr None
           | Endpoint_Dns host port \<Rightarrow>
               and_then (resolve_dns lookup host port) (\<lambda>resolved.
                 case resolved of
                   [] \<Rightarrow> Inr None
                 | first # _ \<Rightarrow>
                     let selected = unwrap_or (select_existing_or_first resolved current) first in
                     Inr (Some [\<lparr>ep_address = Endpoint_Ip (sa_ip selected) (sa_port selected), ep_weight = ep_weight e\<rparr>]))))"

fun strict_loop :: "lookup \<Rightarrow> Endpoint list \<Rightarrow> Endpoint list \<Rightarrow> string + Endpoint list option" where
  "strict_loop lookup [] acc = Inr (if acc = [] then None else Some acc)"
| "strict_loop lookup (e # es) acc =
     (case ep_address e of
        Endpoint_Ip ip port \<Rightarrow> strict_loop lookup es (acc @ [e])
      | Endpoint_Dns host port \<Rightarrow>
          and_then (resolve_dns lookup host port) (\<lambda>addrs.
            if addrs = [] then Inr None
            else strict_loop lookup es
              (acc @ map (\<lambda>a. \<lparr>ep_address = Endpoint_Ip (sa_ip a) (sa_port a), ep_weight = ep_weight e\<rparr>) addrs)))"

definition resolve_strict_dns :: "lookup \<Rightarrow> Upstream \<Rightarrow> string + Endpoint list option" where
  "resolve_strict_dns lookup config = strict_loop lookup (u_endpoints config) []"

record resolve_task =
  rt_name :: string
  rt_config :: Upstream
  rt_current :: "Endpoint list"

definition resolve_upstream :: "lookup \<Rightarrow> resolve_task \<Rightarrow> Endpoint list option" where
  "resolve_upstream lookup t =
     (case (case u_discovery (rt_config t) of
          Discovery_Logical \<Rightarrow> resolve_logical_dns lookup (rt_config t) (rt_current t)
        | Discovery_Strict _ \<Rightarrow> resolve_strict_dns lookup (rt_config t)
        | Discovery_Static \<Rightarrow> Inr None) of
        Inr r \<Rightarrow> r
      | Inl _ \<Rightarrow> None)"

text \<open>The tasks of one round: one for each cluster that is discovered, with what the cluster was when the round began.\<close>

definition round_task :: "string \<Rightarrow> Cluster \<Rightarrow> resolve_task option" where
  "round_task name c =
     (case u_discovery (cl_config c) of
        Discovery_Static \<Rightarrow> None
      | _ \<Rightarrow> Some \<lparr>rt_name = name, rt_config = cl_config c, rt_current = hs_endpoints (cl_health c)\<rparr>)"

definition round_tasks :: "'m manager \<Rightarrow> resolve_task set" where
  "round_tasks clusters = {t. \<exists>name c m. clusters name = Some (c, m) \<and> round_task name c = Some t}"

section \<open>The upstreams of a running proxy\<close>

record 'm usys =
  us_state :: "'m RuntimeState"
  us_tasks :: "resolve_task list"

definition with_manager :: "('m manager \<Rightarrow> 'm manager) \<Rightarrow> 'm usys \<Rightarrow> 'm usys" where
  "with_manager f s = s\<lparr>us_state := (us_state s)\<lparr>rs_manager := f (rs_manager (us_state s))\<rparr>\<rparr>"

text \<open>
  A reload installs a state built from a configuration; the resolver starts a round when the last one is over; its tasks
  finish in any order, in whatever state is then installed; requests and health checks operate on the clusters.
\<close>

inductive upstream_step ::
  "regex_lib \<Rightarrow> ('cert, 'key, 'id, 'root) tls_lib \<Rightarrow> ('cert, 'key, 'id, 'root) ClientIdentityMaterials usys
   \<Rightarrow> ('cert, 'key, 'id, 'root) ClientIdentityMaterials usys \<Rightarrow> bool" for rx lib where
  reload: "from_config rx lib resolve now config = Inr st \<Longrightarrow> upstream_step rx lib s (s\<lparr>us_state := st\<rparr>)"
| round: "us_tasks s = [] \<Longrightarrow> set ts = round_tasks (rs_manager (us_state s)) \<Longrightarrow> upstream_step rx lib s (s\<lparr>us_tasks := ts\<rparr>)"
| resolved: "t \<in> set (us_tasks s) \<Longrightarrow> resolve_upstream lookup t = Some es \<Longrightarrow>
    upstream_step rx lib s (with_manager (manager_update now [rt_name t \<mapsto> es]) (s\<lparr>us_tasks := remove1 t (us_tasks s)\<rparr>))"
| unresolved: "t \<in> set (us_tasks s) \<Longrightarrow> upstream_step rx lib s (s\<lparr>us_tasks := remove1 t (us_tasks s)\<rparr>)"
| operated: "rs_manager (us_state s) name = Some (c, m) \<Longrightarrow> (\<forall>es. op \<noteq> Op_update es) \<Longrightarrow>
    upstream_step rx lib s (with_manager (\<lambda>clusters. clusters(name \<mapsto> (run_op now op c, m))) s)"

text \<open>The state the proxy starts with: no upstreams.\<close>

definition default_config :: RuntimeConfig where
  "default_config = \<lparr>listeners = [\<lparr>l_name = ''default'', l_address = \<lparr>sa_ip = V4 0x7F000001, sa_port = 0\<rparr>, l_workers = Workers_Auto,
       l_tls = TlsConfig_Disabled\<rparr>],
     telemetry = \<lparr>t_level = Log_Info, t_pingora = Log_Error, t_service_name = ''pavis'', t_metrics = Metrics_Disabled,
       t_access_log = AccessLog_Disabled, t_tracing = Tracing_Disabled\<rparr>,
     upstreams = [], routes = [], shutdown = Shutdown_Disabled, admin = Admin_Disabled, features = routing_features_default,
     required_capabilities = []\<rparr>"

definition empty_router :: Router where
  "empty_router = \<lparr>exact_hosts = Map.empty, wildcard_hosts = [], router_regex_cache = Map.empty,
     router_regex_limits = regex_limits_default\<rparr>"

definition state_default :: "'m RuntimeState" where
  "state_default = \<lparr>rs_config = default_config, rs_router = empty_router, rs_manager = Map.empty, rs_config_version = None\<rparr>"

abbreviation upstream_run where
  "upstream_run rx lib \<equiv> (upstream_step rx lib)\<^sup>*\<^sup>* \<lparr>us_state = state_default, us_tasks = []\<rparr>"

section \<open>Materialised clusters\<close>

text \<open>
  A cluster is materialised when it has endpoints, all of them addresses, and its snapshot only holds endpoints it has. What
  the health operations rely on: they leave the endpoints alone.
\<close>

definition materialized :: "Cluster \<Rightarrow> bool" where
  "materialized c \<longleftrightarrow> hs_endpoints (cl_health c) \<noteq> [] \<and> list_all is_ip (hs_endpoints (cl_health c))
     \<and> set (cs_endpoints (cl_state c)) \<subseteq> set (hs_endpoints (cl_health c))"

lemma eligible_subset: "set (eligible_endpoints now h) \<subseteq> set (hs_endpoints h)"
  by (auto simp: eligible_endpoints_def)

lemma clear_endpoints [simp]: "hs_endpoints (fst (clear_expired_ejections now h)) = hs_endpoints h"
  by (simp add: clear_expired_ejections_def)

lemma refresh_materialized:
  "hs_endpoints h \<noteq> [] \<Longrightarrow> list_all is_ip (hs_endpoints h) \<Longrightarrow> materialized (refresh_state_from_health now h c)"
  using eligible_subset by (fastforce simp: materialized_def refresh_state_from_health_def Let_def)

lemma update_materialized: "es \<noteq> [] \<Longrightarrow> list_all is_ip es \<Longrightarrow> materialized (update_endpoints now es c)"
  by (simp add: update_endpoints_def refresh_materialized health_update_endpoints_def)

locale endpoint_neutral =
  fixes op :: "HealthState \<Rightarrow> HealthState \<times> bool"
  assumes keeps: "hs_endpoints (fst (op h)) = hs_endpoints h"
begin

lemma with_health_materialized:
  assumes "materialized c"
  shows "materialized (with_health now op c)"
proof (cases "op (cl_health c)")
  case (Pair h changed)
  with keeps [of "cl_health c"] have "hs_endpoints h = hs_endpoints (cl_health c)" by simp
  with assms Pair refresh_materialized [of h now c] show ?thesis
    by (cases changed) (simp_all add: with_health_def materialized_def)
qed

end

interpretation mark: endpoint_neutral "mark_active_health addr healthy" for addr healthy
  by unfold_locales (simp add: mark_active_health_def set_status_def Let_def split: option.split)

interpretation success: endpoint_neutral "record_success addr" for addr
  by unfold_locales (simp add: record_success_def set_status_def Let_def split: option.split)

interpretation failure: endpoint_neutral "record_failure now addr threshold eject_for" for now addr threshold eject_for
  by unfold_locales (simp add: record_failure_def set_status_def Let_def split: option.split)

interpretation clear: endpoint_neutral "clear_expired_ejections now" for now
  by unfold_locales simp

lemma select_materialized: "materialized c \<Longrightarrow> materialized (snd (select_endpoint now pick c))"
  using clear.with_health_materialized [of c now]
  by (auto simp: select_endpoint_def refresh_expired_ejections_def Let_def materialized_def split: prod.splits)

lemma run_op_materialized:
  assumes "materialized c" "\<forall>es. op \<noteq> Op_update es"
  shows "materialized (run_op now op c)"
  using assms
  by (cases op)
    (auto simp: select_materialized set_active_health_def cluster_record_outcome_def mark.with_health_materialized
      success.with_health_materialized failure.with_health_materialized
      split: ActiveHealthCheck.splits OutlierDetectionPolicy.splits UpstreamOutcome.splits)

lemma selected_is_ip:
  assumes "materialized c" "select_endpoint now pick c = (Some e, c')"
  shows "is_ip e"
proof -
  let ?d = "refresh_expired_ejections now c"
  have "materialized ?d"
    using clear.with_health_materialized [OF assms(1)] by (simp add: refresh_expired_ejections_def)
  moreover have "e \<in> set (cs_endpoints (cl_state ?d))"
    using assms(2) by (auto simp: select_endpoint_def Let_def split: if_splits prod.splits)
  ultimately show ?thesis by (auto simp: materialized_def list_all_iff)
qed

section \<open>A built state is materialised\<close>

lemma materialize_endpoint_ip:
  "materialize_endpoint resolve e = Inr es \<Longrightarrow> es \<noteq> [] \<and> list_all is_ip es"
  by (auto simp: materialize_endpoint_def resolve_dns_once_def and_then_eq_Inr list_all_iff is_ip_def split: EndpointAddr.splits if_splits)

lemma materialize_all_ip:
  assumes "materialize_all_endpoints resolve u = Inr es"
  shows "es \<noteq> [] \<and> list_all is_ip es"
proof -
  from assms obtain ess where ess: "try_map (materialize_endpoint resolve) (u_endpoints u) = Inr ess" "es = concat ess" "es \<noteq> []"
    by (auto simp: materialize_all_endpoints_def and_then_eq_Inr split: if_splits)
  moreover have "list_all is_ip xs" if "xs \<in> set ess" for xs
    using try_map_elem [OF ess(1) that] materialize_endpoint_ip by blast
  ultimately show ?thesis by (simp add: list_all_iff)
qed

lemma materialize_logical_ip:
  assumes "materialize_logical_upstream resolve u = Inr es"
  shows "es \<noteq> [] \<and> list_all is_ip es"
proof (cases "List.find is_ip (u_endpoints u)")
  case None
  with assms obtain dns xs where xs: "materialize_endpoint resolve dns = Inr xs"
    "(case xs of [] \<Rightarrow> Inl ''DNS resolution returned no addresses for logical upstream'' | e # _ \<Rightarrow> Inr [e]) = Inr es"
    by (auto simp: materialize_logical_upstream_def and_then_eq_Inr)
  with materialize_endpoint_ip [OF xs(1)] show ?thesis by (cases xs) auto
next
  case (Some e)
  then have "is_ip e" by (auto simp: find_Some_iff)
  with assms Some show ?thesis by (auto simp: materialize_logical_upstream_def)
qed

text \<open>A map filled from a list holds one entry for each key, each computed from an element.\<close>

lemma try_fold_insert:
  assumes "try_fold (\<lambda>m x. and_then (f x) (\<lambda>y. Inr (m(k x \<mapsto> g x y)))) m0 xs = Inr m"
  shows "dom m = dom m0 \<union> k ` set xs \<and> (\<forall>v\<in>ran m. v \<in> ran m0 \<or> (\<exists>x\<in>set xs. \<exists>y. f x = Inr y \<and> v = g x y))"
  using assms
proof (induction xs arbitrary: m0)
  case (Cons x xs)
  from Cons.prems obtain y where y: "f x = Inr y"
    and rest: "try_fold (\<lambda>m x. and_then (f x) (\<lambda>y. Inr (m(k x \<mapsto> g x y)))) (m0(k x \<mapsto> g x y)) xs = Inr m"
    unfolding try_fold.simps and_then_eq_Inr by auto
  have "ran (m0(k x \<mapsto> g x y)) \<subseteq> insert (g x y) (ran m0)" by (auto simp: ran_def)
  with Cons.IH [OF rest] y show ?case unfolding dom_fun_upd option.distinct if_False by (auto simp del: fun_upd_apply)
qed simp

lemma materialize_upstreams_ip:
  assumes "materialize_upstreams resolve us = Inr r"
  shows "dom r = u_name ` set us \<and> (\<forall>es\<in>ran r. es \<noteq> [] \<and> list_all is_ip es)"
proof -
  let ?f = "\<lambda>u. case u_discovery u of Discovery_Logical \<Rightarrow> materialize_logical_upstream resolve u
         | _ \<Rightarrow> materialize_all_endpoints resolve u"
  have "es \<noteq> [] \<and> list_all is_ip es" if "?f u = Inr es" for u es
    using that by (cases "u_discovery u") (simp_all add: materialize_all_ip materialize_logical_ip)
  with try_fold_insert [of ?f u_name "\<lambda>_ es. es", OF assms [unfolded materialize_upstreams_def]] show ?thesis
    by (simp only: dom_empty ran_empty empty_iff Un_empty_left simp_thms) blast
qed

lemma manager_new_dom: "manager_new lib now us = Inr m \<Longrightarrow> dom m = u_name ` set us"
  using try_fold_insert [of "materialize_identity lib" u_name "\<lambda>u materials. (cluster_new now u, materials)" Map.empty us m]
  by (simp add: manager_new_def)

lemma from_config_materialized:
  assumes "from_config rx lib resolve now config = Inr st" "rs_manager st name = Some (c, m)"
  shows "materialized c"
proof -
  from assms(1) obtain resolved clusters where
    r: "materialize_upstreams resolve (upstreams config) = Inr resolved" and
    c: "manager_new lib now (upstreams config) = Inr clusters" and
    st: "rs_manager st = manager_update now resolved clusters"
    by (auto simp: from_config_def Let_def and_then_eq_Inr)
  from assms(2) obtain c0 where c0: "clusters name = Some (c0, m)"
      "c = (case resolved name of None \<Rightarrow> c0 | Some es \<Rightarrow> update_endpoints now es c0)"
    by (auto simp: st manager_update_def split: option.splits)
  have "dom resolved = dom clusters" "\<forall>es\<in>ran resolved. es \<noteq> [] \<and> list_all is_ip es"
    using materialize_upstreams_ip [OF r] manager_new_dom [OF c] by simp_all
  with c0 obtain es where "resolved name = Some es" "es \<noteq> [] \<and> list_all is_ip es"
    by (metis domD domI ranI)
  with c0 show ?thesis by (simp add: update_materialized)
qed

section \<open>Every step keeps the clusters materialised\<close>

lemma strict_loop_ip:
  "strict_loop lookup es acc = Inr (Some r) \<Longrightarrow> list_all is_ip acc \<Longrightarrow> r \<noteq> [] \<and> list_all is_ip r"
proof (induction lookup es acc rule: strict_loop.induct)
  case (2 lookup e es acc)
  show ?case
  proof (cases "ep_address e")
    case (Endpoint_Ip ip port)
    with 2 show ?thesis by (simp add: is_ip_def)
  next
    case (Endpoint_Dns host port)
    with 2(3) obtain addrs where "resolve_dns lookup host port = Inr addrs" "addrs \<noteq> []"
      "strict_loop lookup es (acc @ map (\<lambda>a. \<lparr>ep_address = Endpoint_Ip (sa_ip a) (sa_port a), ep_weight = ep_weight e\<rparr>) addrs) = Inr (Some r)"
      by (auto simp: and_then_eq_Inr split: if_splits)
    with 2(2) [OF Endpoint_Dns] 2(4) show ?thesis by (simp add: list_all_iff is_ip_def ball_Un)
  qed
qed (simp split: if_splits)

lemma resolve_logical_ip:
  assumes "resolve_logical_dns lookup config current = Inr (Some r)"
  shows "r \<noteq> [] \<and> list_all is_ip r"
proof -
  from assms obtain e es where f: "filter (\<lambda>e. \<not> is_ip e) (u_endpoints config) = e # es"
    by (auto simp: resolve_logical_dns_def split: list.splits)
  with assms obtain host port resolved where "ep_address e = Endpoint_Dns host port" "resolve_dns lookup host port = Inr resolved"
    "(case resolved of [] \<Rightarrow> Inr None | first # _ \<Rightarrow>
       let selected = unwrap_or (select_existing_or_first resolved current) first in
       Inr (Some [\<lparr>ep_address = Endpoint_Ip (sa_ip selected) (sa_port selected), ep_weight = ep_weight e\<rparr>]))
     = (Inr (Some r) :: string + Endpoint list option)"
    by (cases "ep_address e") (auto simp: resolve_logical_dns_def and_then_eq_Inr)
  then show ?thesis by (cases resolved) (auto simp: Let_def is_ip_def)
qed

lemma resolve_upstream_ip: "resolve_upstream lookup t = Some es \<Longrightarrow> es \<noteq> [] \<and> list_all is_ip es"
  using strict_loop_ip [of lookup "u_endpoints (rt_config t)" "[]" es] resolve_logical_ip [of lookup "rt_config t" "rt_current t" es]
  by (cases "u_discovery (rt_config t)") (auto simp: resolve_upstream_def resolve_strict_dns_def split: sum.splits)

definition clusters_materialized :: "'m manager \<Rightarrow> bool" where
  "clusters_materialized clusters \<longleftrightarrow> (\<forall>name c m. clusters name = Some (c, m) \<longrightarrow> materialized c)"

lemma manager_update_materialized:
  "clusters_materialized clusters \<Longrightarrow> es \<noteq> [] \<Longrightarrow> list_all is_ip es \<Longrightarrow>
     clusters_materialized (manager_update now [name \<mapsto> es] clusters)"
  by (auto simp: clusters_materialized_def manager_update_def update_materialized split: option.splits if_splits)

lemma upstream_step_materialized:
  "upstream_step rx lib s s' \<Longrightarrow> clusters_materialized (rs_manager (us_state s)) \<Longrightarrow> clusters_materialized (rs_manager (us_state s'))"
proof (induction rule: upstream_step.induct)
  case (reload resolve now config st s)
  then show ?case using from_config_materialized by (fastforce simp: clusters_materialized_def)
next
  case (resolved t s lookup es now)
  with resolve_upstream_ip show ?case by (simp add: with_manager_def manager_update_materialized)
next
  case (operated s name c m op now)
  then have "materialized (run_op now op c)" unfolding clusters_materialized_def using run_op_materialized by blast
  with operated.prems show ?case by (simp add: with_manager_def clusters_materialized_def)
qed simp_all

lemma upstream_run_materialized:
  assumes "upstream_run rx lib s"
  shows "clusters_materialized (rs_manager (us_state s))"
  using assms
proof (induction rule: rtranclp_induct)
  case base
  then show ?case by (simp add: state_default_def clusters_materialized_def)
qed (rule upstream_step_materialized)

section \<open>Properties\<close>

text \<open>
  Endpoints are resolved before they are used. In every state the proxy can reach, by reloads, rounds of the resolver whose
  tasks finish in any order, requests and health checks, an endpoint that a cluster selects has an address, so
  planning its connection never fails with \<open>NotMaterialized\<close>.
\<close>

theorem selected_endpoint_resolved:
  assumes "upstream_run rx lib s" "rs_manager (us_state s) name = Some (c, m)" "select_endpoint now pick c = (Some e, c')"
  shows "\<exists>ip port. ep_address e = Endpoint_Ip ip port \<and> resolve_endpoint_addr e = Inr \<lparr>sa_ip = ip, sa_port = port\<rparr>"
proof -
  have "materialized c" using upstream_run_materialized [OF assms(1)] assms(2) unfolding clusters_materialized_def by blast
  from selected_is_ip [OF this assms(3)] show ?thesis
    by (cases "ep_address e") (simp_all add: is_ip_def resolve_endpoint_addr_def)
qed

text \<open>
  Two configurations of one upstream: discovered by name, and listed by address. Their certificates are never read, as TLS is
  off.
\<close>

definition plain_tls_lib :: "(unit, unit, unit, unit) tls_lib" where
  "plain_tls_lib = \<lparr>file_read = \<lambda>_. Inr [], stack_from_pem = \<lambda>_. Inr [()], private_key_from_pem = Inr \<circ> (\<lambda>_. ()),
     cert_to_pem = \<lambda>_. Inr [], key_to_pkcs8 = \<lambda>_. Inr [], temp_write = \<lambda>_. Inr (), identity_from_pkcs8 = \<lambda>_ _. Inr (),
     certificate_from_pem = \<lambda>_. Inr ()\<rparr>"

definition discovered_upstream :: Upstream where
  "discovered_upstream = sample_upstream\<lparr>u_discovery := Discovery_Strict 60,
     u_endpoints := [\<lparr>ep_address = Endpoint_Dns ''old.example'' 80, ep_weight = 1\<rparr>]\<rparr>"

definition upstream_config :: "Upstream \<Rightarrow> RuntimeConfig" where
  "upstream_config u = default_config\<lparr>upstreams := [u]\<rparr>"

definition one_address :: system_resolve where
  "one_address = (\<lambda>_ port. Inr [\<lparr>sa_ip = V4 1, sa_port = port\<rparr>])"

definition address_endpoint :: "u32 \<Rightarrow> Endpoint" where
  "address_endpoint ip = \<lparr>ep_address = Endpoint_Ip (V4 ip) 80, ep_weight = 1\<rparr>"

definition upstream_state :: "Upstream \<Rightarrow> Endpoint list \<Rightarrow> (unit, unit, unit, unit) ClientIdentityMaterials RuntimeState" where
  "upstream_state u es = \<lparr>rs_config = upstream_config u, rs_router = empty_router,
     rs_manager = [u_name u \<mapsto> (update_endpoints 0 es (cluster_new 0 u), materials_default)], rs_config_version = None\<rparr>"

lemma from_upstream_config:
  assumes "u_tls u = TlsPolicy_Disabled" "u_discovery u \<noteq> Discovery_Logical" "materialize_all_endpoints resolve u = Inr es"
  shows "from_config literal_lib plain_tls_lib resolve 0 (upstream_config u) = Inr (upstream_state u es)"
proof -
  have "materialize_upstreams resolve [u] = Inr [u_name u \<mapsto> es]"
    using assms by (cases "u_discovery u") (simp_all add: materialize_upstreams_def)
  then show ?thesis
    using assms(1)
    by (auto simp: from_config_def upstream_config_def default_config_def validate_and_compile_regexes_def with_regex_def
        manager_new_def materialize_identity_def manager_update_def upstream_state_def empty_router_def
        routing_features_default_def regex_limits_default_def fun_eq_iff)
qed

lemma discovered_state:
  "from_config literal_lib plain_tls_lib one_address 0 (upstream_config discovered_upstream)
   = Inr (upstream_state discovered_upstream [address_endpoint 1])"
  by (rule from_upstream_config)
    (simp_all add: discovered_upstream_def sample_upstream_def materialize_all_endpoints_def materialize_endpoint_def resolve_dns_once_def
      one_address_def address_endpoint_def)

lemma listed_state:
  "from_config literal_lib plain_tls_lib one_address 0 (upstream_config sample_upstream)
   = Inr (upstream_state sample_upstream (u_endpoints sample_upstream))"
  by (rule from_upstream_config)
    (simp_all add: sample_upstream_def materialize_all_endpoints_def materialize_endpoint_def)

lemma run_reload:
  "upstream_run rx lib s \<Longrightarrow> from_config rx lib resolve now config = Inr st \<Longrightarrow> upstream_run rx lib (s\<lparr>us_state := st\<rparr>)"
  by (rule rtranclp.rtrancl_into_rtrancl) (auto intro: upstream_step.reload)

lemma discovered_run:
  "upstream_run literal_lib plain_tls_lib \<lparr>us_state = upstream_state discovered_upstream [address_endpoint 1], us_tasks = []\<rparr>"
  using run_reload [OF _ discovered_state, of "\<lparr>us_state = state_default, us_tasks = []\<rparr>"] by simp

theorem selected_endpoint_resolved_witness:
  "\<exists>ip port. ep_address (address_endpoint 1) = Endpoint_Ip ip port \<and> resolve_endpoint_addr (address_endpoint 1) = Inr \<lparr>sa_ip = ip, sa_port = port\<rparr>"
proof (rule selected_endpoint_resolved [OF discovered_run, where name = "''backend''" and now = 0 and pick = 0])
  let ?c = "update_endpoints 0 [address_endpoint 1] (cluster_new 0 discovered_upstream)"
  show "rs_manager (us_state \<lparr>us_state = upstream_state discovered_upstream [address_endpoint 1], us_tasks = []\<rparr>) ''backend''
      = Some (?c, materials_default)"
    by (simp add: upstream_state_def discovered_upstream_def sample_upstream_def)
  show "select_endpoint 0 0 ?c = (Some (address_endpoint 1), snd (select_endpoint 0 0 ?c))"
    by code_simp
qed

text \<open>
  A resolution that was started under an old configuration is stored into the cluster of the new one. The proxy can reach a
  state whose configuration lists the upstream's addresses, with no task of the resolver left and none to be started by its
  rounds, in which the cluster's only endpoint is one that the old configuration's name resolved to.
\<close>

theorem stale_resolution_overwrites:
  "\<exists>s c m. upstream_run literal_lib plain_tls_lib s \<and> rs_config (us_state s) = upstream_config sample_upstream
     \<and> rs_manager (us_state s) ''backend'' = Some (c, m) \<and> cl_config c = sample_upstream
     \<and> us_tasks s = [] \<and> round_tasks (rs_manager (us_state s)) = {}
     \<and> hs_endpoints (cl_health c) = [address_endpoint 9] \<and> address_endpoint 9 \<notin> set (u_endpoints sample_upstream)"
proof -
  let ?step = "upstream_step literal_lib plain_tls_lib"
  let ?t = "\<lparr>rt_name = ''backend'', rt_config = discovered_upstream, rt_current = [address_endpoint 1]\<rparr>"
  let ?old = "\<lparr>us_state = upstream_state discovered_upstream [address_endpoint 1], us_tasks = []\<rparr>"
  let ?new = "\<lparr>us_state = upstream_state sample_upstream (u_endpoints sample_upstream), us_tasks = [?t]\<rparr>"
  let ?c = "update_endpoints 1 [address_endpoint 9] (update_endpoints 0 (u_endpoints sample_upstream) (cluster_new 0 sample_upstream))"
  let ?s = "with_manager (manager_update 1 [''backend'' \<mapsto> [address_endpoint 9]]) (?new\<lparr>us_tasks := []\<rparr>)"
  have names: "u_name discovered_upstream = ''backend''" "u_name sample_upstream = ''backend''"
    "u_discovery discovered_upstream = Discovery_Strict 60" "u_discovery sample_upstream = Discovery_Static"
    by (simp_all add: discovered_upstream_def sample_upstream_def)
  have fields: "cl_config (update_endpoints now es c) = cl_config c" "hs_endpoints (cl_health (update_endpoints now es c)) = es"
    "cl_config (cluster_new now u) = u" for now es c u
    by (simp_all add: update_endpoints_def refresh_state_from_health_def Let_def health_update_endpoints_def cluster_new_def)
  have "round_tasks (rs_manager (us_state ?old)) = {?t}"
    by (auto simp: round_tasks_def round_task_def upstream_state_def names fields)
  then have "?step ?old (?old\<lparr>us_tasks := [?t]\<rparr>)" by (intro upstream_step.round) simp_all
  then have "upstream_run literal_lib plain_tls_lib (?old\<lparr>us_tasks := [?t]\<rparr>)"
    using discovered_run by (rule rtranclp.rtrancl_into_rtrancl [rotated])
  from run_reload [OF this listed_state] have new: "upstream_run literal_lib plain_tls_lib ?new" by simp
  have "resolve_upstream (\<lambda>_. Inr [V4 9]) ?t = Some [address_endpoint 9]"
    by (simp add: resolve_upstream_def resolve_strict_dns_def resolve_dns_def discovered_upstream_def sample_upstream_def address_endpoint_def)
  from upstream_step.resolved [of ?t ?new _ _ literal_lib plain_tls_lib 1, OF _ this] have "?step ?new ?s" by simp
  with new have "upstream_run literal_lib plain_tls_lib ?s" by (rule rtranclp.rtrancl_into_rtrancl)
  moreover have "rs_manager (us_state ?s) = [''backend'' \<mapsto> (?c, materials_default)]"
    by (auto simp: with_manager_def manager_update_def upstream_state_def names fun_eq_iff)
  moreover have "rs_config (us_state ?s) = upstream_config sample_upstream" "us_tasks ?s = []"
    by (simp_all add: with_manager_def upstream_state_def)
  moreover have "round_tasks [''backend'' \<mapsto> (?c, m)] = {}" for m :: "(unit, unit, unit, unit) ClientIdentityMaterials"
    by (auto simp: round_tasks_def round_task_def names fields split: if_splits)
  moreover have "address_endpoint 9 \<notin> set (u_endpoints sample_upstream)" "cl_config ?c = sample_upstream"
    by (simp_all add: address_endpoint_def sample_upstream_def fields)
  ultimately show ?thesis
    by (intro exI [of _ ?s] exI [of _ ?c] exI [of _ materials_default]) (simp add: fields)
qed

text \<open>
  Health probes present the certificates that requests present: the identity of the health client is made of exactly the
  certificates, in order, and the key of the upstream connection, whatever the form of the chain.
\<close>

theorem health_identity_agrees:
  assumes "load_client_cert lib cert = Inr (Some (certs, key), Some identity)"
  shows "\<exists>pems key_pem. try_map (cert_to_pem lib) certs = Inr pems \<and> key_to_pkcs8 lib key = Inr key_pem
    \<and> identity_from_pkcs8 lib (concat pems) key_pem = Inr identity"
proof -
  from assms obtain cp kp chain where cert: "cert = ClientCert_Enabled cp kp chain"
    by (cases cert) (auto simp: load_client_cert_def)
  from assms obtain parsed rest leaf where sel: "select_chain lib chain parsed = Inr (certs, rest)" and
    leaf: "(case certs of leaf # _ \<Rightarrow> Inr leaf | [] \<Rightarrow> Inl ''missing client certificate'') = Inr leaf" and
    identity: "build_reqwest_identity lib leaf key rest = Inr (Some identity)"
    by (auto simp: load_client_cert_def cert and_then_eq_Inr split: prod.splits)
  from leaf sel have certs: "certs = leaf # rest"
    by (cases chain; cases certs)
      (auto simp: select_chain_def and_then_eq_Inr fail_if_eq_Inr split: if_splits)
  from identity obtain leaf_pem pems key_pem where "cert_to_pem lib leaf = Inr leaf_pem" "try_map (cert_to_pem lib) rest = Inr pems"
    "key_to_pkcs8 lib key = Inr key_pem" "identity_from_pkcs8 lib (leaf_pem @ concat pems) key_pem = Inr identity"
    unfolding build_reqwest_identity_def Let_def and_then_eq_Inr sum.inject option.inject by blast
  then show ?thesis by (intro exI [of _ "leaf_pem # pems"] exI [of _ key_pem]) (simp add: certs)
qed

end
