(* ===== verification/Health_Monitor.thy ===== *)
theory Health_Monitor
  imports Runtime_State
begin

text \<open>
  The active health checks (crates/pavis/src/upstream/health.rs): the plan of an upstream's probes, the scheduler that
  issues the due ones on each tick, and the job that probes the endpoints of a cluster. The HTTP client is a parameter, random draws
  are arguments. Iterating over a hash map is pointwise, as no plan depends on another.
\<close>

section \<open>Plans\<close>

record 'client HealthProbePlan =
  hpp_upstream :: string
  hpp_path :: string
  hpp_interval :: duration
  hpp_scheme :: string
  hpp_client :: 'client

definition core_duration_to_std :: "Duration \<Rightarrow> duration" where
  "core_duration_to_std d = from_millis (unat d)"

text \<open>The client's timeout is also its connect timeout. Identity and roots are only given to a client for TLS.\<close>

definition build_health_client ::
  "(duration \<Rightarrow> 'id option \<Rightarrow> 'root list \<Rightarrow> string + 'client) \<Rightarrow> Upstream \<Rightarrow> duration \<Rightarrow> 'id option \<Rightarrow> 'root list \<Rightarrow> string + 'client" where
  "build_health_client client_build upstream timeout identity roots =
     (case u_tls upstream of
        TlsPolicy_Enabled _ \<Rightarrow> client_build timeout identity roots
      | TlsPolicy_Disabled \<Rightarrow> client_build timeout None [])"

definition plan_build ::
  "(duration \<Rightarrow> 'id option \<Rightarrow> 'root list \<Rightarrow> string + 'client) \<Rightarrow> string \<Rightarrow> Cluster \<Rightarrow> ('cert, 'key, 'id, 'root) ClientIdentityMaterials
   \<Rightarrow> string + 'client HealthProbePlan option" where
  "plan_build client_build name c m =
     (case u_health_check (cl_config c) of
        Health_Disabled \<Rightarrow> Inr None
      | Health_Enabled path interval timeout \<Rightarrow>
          let scheme = (case u_tls (cl_config c) of TlsPolicy_Disabled \<Rightarrow> ''http'' | TlsPolicy_Enabled _ \<Rightarrow> ''https'') in
          and_then (build_health_client client_build (cl_config c) (core_duration_to_std timeout) (health_identity m)
              (health_root_certificates m)) (\<lambda>client.
            Inr (Some \<lparr>hpp_upstream = name, hpp_path = path, hpp_interval = core_duration_to_std interval, hpp_scheme = scheme,
              hpp_client = client\<rparr>)))"

section \<open>Probes\<close>

definition endpoint_label :: "EndpointAddr \<Rightarrow> string" where
  "endpoint_label addr =
     (case addr of
        Endpoint_Ip ip port \<Rightarrow> ip_display ip @ '':'' @ to_dec (unat port)
      | Endpoint_Dns host port \<Rightarrow> host @ '':'' @ to_dec (unat port))"

definition dns_host :: "EndpointAddr \<Rightarrow> Hostname option" where
  "dns_host addr = (case addr of Endpoint_Dns host _ \<Rightarrow> Some host | Endpoint_Ip _ _ \<Rightarrow> None)"

definition health_check_host :: "Upstream \<Rightarrow> EndpointAddr \<Rightarrow> string option" where
  "health_check_host upstream endpoint =
     (case u_tls upstream of
        TlsPolicy_Enabled s \<Rightarrow>
          (case tls_canonical_sni s of
             CanonicalSni_Enabled name \<Rightarrow> Some name
           | CanonicalSni_Disabled \<Rightarrow>
               (case tls_sni s of
                  Sni_Name name \<Rightarrow> Some name
                | Sni_Auto \<Rightarrow> dns_host endpoint
                | Sni_Disabled \<Rightarrow> None))
      | TlsPolicy_Disabled \<Rightarrow> dns_host endpoint)"

definition probe_url :: "'client HealthProbePlan \<Rightarrow> EndpointAddr \<Rightarrow> string" where
  "probe_url plan addr = hpp_scheme plan @ ''://'' @ endpoint_label addr @ hpp_path plan"

text \<open>\<open>http_get\<close> sends a request with a \<open>Host\<close> header, if one is given, and returns the status of the answer.\<close>

definition probe ::
  "('client \<Rightarrow> string \<Rightarrow> string option \<Rightarrow> string + u16) \<Rightarrow> 'client HealthProbePlan \<Rightarrow> Upstream \<Rightarrow> Endpoint \<Rightarrow> string + bool" where
  "probe http_get plan config endpoint =
     and_then (http_get (hpp_client plan) (probe_url plan (ep_address endpoint)) (health_check_host config (ep_address endpoint)))
       (\<lambda>status. Inr (200 \<le> status \<and> status \<le> 299))"

text \<open>A job probes the endpoints the cluster has when it starts, one after the other, at the given instants.\<close>

definition run_probe_job ::
  "('client \<Rightarrow> string \<Rightarrow> string option \<Rightarrow> string + u16) \<Rightarrow> 'client HealthProbePlan \<Rightarrow> (nat \<Rightarrow> instant) \<Rightarrow> Cluster \<Rightarrow> Cluster" where
  "run_probe_job http_get plan at c =
     fold (\<lambda>(i, e) c. set_active_health (at i) (ep_address e)
         (case probe http_get plan (cl_config c) e of Inr healthy \<Rightarrow> healthy | Inl _ \<Rightarrow> False) c)
       (List.enumerate 0 (hs_endpoints (cl_health c))) c"

definition mark_all_unhealthy :: "instant \<Rightarrow> Endpoint list \<Rightarrow> Cluster \<Rightarrow> Cluster" where
  "mark_all_unhealthy now es c = fold (\<lambda>e. set_active_health now (ep_address e) False) es c"

section \<open>The scheduler\<close>

definition jitter_ms :: "duration \<Rightarrow> nat" where
  "jitter_ms base = min (as_millis base div 10) 50"

definition jitter_duration :: "duration \<Rightarrow> nat \<Rightarrow> duration" where
  "jitter_duration base draw = (if jitter_ms base = 0 then 0 else from_millis (draw mod (jitter_ms base + 1)))"

text \<open>The cluster of a plan is the one with its name in the state the plans were made from, so the state does not hold it again.\<close>

record 'client PlanState =
  ps_plan :: "'client HealthProbePlan"
  ps_next_due :: instant

definition is_due :: "instant \<Rightarrow> 'client PlanState \<Rightarrow> bool" where
  "is_due now st \<longleftrightarrow> now \<ge> ps_next_due st"

type_synonym 'client scheduler = "string \<rightharpoonup> 'client PlanState"

text \<open>An upstream whose plan cannot be built has its endpoints marked unhealthy.\<close>

definition scheduler_from_manager ::
  "(duration \<Rightarrow> 'id option \<Rightarrow> 'root list \<Rightarrow> string + 'client) \<Rightarrow> instant \<Rightarrow> (string \<Rightarrow> nat)
   \<Rightarrow> ('cert, 'key, 'id, 'root) ClientIdentityMaterials manager
   \<Rightarrow> 'client scheduler \<times> ('cert, 'key, 'id, 'root) ClientIdentityMaterials manager" where
  "scheduler_from_manager client_build now draw clusters =
     (\<lambda>name. case clusters name of
        None \<Rightarrow> None
      | Some (c, m) \<Rightarrow>
          (case plan_build client_build name c m of
             Inr (Some plan) \<Rightarrow> Some \<lparr>ps_plan = plan, ps_next_due = now + jitter_duration (hpp_interval plan) (draw name)\<rparr>
           | _ \<Rightarrow> None),
      \<lambda>name. case clusters name of
        None \<Rightarrow> None
      | Some (c, m) \<Rightarrow>
          (case plan_build client_build name c m of
             Inl _ \<Rightarrow> Some (mark_all_unhealthy now (hs_endpoints (cl_health c)) c, m)
           | _ \<Rightarrow> Some (c, m)))"

definition next_jobs ::
  "instant \<Rightarrow> (string \<Rightarrow> nat) \<Rightarrow> 'client scheduler \<Rightarrow> 'client scheduler \<times> (string \<rightharpoonup> 'client HealthProbePlan)" where
  "next_jobs now draw plans =
     (\<lambda>name. case plans name of
        None \<Rightarrow> None
      | Some st \<Rightarrow> Some (if is_due now st
          then st\<lparr>ps_next_due := now + hpp_interval (ps_plan st) + jitter_duration (hpp_interval (ps_plan st)) (draw name)\<rparr>
          else st),
      \<lambda>name. case plans name of
        None \<Rightarrow> None
      | Some st \<Rightarrow> if is_due now st then Some (ps_plan st) else None)"

text \<open>
  One tick of the monitor's loop: when another state was installed since the last tick (its identity has changed) the plans are made
  anew. The jobs to dispatch are returned.
\<close>

record 'client monitor =
  last_state_ptr :: nat
  mo_scheduler :: "'client scheduler"

definition monitor_tick ::
  "(duration \<Rightarrow> 'id option \<Rightarrow> 'root list \<Rightarrow> string + 'client) \<Rightarrow> instant \<Rightarrow> (string \<Rightarrow> nat) \<Rightarrow> (string \<Rightarrow> nat) \<Rightarrow> nat
   \<Rightarrow> ('cert, 'key, 'id, 'root) ClientIdentityMaterials manager \<Rightarrow> 'client monitor
   \<Rightarrow> 'client monitor \<times> ('cert, 'key, 'id, 'root) ClientIdentityMaterials manager \<times> (string \<rightharpoonup> 'client HealthProbePlan)" where
  "monitor_tick client_build now draw draw' state_ptr clusters mo =
     (let (plans, clusters) = (if state_ptr \<noteq> last_state_ptr mo then scheduler_from_manager client_build now draw clusters
            else (mo_scheduler mo, clusters));
          (plans, jobs) = next_jobs now draw' plans in
      (\<lparr>last_state_ptr = state_ptr, mo_scheduler = plans\<rparr>, clusters, jobs))"

section \<open>Properties\<close>

text \<open>The jobs of a sequence of ticks, each an instant with its draws.\<close>

fun tick_jobs :: "'client scheduler \<Rightarrow> (instant \<times> (string \<Rightarrow> nat)) list \<Rightarrow> (string \<rightharpoonup> 'client HealthProbePlan) list" where
  "tick_jobs plans [] = []"
| "tick_jobs plans ((now, draw) # ts) = snd (next_jobs now draw plans) # tick_jobs (fst (next_jobs now draw plans)) ts"

lemma length_tick_jobs [simp]: "length (tick_jobs plans ts) = length ts"
  by (induction plans ts rule: tick_jobs.induct) simp_all

lemma next_jobs_due:
  assumes "plans name = Some st" "is_due now st"
  shows "snd (next_jobs now draw plans) name = Some (ps_plan st)"
    "fst (next_jobs now draw plans) name
     = Some (st\<lparr>ps_next_due := now + hpp_interval (ps_plan st) + jitter_duration (hpp_interval (ps_plan st)) (draw name)\<rparr>)"
  using assms by (simp_all add: next_jobs_def)

lemma next_jobs_early:
  assumes "plans name = Some st" "\<not> is_due now st"
  shows "snd (next_jobs now draw plans) name = None" "fst (next_jobs now draw plans) name = Some st"
  using assms by (simp_all add: next_jobs_def)

lemma jobs_after_due:
  assumes "plans name = Some st" "sorted (map fst ts)" "k < length ts" "(tick_jobs plans ts ! k) name = Some p"
  shows "p = ps_plan st \<and> ps_next_due st \<le> fst (ts ! k)"
  using assms
proof (induction plans ts arbitrary: st k rule: tick_jobs.induct)
  case (2 plans now draw ts)
  show ?case
  proof (cases "is_due now st")
    case True
    note due = next_jobs_due [of plans name st now draw, OF 2(2) True]
    from True have "ps_next_due st \<le> fst (((now, draw) # ts) ! k)"
      using 2(3,4) by (cases k) (auto simp: is_due_def intro: order_trans [OF _ bspec [of "set ts"]])
    moreover have "p = ps_plan st"
      using 2(1) [OF due(2)] 2(3-5) due(1) by (cases k) auto
    ultimately show ?thesis by simp
  next
    case False
    note early = next_jobs_early [of plans name st now draw, OF 2(2) False]
    with 2(1) [OF early(2)] 2(3-5) show ?thesis by (cases k) auto
  qed
qed simp

lemma job_once_due:
  assumes "plans name = Some st" "j < length ts" "ps_next_due st \<le> fst (ts ! j)"
  shows "\<exists>k\<le>j. (tick_jobs plans ts ! k) name = Some (ps_plan st)"
  using assms
proof (induction plans ts arbitrary: j rule: tick_jobs.induct)
  case (2 plans now draw ts)
  show ?case
  proof (cases "is_due now st")
    case True
    from next_jobs_due(1) [of plans name st now draw, OF 2(2) True] show ?thesis by (intro exI [of _ 0]) simp
  next
    case False
    with 2(3,4) obtain i where "j = Suc i" "i < length ts" "ps_next_due st \<le> fst (ts ! i)" by (cases j) (auto simp: is_due_def)
    with 2(1) [OF next_jobs_early(2) [of plans name st now draw, OF 2(2) False]] obtain k where "k \<le> i" "(tick_jobs plans ((now, draw) # ts) ! Suc k) name = Some (ps_plan st)"
      by auto
    with \<open>j = Suc i\<close> show ?thesis by (intro exI [of _ "Suc k"]) simp
  qed
qed simp

lemma jitter_bound: "jitter_duration base draw \<le> from_millis (jitter_ms base)"
  using mod_less_divisor [of "jitter_ms base + 1" draw] by (simp add: jitter_duration_def)

text \<open>A tick that issues a job leaves a plan that is due within the interval and the greatest jitter.\<close>

lemma job_reschedules:
  assumes "snd (next_jobs now draw plans) name = Some p"
  shows "\<exists>st. fst (next_jobs now draw plans) name = Some st \<and> ps_plan st = p
    \<and> now + hpp_interval p \<le> ps_next_due st \<and> ps_next_due st \<le> now + hpp_interval p + from_millis (jitter_ms (hpp_interval p))"
  using assms jitter_bound by (auto simp: next_jobs_def split: option.splits if_splits)

text \<open>
  Probes are spaced by their interval. On ticks at growing instants, two jobs of one upstream are of the same plan and at least
  its interval apart; and a tick later than the interval and its jitter (a tenth of it, at most fifty milliseconds) after a job finds that another
  job was issued since.
\<close>

theorem probes_spaced:
  assumes "sorted (map fst ts)" "i < j" "j < length ts" "(tick_jobs plans ts ! i) name = Some p"
  shows "((tick_jobs plans ts ! j) name = Some q \<longrightarrow> q = p \<and> fst (ts ! i) + hpp_interval p \<le> fst (ts ! j))
    \<and> (fst (ts ! i) + hpp_interval p + from_millis (jitter_ms (hpp_interval p)) \<le> fst (ts ! j)
       \<longrightarrow> (\<exists>k. i < k \<and> k \<le> j \<and> (tick_jobs plans ts ! k) name = Some p))"
  using assms
proof (induction plans ts arbitrary: i j rule: tick_jobs.induct)
  case (2 plans now draw ts)
  obtain l where l: "j = Suc l" "l < length ts" using 2(3,4) by (cases j) auto
  let ?next = "fst (next_jobs now draw plans)"
  show ?case
  proof (cases i)
    case 0
    with 2(5) obtain st where st: "?next name = Some st" "ps_plan st = p" "now + hpp_interval p \<le> ps_next_due st"
      "ps_next_due st \<le> now + hpp_interval p + from_millis (jitter_ms (hpp_interval p))"
      using job_reschedules by fastforce
    have "q = p \<and> now + hpp_interval p \<le> fst (ts ! l)" if "(tick_jobs ?next ts ! l) name = Some q"
      using jobs_after_due [of ?next name st, OF st(1) _ l(2) that] 2(2) st(2,3) by auto
    moreover have "\<exists>k. 0 < k \<and> k \<le> j \<and> (tick_jobs plans ((now, draw) # ts) ! k) name = Some p"
      if "now + hpp_interval p + from_millis (jitter_ms (hpp_interval p)) \<le> fst (ts ! l)"
    proof -
      from job_once_due [of ?next name st, OF st(1) l(2)] st(2,4) that
      obtain k where "k \<le> l" "(tick_jobs ?next ts ! k) name = Some p" by auto
      with l(1) show ?thesis by (intro exI [of _ "Suc k"]) simp
    qed
    ultimately show ?thesis using 0 l(1) by auto
  next
    case (Suc n)
    with 2(1) [of n l] 2(2-5) l show ?thesis by (auto intro: exI [of _ "Suc k" for k])
  qed
qed simp

text \<open>A probe every second, ticks every 600 milliseconds.\<close>

definition second_plan :: "unit HealthProbePlan" where
  "second_plan = \<lparr>hpp_upstream = ''backend'', hpp_path = ''/healthz'', hpp_interval = from_millis 1000, hpp_scheme = ''http'', hpp_client = ()\<rparr>"

definition three_ticks :: "(instant \<times> (string \<Rightarrow> nat)) list" where
  "three_ticks = [(0, \<lambda>_. 0), (from_millis 600, \<lambda>_. 0), (from_millis 1200, \<lambda>_. 0)]"

theorem probes_spaced_witness:
  "\<exists>k. 0 < k \<and> k \<le> 2 \<and> (tick_jobs [''backend'' \<mapsto> \<lparr>ps_plan = second_plan, ps_next_due = 0\<rparr>] three_ticks ! k) ''backend'' = Some second_plan"
  using probes_spaced [of three_ticks 0 2 "[''backend'' \<mapsto> \<lparr>ps_plan = second_plan, ps_next_due = 0\<rparr>]" "''backend''" second_plan second_plan]
  by (simp add: three_ticks_def next_jobs_def is_due_def second_plan_def jitter_ms_def from_millis_def as_millis_def)

text \<open>The URL of a probe of an IPv6 endpoint lacks the brackets its address needs.\<close>

lemma probe_url_ipv6: "probe_url second_plan (Endpoint_Ip (V6 1) 80) = ''http://::1:80/healthz''"
proof -
  have "v6_segments 1 = [0, 0, 0, 0, 0, 0, 0, 1]" by (simp add: v6_segments_def upt_rec)
  then have "endpoint_label (Endpoint_Ip (V6 1) 80) = ''::1:80''"
    by (simp add: endpoint_label_def v6_display_def hex_nat.simps hex_digit_def to_dec.simps char_of_def bit_0)
  then show ?thesis by (simp add: probe_url_def second_plan_def)
qed

end
