(* ===== verification/Runtime_Env.thy ===== *)
theory Runtime_Env
  imports Core_Validate Net_Addr
begin

text \<open>
  What a proxy checks of a configuration in its own environment: the files and ports of crates/pavis/src/validate\_env.rs and the
  reload boundary of crates/pavis-core/src/runtime/reload.rs. Opening a file and binding a socket are parameters, as is the
  escaping of strings in \<open>Debug\<close> output, which depends on Unicode tables.
\<close>

section \<open>Files and ports (validate\_env.rs)\<close>

datatype RuntimeEnvError = MissingFile string string | PortUnavailable string SocketAddr

definition named :: "string \<Rightarrow> string \<Rightarrow> string" where
  "named kind n = kind @ [CHR 0x27] @ n @ [CHR 0x27]"

definition ensure_readable :: "(string \<Rightarrow> bool) \<Rightarrow> string \<Rightarrow> string \<Rightarrow> RuntimeEnvError + unit" where
  "ensure_readable readable path ctx = fail_if (\<not> readable path) (MissingFile ctx path)"

definition validate_listener_files :: "(string \<Rightarrow> bool) \<Rightarrow> Listener \<Rightarrow> RuntimeEnvError + unit" where
  "validate_listener_files readable l =
     (case l_tls l of
        TlsConfig_Disabled \<Rightarrow> Inr ()
      | TlsConfig_Enabled cert key client \<Rightarrow>
          and_then (ensure_readable readable cert (named ''listener '' (l_name l) @ '' tls.cert_path'')) (\<lambda>_.
          and_then (ensure_readable readable key (named ''listener '' (l_name l) @ '' tls.key_path'')) (\<lambda>_.
            case client of
              ClientAuth_Disabled \<Rightarrow> Inr ()
            | ClientAuth_Optional ca \<Rightarrow> ensure_readable readable ca (named ''listener '' (l_name l) @ '' tls.client_auth.ca_path'')
            | ClientAuth_Required ca \<Rightarrow> ensure_readable readable ca (named ''listener '' (l_name l) @ '' tls.client_auth.ca_path''))))"

definition validate_tls_files :: "(string \<Rightarrow> bool) \<Rightarrow> RuntimeConfig \<Rightarrow> RuntimeEnvError + unit" where
  "validate_tls_files readable config = try_each (validate_listener_files readable) (listeners config)"

definition validate_one_upstream_files :: "(string \<Rightarrow> bool) \<Rightarrow> Upstream \<Rightarrow> RuntimeEnvError + unit" where
  "validate_one_upstream_files readable u =
     (case u_tls u of
        TlsPolicy_Disabled \<Rightarrow> Inr ()
      | TlsPolicy_Enabled t \<Rightarrow>
          and_then (case tls_ca t of
              Ca_System \<Rightarrow> Inr ()
            | Ca_File path \<Rightarrow> ensure_readable readable path (named ''upstream '' (u_name u) @ '' tls.ca.path'')) (\<lambda>_.
          case tls_cert t of
            ClientCert_Disabled \<Rightarrow> Inr ()
          | ClientCert_Enabled cert key chain \<Rightarrow>
              and_then (ensure_readable readable cert (named ''upstream '' (u_name u) @ '' tls.cert_path'')) (\<lambda>_.
              and_then (ensure_readable readable key (named ''upstream '' (u_name u) @ '' tls.key_path'')) (\<lambda>_.
                case chain of
                  Chain_File path \<Rightarrow> ensure_readable readable path (named ''upstream '' (u_name u) @ '' tls.chain.path'')
                | _ \<Rightarrow> Inr ()))))"

definition validate_upstream_tls_files :: "(string \<Rightarrow> bool) \<Rightarrow> RuntimeConfig \<Rightarrow> RuntimeEnvError + unit" where
  "validate_upstream_tls_files readable config = try_each (validate_one_upstream_files readable) (upstreams config)"

definition collect_ports :: "RuntimeConfig \<Rightarrow> u16 list" where
  "collect_ports config = map (\<lambda>l. sa_port (l_address l)) (listeners config)
     @ (case admin config of Admin_Enabled addr \<Rightarrow> [sa_port addr] | Admin_Disabled \<Rightarrow> [])
     @ (case t_metrics (telemetry config) of Metrics_Enabled addr \<Rightarrow> [sa_port addr] | Metrics_Disabled \<Rightarrow> [])"

definition check_port :: "(SocketAddr \<Rightarrow> bool) \<Rightarrow> u16 list \<Rightarrow> string \<Rightarrow> SocketAddr \<Rightarrow> RuntimeEnvError + unit" where
  "check_port bindable current_ports ctx addr =
     (if sa_port addr \<in> set current_ports then Inr () else fail_if (\<not> bindable addr) (PortUnavailable ctx addr))"

definition validate_ports :: "(SocketAddr \<Rightarrow> bool) \<Rightarrow> RuntimeConfig \<Rightarrow> RuntimeConfig option \<Rightarrow> RuntimeEnvError + unit" where
  "validate_ports bindable config current =
     (let ports = (case current of Some c \<Rightarrow> collect_ports c | None \<Rightarrow> []) in
      and_then (try_each (\<lambda>l. check_port bindable ports (named ''listener '' (l_name l)) (l_address l)) (listeners config)) (\<lambda>_.
      and_then (case admin config of Admin_Enabled addr \<Rightarrow> check_port bindable ports ''admin'' addr | Admin_Disabled \<Rightarrow> Inr ()) (\<lambda>_.
        case t_metrics (telemetry config) of
          Metrics_Enabled addr \<Rightarrow> check_port bindable ports ''metrics'' addr
        | Metrics_Disabled \<Rightarrow> Inr ())))"

definition validate_runtime_env ::
  "(string \<Rightarrow> bool) \<Rightarrow> (SocketAddr \<Rightarrow> bool) \<Rightarrow> RuntimeConfig \<Rightarrow> RuntimeConfig option \<Rightarrow> RuntimeEnvError + unit" where
  "validate_runtime_env readable bindable config current =
     and_then (validate_tls_files readable config) (\<lambda>_.
     and_then (validate_upstream_tls_files readable config) (\<lambda>_.
       validate_ports bindable config current))"

section \<open>The reload boundary (runtime/reload.rs)\<close>

text \<open>What \<open>Debug\<close> derives for the boot-time sections.\<close>

definition dbg_path :: "(string \<Rightarrow> string) \<Rightarrow> Path \<Rightarrow> string" where
  "dbg_path escape p = ''Path('' @ [CHR 0x22] @ escape p @ [CHR 0x22] @ '')''"

definition dbg_workers :: "WorkerCount \<Rightarrow> string" where
  "dbg_workers w = (case w of Workers_Auto \<Rightarrow> ''Auto'' | Workers_Count n \<Rightarrow> ''Count('' @ to_dec (unat n) @ '')'')"

definition dbg_client_auth :: "(string \<Rightarrow> string) \<Rightarrow> ClientAuth \<Rightarrow> string" where
  "dbg_client_auth escape a =
     (case a of
        ClientAuth_Disabled \<Rightarrow> ''Disabled''
      | ClientAuth_Optional p \<Rightarrow> ''Optional { ca_path: '' @ dbg_path escape p @ '' }''
      | ClientAuth_Required p \<Rightarrow> ''Required { ca_path: '' @ dbg_path escape p @ '' }'')"

definition dbg_tls :: "(string \<Rightarrow> string) \<Rightarrow> TlsConfig \<Rightarrow> string" where
  "dbg_tls escape t =
     (case t of
        TlsConfig_Disabled \<Rightarrow> ''Disabled''
      | TlsConfig_Enabled cert key client \<Rightarrow> ''Enabled { cert_path: '' @ dbg_path escape cert @ '', key_path: '' @ dbg_path escape key
          @ '', client_auth: '' @ dbg_client_auth escape client @ '' }'')"

definition dbg_admin :: "AdminConfig \<Rightarrow> string" where
  "dbg_admin a = (case a of Admin_Disabled \<Rightarrow> ''Disabled'' | Admin_Enabled addr \<Rightarrow> ''Enabled { addr: '' @ socket_display addr @ '' }'')"

definition dbg_shutdown :: "ShutdownPolicy \<Rightarrow> string" where
  "dbg_shutdown p =
     (case p of
        Shutdown_Disabled \<Rightarrow> ''Disabled''
      | Shutdown_Enabled d \<Rightarrow> ''Enabled { drain_timeout: Duration('' @ to_dec (unat d) @ '') }'')"

definition dbg_metrics :: "Metrics \<Rightarrow> string" where
  "dbg_metrics m = (case m of Metrics_Disabled \<Rightarrow> ''Disabled'' | Metrics_Enabled addr \<Rightarrow> ''Enabled { addr: '' @ socket_display addr @ '' }'')"

definition dbg_access_log :: "(string \<Rightarrow> string) \<Rightarrow> AccessLogPolicy \<Rightarrow> string" where
  "dbg_access_log escape a =
     (case a of
        AccessLog_Disabled \<Rightarrow> ''Disabled''
      | AccessLog_Stdout \<Rightarrow> ''Stdout''
      | AccessLog_File p \<Rightarrow> ''File('' @ dbg_path escape p @ '')'')"

definition listener_fingerprint :: "(string \<Rightarrow> string) \<Rightarrow> RuntimeConfig \<Rightarrow> string list" where
  "listener_fingerprint escape config = map (\<lambda>l. l_name l @ ''|'' @ socket_display (l_address l) @ ''|'' @ dbg_workers (l_workers l)
     @ ''|'' @ dbg_tls escape (l_tls l)) (listeners config)"

definition ensure_runtime_reload_safe :: "(string \<Rightarrow> string) \<Rightarrow> RuntimeConfig \<Rightarrow> RuntimeConfig \<Rightarrow> string list + unit" where
  "ensure_runtime_reload_safe escape current nxt =
     (let changed_fields =
        (if listener_fingerprint escape current \<noteq> listener_fingerprint escape nxt then [''listeners''] else [])
        @ (if dbg_admin (admin current) \<noteq> dbg_admin (admin nxt) then [''admin''] else [])
        @ (if dbg_shutdown (shutdown current) \<noteq> dbg_shutdown (shutdown nxt) then [''shutdown''] else [])
        @ (if dbg_metrics (t_metrics (telemetry current)) \<noteq> dbg_metrics (t_metrics (telemetry nxt)) then [''telemetry.metrics''] else [])
        @ (if dbg_access_log escape (t_access_log (telemetry current)) \<noteq> dbg_access_log escape (t_access_log (telemetry nxt))
           then [''telemetry.access_log''] else [])
      in if changed_fields = [] then Inr () else Inl changed_fields)"

section \<open>Properties\<close>

text \<open>The files a configuration names and the sockets it binds.\<close>

definition config_files :: "RuntimeConfig \<Rightarrow> string set" where
  "config_files config =
     (\<Union>l\<in>set (listeners config). case l_tls l of
        TlsConfig_Disabled \<Rightarrow> {}
      | TlsConfig_Enabled cert key client \<Rightarrow> {cert, key}
          \<union> (case client of ClientAuth_Disabled \<Rightarrow> {} | ClientAuth_Optional ca \<Rightarrow> {ca} | ClientAuth_Required ca \<Rightarrow> {ca}))
     \<union> (\<Union>u\<in>set (upstreams config). case u_tls u of
        TlsPolicy_Disabled \<Rightarrow> {}
      | TlsPolicy_Enabled t \<Rightarrow> (case tls_ca t of Ca_System \<Rightarrow> {} | Ca_File path \<Rightarrow> {path})
          \<union> (case tls_cert t of
               ClientCert_Disabled \<Rightarrow> {}
             | ClientCert_Enabled cert key chain \<Rightarrow> {cert, key} \<union> (case chain of Chain_File path \<Rightarrow> {path} | _ \<Rightarrow> {})))"

definition config_sockets :: "RuntimeConfig \<Rightarrow> SocketAddr set" where
  "config_sockets config = l_address ` set (listeners config)
     \<union> (case admin config of Admin_Enabled addr \<Rightarrow> {addr} | Admin_Disabled \<Rightarrow> {})
     \<union> (case t_metrics (telemetry config) of Metrics_Enabled addr \<Rightarrow> {addr} | Metrics_Disabled \<Rightarrow> {})"

lemma collect_ports_eq: "set (collect_ports config) = sa_port ` config_sockets config"
  by (auto simp: collect_ports_def config_sockets_def image_image split: AdminConfig.splits Metrics.splits)

lemma listener_files_iff:
  "validate_listener_files readable l = Inr () \<longleftrightarrow> (\<forall>p\<in>(case l_tls l of
        TlsConfig_Disabled \<Rightarrow> {}
      | TlsConfig_Enabled cert key client \<Rightarrow> {cert, key}
          \<union> (case client of ClientAuth_Disabled \<Rightarrow> {} | ClientAuth_Optional ca \<Rightarrow> {ca} | ClientAuth_Required ca \<Rightarrow> {ca})). readable p)"
  by (auto simp: validate_listener_files_def ensure_readable_def and_then_eq_Inr fail_if_eq_Inr split: TlsConfig.splits ClientAuth.splits)

lemma upstream_files_iff:
  "validate_one_upstream_files readable u = Inr () \<longleftrightarrow> (\<forall>p\<in>(case u_tls u of
        TlsPolicy_Disabled \<Rightarrow> {}
      | TlsPolicy_Enabled t \<Rightarrow> (case tls_ca t of Ca_System \<Rightarrow> {} | Ca_File path \<Rightarrow> {path})
          \<union> (case tls_cert t of
               ClientCert_Disabled \<Rightarrow> {}
             | ClientCert_Enabled cert key chain \<Rightarrow> {cert, key} \<union> (case chain of Chain_File path \<Rightarrow> {path} | _ \<Rightarrow> {}))). readable p)"
  by (auto simp: validate_one_upstream_files_def ensure_readable_def and_then_eq_Inr fail_if_eq_Inr
      split: TlsPolicy.splits UpstreamCa.splits ClientCert.splits ClientCertChain.splits)

lemma check_port_iff: "check_port bindable ports ctx addr = Inr () \<longleftrightarrow> sa_port addr \<in> set ports \<or> bindable addr"
  by (auto simp: check_port_def fail_if_eq_Inr)

lemma validate_ports_iff:
  "validate_ports bindable config current = Inr () \<longleftrightarrow>
     (\<forall>a\<in>config_sockets config. sa_port a \<in> (case current of Some c \<Rightarrow> sa_port ` config_sockets c | None \<Rightarrow> {}) \<or> bindable a)"
proof -
  have "set (case current of Some c \<Rightarrow> collect_ports c | None \<Rightarrow> [])
      = (case current of Some c \<Rightarrow> sa_port ` config_sockets c | None \<Rightarrow> {})"
    by (simp add: collect_ports_eq split: option.split)
  then show ?thesis
    unfolding validate_ports_def config_sockets_def [of config] Let_def
    by (cases "admin config"; cases "t_metrics (telemetry config)")
      (simp_all add: and_then_eq_Inr try_each_eq_Inr check_port_iff ball_Un conj_ac)
qed

text \<open>
  The environment check accepts a configuration exactly when every file it names can be opened and every socket it binds whose port
  the running configuration does not already hold can be bound.
\<close>

theorem validate_runtime_env_iff:
  "validate_runtime_env readable bindable config current = Inr () \<longleftrightarrow>
     (\<forall>p\<in>config_files config. readable p)
     \<and> (\<forall>a\<in>config_sockets config. sa_port a \<in> (case current of Some c \<Rightarrow> sa_port ` config_sockets c | None \<Rightarrow> {}) \<or> bindable a)"
  unfolding validate_runtime_env_def validate_tls_files_def validate_upstream_tls_files_def and_then_eq_Inr try_each_eq_Inr
    listener_files_iff upstream_files_iff validate_ports_iff config_files_def
  by (auto simp: ball_Un)

lemma socket_display_inject: "socket_display a = socket_display b \<longleftrightarrow> a = b"
  by (metis parse_socket_display option.inject)

lemma dbg_admin_inject: "dbg_admin a = dbg_admin b \<longleftrightarrow> a = b"
  by (cases a; cases b) (simp_all add: dbg_admin_def socket_display_inject)

lemma dbg_metrics_inject: "dbg_metrics a = dbg_metrics b \<longleftrightarrow> a = b"
  by (cases a; cases b) (simp_all add: dbg_metrics_def socket_display_inject)

lemma dbg_shutdown_inject: "dbg_shutdown a = dbg_shutdown b \<longleftrightarrow> a = b"
  by (cases a; cases b) (simp_all add: dbg_shutdown_def to_dec_inj word_unat_eq_iff)

lemmas dbg_inject = dbg_admin_inject dbg_metrics_inject dbg_shutdown_inject

text \<open>
  A reload is accepted exactly when the boot-time sections are the same: the listeners by their fingerprint, and the admin
  address, the shutdown policy, the metrics address and the access log themselves. Everything else may change.
\<close>

theorem reload_safe_iff:
  assumes "inj escape"
  shows "ensure_runtime_reload_safe escape current nxt = Inr () \<longleftrightarrow>
    listener_fingerprint escape current = listener_fingerprint escape nxt \<and> admin current = admin nxt \<and> shutdown current = shutdown nxt
    \<and> t_metrics (telemetry current) = t_metrics (telemetry nxt) \<and> t_access_log (telemetry current) = t_access_log (telemetry nxt)"
proof -
  have "dbg_access_log escape a = dbg_access_log escape b \<longleftrightarrow> a = b" for a b
    using assms by (cases a; cases b) (simp_all add: dbg_access_log_def dbg_path_def inj_eq)
  then show ?thesis by (simp add: ensure_runtime_reload_safe_def Let_def dbg_inject)
qed

end
