(* ===== verification/Agent_Apply.thy ===== *)
theory Agent_Apply
  imports Agent_Driver Runtime_State Runtime_Env Relay_Handlers
begin

text \<open>
  What the agent does for the effects of its state machine (crates/pavis/src/agent/driver.rs and agent/lkg.rs): the fetch with the
  reading of its answer, the verification of a fetched artifact, its application, and the start from the last known good
  artifact. Files are those of the file system of \<open>Relay_Storage\<close>, whose every call may fail; reading a
  file to load it is one call, and the file does not change meanwhile. Metrics and log lines are not modelled.
\<close>

section \<open>Paths (agent/lkg.rs)\<close>

text \<open>\<open>Path::file_stem\<close> of a file name, \<open>set_extension\<close>, and the text of a path with its components.\<close>

definition file_stem :: "string \<Rightarrow> string" where
  "file_stem n = (let r = dropWhile (\<lambda>c. c \<noteq> CHR ''.'') (rev n) in if r = [] \<or> tl r = [] \<or> n = ''..'' then n else rev (tl r))"

definition set_extension :: "path \<Rightarrow> string \<Rightarrow> path" where
  "set_extension p ext = (if p = [] then [] else butlast p @ [file_stem (last p) @ ''.'' @ ext])"

definition path_text :: "path \<Rightarrow> string" where
  "path_text p = concat (map (\<lambda>c. ''/'' @ c) p)"

fun split_path :: "string \<Rightarrow> string \<Rightarrow> path" where
  "split_path acc [] = [acc]"
| "split_path acc (c # s) = (if c = CHR ''/'' then acc # split_path [] s else split_path (acc @ [c]) s)"

definition path_components :: "string \<Rightarrow> path" where
  "path_components s = filter (\<lambda>c. c \<noteq> []) (split_path [] s)"

definition version_path_for :: "path \<Rightarrow> path" where
  "version_path_for lkg = set_extension lkg ''pvs.version''"

definition tmp_path_for :: "path \<Rightarrow> path" where
  "tmp_path_for lkg = set_extension lkg ''tmp.pvs''"

text \<open>The file is written under a hidden name beside the path and renamed.\<close>

definition hidden_path :: "path \<Rightarrow> path" where
  "hidden_path p = butlast p @ [''.'' @ (if p = [] then ''atomic_write'' else last p) @ ''.tmp'']"

definition write_atomic :: "io_env \<Rightarrow> path \<Rightarrow> bytes \<Rightarrow> unit io" where
  "write_atomic env p bs =
     st_bind (io (create_dir_all env (butlast p))) (\<lambda>_. write_and_rename env (hidden_path p) p bs)"

definition write_version :: "io_env \<Rightarrow> path \<Rightarrow> u64 \<Rightarrow> unit io" where
  "write_version env p version = write_and_rename env (set_extension p ''tmp'') p (text_bytes (to_dec (unat version)))"

definition bytes_text :: "bytes \<Rightarrow> string" where
  "bytes_text bs = map (\<lambda>b. char_of (unat b)) bs"

definition read_lkg_version :: "io_env \<Rightarrow> path \<Rightarrow> (fs, 'e, u64 option) st" where
  "read_lkg_version env p =
     st_bind (st_try (fs_read env p)) (\<lambda>r.
       st_ok (case r of Inl _ \<Rightarrow> None | Inr bs \<Rightarrow> map_option of_nat (parse_unsigned 64 (trim (bytes_text bs)))))"

definition lkg_version :: "io_env \<Rightarrow> path \<Rightarrow> (fs, 'e, u64) st" where
  "lkg_version env lkg = st_bind (read_lkg_version env (version_path_for lkg)) (\<lambda>v. st_ok (unwrap_or v 0))"

section \<open>The agent\<close>

record ('v, 'cert, 'key, 'id, 'root) agent_env =
  ae_io :: io_env
  ae_sha :: "bytes \<Rightarrow> bytes"
  ae_rkyv :: "(RuntimeConfig, 'v) rkyv"
  ae_chunks :: "bytes \<Rightarrow> bytes list"
  ae_regex :: regex_lib
  ae_tls :: "('cert, 'key, 'id, 'root) tls_lib"
  ae_resolve :: system_resolve
  ae_now :: instant
  ae_readable :: "string \<Rightarrow> bool"
  ae_bindable :: "SocketAddr \<Rightarrow> bool"
  ae_escape :: "string \<Rightarrow> string"
  ae_callback :: bool

record 'm agent =
  ag_fs :: fs
  ag_runtime :: "'m RuntimeState"

datatype agent_error =
    Etag_Mismatch string string
  | Pvs_Failed PvsError
  | Storage_Failed storage_error
  | Reload_Unsafe "string list"
  | Env_Failed RuntimeEnvError
  | State_Failed string
  | Bad_Response string

text \<open>The label of a failure in the metrics.\<close>

fun classify_validation_error :: "agent_error \<Rightarrow> string" where
  "classify_validation_error (Pvs_Failed (VersionMismatch _ _)) = ''version''"
| "classify_validation_error (Pvs_Failed _) = ''parse''"
| "classify_validation_error (Env_Failed _) = ''runtime''"
| "classify_validation_error (Etag_Mismatch _ _) = ''parse''"
| "classify_validation_error _ = ''semantic''"

definition on_files :: "(fs, 'e, 'a) st \<Rightarrow> ('m agent, 'e, 'a) st" where
  "on_files m s = (case m (ag_fs s) of (r, f) \<Rightarrow> (r, s\<lparr>ag_fs := f\<rparr>))"

definition runtime_load :: "('m agent, 'e, 'm RuntimeState) st" where
  "runtime_load s = (Inr (ag_runtime s), s)"

definition runtime_store :: "'m RuntimeState \<Rightarrow> ('m agent, 'e, unit) st" where
  "runtime_store st s = (Inr (), s\<lparr>ag_runtime := st\<rparr>)"

text \<open>\<open>pavis_pvs::load\<close> and \<open>RuntimeState::from_config\<close> in the agent's environment.\<close>

definition load_at :: "('v, 'cert, 'key, 'id, 'root) agent_env \<Rightarrow> path \<Rightarrow> (fs, PvsError, RuntimeConfig) st" where
  "load_at env p =
     st_bind (st_map_err (\<lambda>_. Io ''open'') (fs_read (ae_io env) p)) (\<lambda>bs.
       st_result (load (ae_sha env) (ae_rkyv env) (Inr (quiet_file bs (ae_chunks env bs)))))"

definition build_state ::
  "('v, 'cert, 'key, 'id, 'root) agent_env \<Rightarrow> RuntimeConfig \<Rightarrow> agent_error + ('cert, 'key, 'id, 'root) ClientIdentityMaterials RuntimeState" where
  "build_state env config =
     map_err State_Failed (from_config (ae_regex env) (ae_tls env) (ae_resolve env) (ae_now env) config)"

definition discard :: "('v, 'cert, 'key, 'id, 'root) agent_env \<Rightarrow> path \<Rightarrow> agent_error \<Rightarrow> ('m agent, agent_error, 'a) st" where
  "discard env p e = st_bind (st_try (on_files (remove_file (ae_io env) p))) (\<lambda>_. st_err e)"

definition verify_update ::
  "('v, 'cert, 'key, 'id, 'root) agent_env \<Rightarrow> path \<Rightarrow> bytes \<Rightarrow> string \<Rightarrow> u64 option \<Rightarrow> u64 option
   \<Rightarrow> (('cert, 'key, 'id, 'root) ClientIdentityMaterials agent, agent_error, verified_update) st" where
  "verify_update env lkg bs expected_etag version size_opt =
     (let actual_etag = checksum_for_bytes (ae_sha env) bs; tmp = tmp_path_for lkg in
      if actual_etag \<noteq> expected_etag then st_err (Etag_Mismatch expected_etag actual_etag)
      else
        st_bind (st_result (map_err Pvs_Failed (verify_owned (ae_sha env) (ae_rkyv env) bs))) (\<lambda>_.
        st_bind (on_files (st_map_err Storage_Failed (write_atomic (ae_io env) tmp bs))) (\<lambda>_.
        st_bind (st_try (on_files (load_at env tmp))) (\<lambda>loaded.
          case loaded of
            Inl e \<Rightarrow> discard env tmp (Pvs_Failed e)
          | Inr config \<Rightarrow>
              st_bind runtime_load (\<lambda>current.
              st_bind (st_result (map_err Reload_Unsafe (ensure_runtime_reload_safe (ae_escape env) (rs_config current) config))) (\<lambda>_.
                case validate_runtime_env (ae_readable env) (ae_bindable env) config (Some (rs_config current)) of
                  Inl e \<Rightarrow> discard env tmp (Env_Failed e)
                | Inr _ \<Rightarrow>
                    st_bind (st_result (build_state env config)) (\<lambda>_.
                      st_ok \<lparr>vu_etag = expected_etag, vu_version = version, vu_size = size_opt, vu_tmp_path = path_text tmp\<rparr>)))))))"

text \<open>The callback, when one is set, is given the configuration read back from the LKG file.\<close>

definition run_callback :: "('v, 'cert, 'key, 'id, 'root) agent_env \<Rightarrow> path \<Rightarrow> ('m agent, agent_error, unit) st" where
  "run_callback env lkg =
     (if ae_callback env then st_bind (on_files (st_map_err Pvs_Failed (load_at env lkg))) (\<lambda>_. st_ok ()) else st_ok ())"

definition apply_update ::
  "('v, 'cert, 'key, 'id, 'root) agent_env \<Rightarrow> path \<Rightarrow> verified_update
   \<Rightarrow> (('cert, 'key, 'id, 'root) ClientIdentityMaterials agent, agent_error, string \<times> u64 option) st" where
  "apply_update env lkg update =
     (let tmp = path_components (vu_tmp_path update) in
      st_bind (st_try (on_files (load_at env tmp))) (\<lambda>loaded.
        case loaded of
          Inl e \<Rightarrow> discard env tmp (Pvs_Failed e)
        | Inr config \<Rightarrow>
            st_bind (st_result (build_state env config)) (\<lambda>st.
            st_bind (on_files (st_map_err (Storage_Failed \<circ> IoFailed) (fs_rename (ae_io env) tmp lkg))) (\<lambda>_.
            st_bind (runtime_store (st\<lparr>rs_config_version := vu_version update\<rparr>)) (\<lambda>_.
            st_bind (run_callback env lkg) (\<lambda>_.
              st_ok (vu_etag update, vu_version update)))))))"

text \<open>The start from the LKG file: the etag to record as applied, if there is a file and it is accepted.\<close>

definition bootstrap_from_lkg ::
  "('v, 'cert, 'key, 'id, 'root) agent_env \<Rightarrow> path
   \<Rightarrow> (('cert, 'key, 'id, 'root) ClientIdentityMaterials agent, agent_error, string option) st" where
  "bootstrap_from_lkg env lkg s =
     (if \<not> path_exists (ag_fs s) lkg then (Inr None, s)
      else
        st_bind (on_files (st_map_err (Storage_Failed \<circ> IoFailed) (fs_read (ae_io env) lkg))) (\<lambda>bs.
        st_bind (st_result (map_err Pvs_Failed (verify_owned (ae_sha env) (ae_rkyv env) bs))) (\<lambda>_.
        st_bind (on_files (st_map_err Pvs_Failed (load_at env lkg))) (\<lambda>config.
        st_bind (on_files (lkg_version (ae_io env) lkg)) (\<lambda>_.
        st_bind runtime_load (\<lambda>current.
        st_bind (st_result (map_err Env_Failed
            (validate_runtime_env (ae_readable env) (ae_bindable env) config (Some (rs_config current))))) (\<lambda>_.
        st_bind (st_result (build_state env config)) (\<lambda>st.
        st_bind (runtime_store (st\<lparr>rs_config_version := rs_config_version current\<rparr>)) (\<lambda>_.
          st_ok (Some (checksum_for_bytes (ae_sha env) bs)))))))))) s)"

section \<open>Fetching\<close>

definition parse_config_version_header :: "string \<Rightarrow> u64 option" where
  "parse_config_version_header v =
     Option.bind (parse_unsigned 64 (trim v)) (\<lambda>n. if n = 0 then None else Some (of_nat n))"

definition parse_etag_header :: "string \<Rightarrow> agent_error + string" where
  "parse_etag_header v =
     (let trimmed = trim v in
      if starts_with trimmed ''W/'' \<or> starts_with trimmed ''w/'' then Inl (Bad_Response ''weak ETags not supported'')
      else
        let unquoted = (if starts_with trimmed [quote] \<and> ends_with trimmed [quote] \<and> length trimmed \<ge> 2
              then take (length trimmed - 2) (drop 1 trimmed) else trimmed) in
        if \<not> starts_with unquoted ''sha256:'' then Inl (Bad_Response ''invalid etag format (expected sha256:...)'')
        else let hex = drop 7 unquoted in
          if length hex \<noteq> 64 \<or> \<not> list_all is_ascii_hexdigit hex then Inl (Bad_Response ''invalid etag format (expected 64 hex chars)'')
          else Inr (''sha256:'' @ to_ascii_lowercase hex))"

text \<open>\<open>HeaderValue::to_str\<close>: visible ASCII and tabs.\<close>

definition header_text :: "http_response \<Rightarrow> string \<Rightarrow> string option" where
  "header_text resp name =
     Option.bind (map_of (headers resp) name) (\<lambda>v.
       if list_all (\<lambda>c. 32 \<le> (of_char c :: nat) \<and> (of_char c :: nat) < 127 \<or> c = CHR 0x09) v then Some v else None)"

text \<open>
  The event for an answer: \<open>sent\<close> is what sending the request returns, \<open>body_read\<close> says whether the body can be read to its end. An
  error becomes \<open>TransientUnavailable\<close> in \<open>fetch_effect\<close>.
\<close>

definition fetch_once :: "instant \<Rightarrow> string + http_response \<Rightarrow> bool \<Rightarrow> agent_error + event" where
  "fetch_once now sent body_read =
     (case sent of
        Inl _ \<Rightarrow> Inr (Response TransientUnavailable now)
      | Inr resp \<Rightarrow>
          if status resp = 200 then
            and_then (ok_or (header_text resp ''etag'') (Bad_Response ''missing etag response header'')) (\<lambda>h.
            and_then (parse_etag_header h) (\<lambda>etag.
              let version = Option.bind (header_text resp ''x-config-version'') parse_config_version_header;
                  size_opt = Option.bind (header_text resp ''x-config-size'') (\<lambda>v. map_option of_nat (parse_unsigned 64 v)) in
            and_then (fail_if (\<not> body_read) (Bad_Response ''body'')) (\<lambda>_.
              Inr (Response (NewArtifact etag version
                (case size_opt of Some n \<Rightarrow> Some n | None \<Rightarrow> Some (of_nat (length (body resp)))) (body resp)) now))))
          else if status resp = 204 \<or> status resp = 304 then Inr (Response NoUpdate now)
          else if status resp = 410 then Inr (Response NeedResync now)
          else Inr (Response TransientUnavailable now))"

definition fetch_effect :: "instant \<Rightarrow> string + http_response \<Rightarrow> bool \<Rightarrow> event" where
  "fetch_effect now sent body_read =
     (case fetch_once now sent body_read of Inr e \<Rightarrow> e | Inl _ \<Rightarrow> Response TransientUnavailable now)"

definition request_url :: "string \<Rightarrow> u64 \<Rightarrow> string" where
  "request_url relay_base wait_ms = relay_base @ ''/v1/config?wait_ms='' @ to_dec (unat wait_ms)"

definition request_if_none_match :: "string option \<Rightarrow> string option" where
  "request_if_none_match etag = map_option quote_etag etag"

section \<open>Paths are kept apart\<close>

lemma last_dot:
  assumes "a @ x # b = c @ x # d" "x \<notin> set b" "x \<notin> set d"
  shows "a = c"
proof -
  have tail: "takeWhile (\<lambda>y. y \<noteq> x) (rev (u @ x # v)) = rev v" if "x \<notin> set v" for u v
    using that by (auto simp: takeWhile_append2 takeWhile_tail intro!: takeWhile_append2 [THEN trans])
  from tail [OF assms(2), of a] tail [OF assms(3), of c] assms(1) have "b = d" by simp
  with assms(1) show ?thesis by simp
qed

lemma file_stem_cases:
  obtains "file_stem n = n" | ext where "n = file_stem n @ CHR ''.'' # ext" "CHR ''.'' \<notin> set ext"
proof -
  let ?t = "takeWhile (\<lambda>c. c \<noteq> CHR ''.'') (rev n)" and ?r = "dropWhile (\<lambda>c. c \<noteq> CHR ''.'') (rev n)"
  show ?thesis
  proof (cases "?r = [] \<or> tl ?r = [] \<or> n = ''..''")
    case True
    then show ?thesis by (intro that(1)) (auto simp: file_stem_def Let_def)
  next
    case False
    then have "hd ?r = CHR ''.''" using hd_dropWhile [of "\<lambda>c. c \<noteq> CHR ''.''" "rev n"] by auto
    with False have "?r = CHR ''.'' # tl ?r" by (metis list.collapse)
    then have "rev n = ?t @ CHR ''.'' # tl ?r" by (metis takeWhile_dropWhile_id)
    then have "n = rev (tl ?r) @ CHR ''.'' # rev ?t" by (metis rev.simps(2) rev_append rev_rev_ident append.assoc append_Cons append_Nil)
    moreover have "file_stem n = rev (tl ?r)" by (simp only: file_stem_def Let_def False if_False)
    moreover have "CHR ''.'' \<notin> set (rev ?t)" using set_takeWhileD by fastforce
    ultimately show ?thesis by (intro that(2) [of "rev ?t"]) simp_all
  qed
qed

text \<open>A name whose stem is extended by at least two dots is not the name.\<close>

lemma extended_name:
  assumes "CHR ''.'' \<notin> set z" "y \<noteq> [] \<or> w \<noteq> []"
  shows "w @ file_stem n @ y @ CHR ''.'' # z \<noteq> n"
proof (cases rule: file_stem_cases [of n])
  case 1
  have "length (w @ file_stem n @ y @ CHR ''.'' # z) > length n" using 1 by simp
  then show ?thesis by (metis less_irrefl)
next
  case (2 ext)
  show ?thesis
  proof
    assume "w @ file_stem n @ y @ CHR ''.'' # z = n"
    with 2 last_dot [of "w @ file_stem n @ y" "CHR ''.''" z "file_stem n" ext] assms(1) have "w @ file_stem n @ y = file_stem n" by simp
    then have "length (w @ file_stem n @ y) = length (file_stem n)" by (rule arg_cong)
    with assms(2) show False by simp
  qed
qed

lemma tmp_path_distinct:
  assumes "lkg \<noteq> []"
  shows "tmp_path_for lkg \<noteq> lkg" "hidden_path (tmp_path_for lkg) \<noteq> lkg" "hidden_path (tmp_path_for lkg) \<noteq> tmp_path_for lkg"
proof -
  have name: "x = last lkg" if "butlast lkg @ [x] = lkg" for x using that by (metis last_snoc)
  have tmp: "tmp_path_for lkg = butlast lkg @ [file_stem (last lkg) @ ''.tmp.pvs'']"
    using assms by (simp add: tmp_path_for_def set_extension_def)
  have hidden: "hidden_path (tmp_path_for lkg) = butlast lkg @ [''.'' @ file_stem (last lkg) @ ''.tmp.pvs'' @ ''.tmp'']"
    by (simp add: tmp hidden_path_def)
  show "tmp_path_for lkg \<noteq> lkg"
    using extended_name [of "''pvs''" "''.tmp''" "[]" "last lkg"] by (auto simp: tmp dest: name)
  show "hidden_path (tmp_path_for lkg) \<noteq> lkg"
    using extended_name [of "''tmp''" "''.tmp.pvs''" "''.''" "last lkg"] by (auto simp: hidden dest: name)
  show "hidden_path (tmp_path_for lkg) \<noteq> tmp_path_for lkg"
  proof
    assume "hidden_path (tmp_path_for lkg) = tmp_path_for lkg"
    then have "length (last (hidden_path (tmp_path_for lkg))) = length (last (tmp_path_for lkg))" by simp
    then show False unfolding hidden unfolding tmp by simp
  qed
qed

definition plain_path :: "path \<Rightarrow> bool" where
  "plain_path p \<longleftrightarrow> p \<noteq> [] \<and> list_all (\<lambda>c. c \<noteq> [] \<and> CHR ''/'' \<notin> set c) p"

lemma split_path_component: "CHR ''/'' \<notin> set c \<Longrightarrow> split_path acc (c @ s) = split_path (acc @ c) s"
  by (induction c arbitrary: acc) auto

lemma split_path_snoc: "CHR ''/'' \<notin> set c \<Longrightarrow> split_path acc (s @ CHR ''/'' # c) = split_path acc s @ [c]"
  using split_path_component [of c "[]" "[]"] by (induction s arbitrary: acc) auto

lemma components_of_text: "list_all (\<lambda>c. c \<noteq> [] \<and> CHR ''/'' \<notin> set c) p \<Longrightarrow> path_components (path_text p) = p"
proof -
  have "split_path [] (path_text p) = [] # p" if "list_all (\<lambda>c. c \<noteq> [] \<and> CHR ''/'' \<notin> set c) p" for p
    using that
  proof (induction p rule: rev_induct)
    case (snoc c p)
    then have "split_path [] (path_text p @ CHR ''/'' # c) = ([] # p) @ [c]" using split_path_snoc [of c "[]"] by simp
    then show ?case by (simp add: path_text_def)
  qed (simp add: path_text_def)
  then show "list_all (\<lambda>c. c \<noteq> [] \<and> CHR ''/'' \<notin> set c) p \<Longrightarrow> path_components (path_text p) = p"
    by (simp add: path_components_def list_all_iff)
qed

section \<open>What the operations leave alone\<close>

lemma keeps_on_files [keeps]:
  "st_keeps (\<lambda>f. contents f q = x) m \<Longrightarrow> st_keeps (\<lambda>s. ag_runtime s = r \<and> contents (ag_fs s) q = x) (on_files m)"
  by (auto simp: st_keeps_def on_files_def split: prod.splits)

lemma keeps_runtime_load [keeps]: "st_keeps P runtime_load"
  by (simp add: st_keeps_def runtime_load_def)

lemma keeps_load_at [keeps]: "st_keeps (\<lambda>f. contents f q = x) (load_at env p)"
  unfolding load_at_def by (intro keeps) simp

lemma keeps_write_atomic [keeps]:
  "hidden_path p \<noteq> q \<Longrightarrow> p \<noteq> q \<Longrightarrow> st_keeps (\<lambda>f. contents f q = x) (write_atomic env p bs)"
  unfolding write_atomic_def by (intro keeps) simp_all

lemma keeps_discard [keeps]:
  "p \<noteq> q \<Longrightarrow> st_keeps (\<lambda>s. ag_runtime s = r \<and> contents (ag_fs s) q = x) (discard env p e)"
  unfolding discard_def by (intro keeps) simp_all

lemma verify_update_frame:
  assumes "lkg \<noteq> []" "verify_update env lkg bs etag version n s = (r, s')"
  shows "ag_runtime s' = ag_runtime s \<and> contents (ag_fs s') lkg = contents (ag_fs s) lkg"
proof -
  have "st_keeps (\<lambda>a. ag_runtime a = ag_runtime s \<and> contents (ag_fs a) lkg = contents (ag_fs s) lkg)
      (verify_update env lkg bs etag version n)"
    unfolding verify_update_def Let_def using tmp_path_distinct [OF assms(1)] by (intro keeps) auto
  from st_keepsD [OF this _ assms(2)] show ?thesis by simp
qed

section \<open>What a success means\<close>

text \<open>The configuration that the bytes of an artifact hold.\<close>

definition artifact_config :: "('v, 'cert, 'key, 'id, 'root) agent_env \<Rightarrow> bytes \<Rightarrow> PvsError + RuntimeConfig" where
  "artifact_config env bs = load (ae_sha env) (ae_rkyv env) (Inr (quiet_file bs (ae_chunks env bs)))"

lemma on_files_eq: "on_files m s = (r, s') \<longleftrightarrow> (\<exists>f. m (ag_fs s) = (r, f) \<and> s' = s\<lparr>ag_fs := f\<rparr>)"
  by (auto simp: on_files_def split: prod.splits)

lemma st_try_eq: "st_try m s = (Inr r, s') \<longleftrightarrow> m s = (r, s')"
  by (auto simp: st_try_def split: prod.splits)

lemma fs_read_contents: "fs_read env p s = (Inr bs, s') \<Longrightarrow> contents s p = Some bs \<and> files s' = files s"
  by (auto simp: fs_read_def syscall_def Let_def ok_or_eq_Inr split: option.splits if_splits)

lemma load_at_Inr:
  assumes "load_at env p s = (Inr c, s')"
  shows "\<exists>bs. contents s p = Some bs \<and> artifact_config env bs = Inr c \<and> files s' = files s"
proof -
  from assms obtain bs f where "fs_read (ae_io env) p s = (Inr bs, f)" "artifact_config env bs = Inr c" "s' = f"
    by (auto simp: load_at_def artifact_config_def st_success)
  with fs_read_contents show ?thesis by blast
qed

lemma write_atomic_Inr:
  assumes "hidden_path p \<noteq> p" "write_atomic env p bs s = (Inr u, s')"
  shows "contents s' p = Some bs"
proof -
  from assms(2) obtain f where "write_and_rename env (hidden_path p) p bs f = (Inr u, s')"
    by (auto simp: write_atomic_def st_success)
  from write_and_rename_atomic [OF assms(1) this] show ?thesis by auto
qed

lemma discard_Inl: "discard env p e s = (r, s') \<Longrightarrow> r = Inl e"
  by (auto simp: discard_def st_bind_def st_try_def st_err_def split: prod.splits)

lemma build_state_config: "build_state env c = Inr st \<Longrightarrow> rs_config st = c"
  by (auto simp: build_state_def map_err_eq_Inr from_config_def Let_def and_then_eq_Inr)

definition update_ok ::
  "('v, 'cert, 'key, 'id, 'root) agent_env \<Rightarrow> RuntimeConfig \<Rightarrow> string \<Rightarrow> bytes \<Rightarrow> RuntimeConfig \<Rightarrow> bool" where
  "update_ok env current etag bs c \<longleftrightarrow> checksum_for_bytes (ae_sha env) bs = etag
     \<and> (\<exists>v. verify_owned (ae_sha env) (ae_rkyv env) bs = Inr v) \<and> artifact_config env bs = Inr c
     \<and> ensure_runtime_reload_safe (ae_escape env) current c = Inr ()
     \<and> validate_runtime_env (ae_readable env) (ae_bindable env) c (Some current) = Inr ()
     \<and> (\<exists>st. build_state env c = Inr st)"

lemma verify_update_Inr:
  assumes "lkg \<noteq> []" "verify_update env lkg bs etag version n s = (Inr u, s')"
  shows "u = \<lparr>vu_etag = etag, vu_version = version, vu_size = n, vu_tmp_path = path_text (tmp_path_for lkg)\<rparr>
    \<and> contents (ag_fs s') (tmp_path_for lkg) = Some bs \<and> (\<exists>c. update_ok env (rs_config (ag_runtime s)) etag bs c)"
proof -
  let ?tmp = "tmp_path_for lkg"
  from assms(2) have etag: "checksum_for_bytes (ae_sha env) bs = etag"
    by (auto simp: verify_update_def Let_def st_err_def split: if_splits)
  with assms(2) obtain v s1 loaded s2 where v: "verify_owned (ae_sha env) (ae_rkyv env) bs = Inr v"
    and w: "on_files (st_map_err Storage_Failed (write_atomic (ae_io env) ?tmp bs)) s = (Inr (), s1)"
    and l: "on_files (load_at env ?tmp) s1 = (loaded, s2)"
    and rest: "(case loaded of
            Inl e \<Rightarrow> discard env ?tmp (Pvs_Failed e)
          | Inr config \<Rightarrow>
              st_bind runtime_load (\<lambda>current.
              st_bind (st_result (map_err Reload_Unsafe (ensure_runtime_reload_safe (ae_escape env) (rs_config current) config))) (\<lambda>_.
                case validate_runtime_env (ae_readable env) (ae_bindable env) config (Some (rs_config current)) of
                  Inl e \<Rightarrow> discard env ?tmp (Env_Failed e)
                | Inr _ \<Rightarrow>
                    st_bind (st_result (build_state env config)) (\<lambda>_.
                      st_ok \<lparr>vu_etag = etag, vu_version = version, vu_size = n, vu_tmp_path = path_text ?tmp\<rparr>)))) s2 = (Inr u, s')"
    unfolding verify_update_def Let_def by (auto simp: st_success map_err_eq_Inr st_try_eq)
  from w tmp_path_distinct(3) [OF assms(1)] have c1: "contents (ag_fs s1) ?tmp = Some bs" "ag_runtime s1 = ag_runtime s"
    by (auto simp: on_files_eq st_success dest: write_atomic_Inr)
  from rest obtain config where config: "loaded = Inr config"
    by (cases loaded) (auto dest: discard_Inl)
  with l c1 have s2: "artifact_config env bs = Inr config" "contents (ag_fs s2) ?tmp = Some bs" "ag_runtime s2 = ag_runtime s"
    by (auto simp: on_files_eq dest!: load_at_Inr)
  from rest obtain st where "ensure_runtime_reload_safe (ae_escape env) (rs_config (ag_runtime s)) config = Inr ()"
    "validate_runtime_env (ae_readable env) (ae_bindable env) config (Some (rs_config (ag_runtime s))) = Inr ()"
    "build_state env config = Inr st" "s' = s2"
    "u = \<lparr>vu_etag = etag, vu_version = version, vu_size = n, vu_tmp_path = path_text ?tmp\<rparr>"
    by (auto simp: config st_success runtime_load_def s2(3) map_err_eq_Inr dest: discard_Inl split: sum.splits)
  with etag v s2 show ?thesis by (auto simp: update_ok_def)
qed

lemma fs_rename_outcome:
  "fs_rename env a b f = (r, f') \<Longrightarrow>
     (\<exists>e. r = Inl e) \<and> files f' = files f \<or> r = Inr () \<and> contents f a \<noteq> None \<and> contents f' b = contents f a"
  by (auto simp: fs_rename_def syscall_def Let_def update_conv' split: option.splits if_splits)

lemma run_callback_outcome:
  assumes "run_callback env lkg s = (r, s')"
  shows "ag_runtime s' = ag_runtime s \<and> contents (ag_fs s') lkg = contents (ag_fs s) lkg \<and> (r = Inr () \<or> ae_callback env \<and> (\<exists>e. r = Inl e))"
proof -
  have "st_keeps (\<lambda>a. ag_runtime a = ag_runtime s \<and> contents (ag_fs a) lkg = contents (ag_fs s) lkg) (run_callback env lkg)"
    unfolding run_callback_def by (intro keeps)
  moreover have "r = Inr () \<or> ae_callback env \<and> (\<exists>e. r = Inl e)"
    using assms by (cases r) (auto simp: run_callback_def st_ok_def split: if_splits)
  ultimately show ?thesis using st_keepsD assms by (metis (mono_tags, lifting))
qed

text \<open>The last part of \<open>apply_update\<close>, once the configuration has been loaded and its state built.\<close>

lemma install_outcome:
  assumes "st_bind (on_files (st_map_err (Storage_Failed \<circ> IoFailed) (fs_rename (ae_io env) tmp lkg))) (\<lambda>_.
      st_bind (runtime_store st) (\<lambda>_. st_bind (run_callback env lkg) (\<lambda>_. st_ok x))) s = (r, s')"
  shows "ag_runtime s' = ag_runtime s \<and> contents (ag_fs s') lkg = contents (ag_fs s) lkg \<and> (\<exists>e. r = Inl e)
    \<or> ag_runtime s' = st \<and> contents (ag_fs s') lkg = contents (ag_fs s) tmp \<and> (r = Inr x \<or> ae_callback env \<and> (\<exists>e. r = Inl e))"
proof -
  obtain y f where y: "fs_rename (ae_io env) tmp lkg (ag_fs s) = (y, f)" by fastforce
  show ?thesis
  proof (cases y)
    case (Inl e)
    with assms y fs_rename_outcome [OF y] show ?thesis
      by (auto simp: st_bind_def on_files_def st_map_err_def)
  next
    case (Inr w)
    let ?s2 = "s\<lparr>ag_fs := f, ag_runtime := st\<rparr>"
    obtain z s3 where z: "run_callback env lkg ?s2 = (z, s3)" by fastforce
    from Inr assms y z have "(r, s') = (case z of Inl e \<Rightarrow> (Inl e, s3) | Inr _ \<Rightarrow> (Inr x, s3))"
      by (cases z) (simp_all add: st_bind_def on_files_def st_map_err_def runtime_store_def st_ok_def)
    with run_callback_outcome [OF z] fs_rename_outcome [OF y] Inr show ?thesis by (cases z) auto
  qed
qed

lemma apply_update_outcome:
  assumes "path_components (vu_tmp_path u) \<noteq> lkg" "apply_update env lkg u s = (r, s')"
  shows "ag_runtime s' = ag_runtime s \<and> contents (ag_fs s') lkg = contents (ag_fs s) lkg \<and> (\<exists>e. r = Inl e)
    \<or> (\<exists>bs c st. contents (ag_fs s) (path_components (vu_tmp_path u)) = Some bs \<and> artifact_config env bs = Inr c
        \<and> build_state env c = Inr st \<and> ag_runtime s' = st\<lparr>rs_config_version := vu_version u\<rparr> \<and> contents (ag_fs s') lkg = Some bs
        \<and> (r = Inr (vu_etag u, vu_version u) \<or> ae_callback env \<and> (\<exists>e. r = Inl e)))"
proof -
  let ?tmp = "path_components (vu_tmp_path u)"
  obtain loaded s1 where l: "on_files (load_at env ?tmp) s = (loaded, s1)" by fastforce
  have s1: "ag_runtime s1 = ag_runtime s" "contents (ag_fs s1) lkg = contents (ag_fs s) lkg"
    using st_keepsD [OF keeps_on_files [OF keeps_load_at] _ l, of "ag_runtime s" lkg "contents (ag_fs s) lkg"] by simp_all
  show ?thesis
  proof (cases loaded)
    case (Inl e)
    with assms(2) l have d: "discard env ?tmp (Pvs_Failed e) s1 = (r, s')"
      by (simp add: apply_update_def Let_def st_bind_def st_try_def)
    with st_keepsD [OF keeps_discard [OF assms(1)] _ d, of "ag_runtime s" "contents (ag_fs s) lkg"] s1 discard_Inl [OF d]
    show ?thesis by simp
  next
    case (Inr c)
    with l obtain bs where bs: "contents (ag_fs s) ?tmp = Some bs" "artifact_config env bs = Inr c" "files (ag_fs s1) = files (ag_fs s)"
      by (auto simp: on_files_eq dest: load_at_Inr)
    show ?thesis
    proof (cases "build_state env c")
      case (Inl e)
      with assms(2) l Inr s1 show ?thesis
        by (auto simp: apply_update_def Let_def st_bind_def st_try_def st_result_def)
    next
      case built: (Inr st)
      with l Inr assms(2) have "st_bind (on_files (st_map_err (Storage_Failed \<circ> IoFailed) (fs_rename (ae_io env) ?tmp lkg))) (\<lambda>_.
          st_bind (runtime_store (st\<lparr>rs_config_version := vu_version u\<rparr>)) (\<lambda>_. st_bind (run_callback env lkg)
            (\<lambda>_. st_ok (vu_etag u, vu_version u)))) s1 = (r, s')"
        by (simp add: apply_update_def Let_def st_bind_def [of "st_try _"] st_bind_def [of "st_result _"] st_try_def st_result_def)
      from install_outcome [OF this] s1 bs built show ?thesis by auto
    qed
  qed
qed

lemma tmp_path_text:
  assumes "plain_path lkg"
  shows "path_components (path_text (tmp_path_for lkg)) = tmp_path_for lkg"
proof -
  have "set (file_stem n) \<subseteq> set n" for n
    by (rule file_stem_cases [of n]) (auto, metis Un_iff set_append)
  with assms have "list_all (\<lambda>c. c \<noteq> [] \<and> CHR ''/'' \<notin> set c) (tmp_path_for lkg)"
    by (auto simp: plain_path_def tmp_path_for_def set_extension_def list_all_iff dest: in_set_butlastD last_in_set)
  then show ?thesis by (rule components_of_text)
qed

lemma bootstrap_Inr:
  assumes "bootstrap_from_lkg env lkg s = (Inr (Some etag), s')"
  shows "\<exists>bs c st. contents (ag_fs s) lkg = Some bs \<and> etag = checksum_for_bytes (ae_sha env) bs \<and> artifact_config env bs = Inr c
    \<and> validate_runtime_env (ae_readable env) (ae_bindable env) c (Some (rs_config (ag_runtime s))) = Inr ()
    \<and> build_state env c = Inr st \<and> ag_runtime s' = st\<lparr>rs_config_version := rs_config_version (ag_runtime s)\<rparr>"
proof -
  from assms obtain bs f1 c f2 v f3 st where r: "fs_read (ae_io env) lkg (ag_fs s) = (Inr bs, f1)"
    and l: "load_at env lkg f1 = (Inr c, f2)" and "lkg_version (ae_io env) lkg f2 = (Inr v :: agent_error + u64, f3)"
    and "etag = checksum_for_bytes (ae_sha env) bs"
      "validate_runtime_env (ae_readable env) (ae_bindable env) c (Some (rs_config (ag_runtime s))) = Inr ()" "build_state env c = Inr st"
      "ag_runtime s' = st\<lparr>rs_config_version := rs_config_version (ag_runtime s)\<rparr>"
    by (auto simp: bootstrap_from_lkg_def st_success on_files_eq runtime_load_def runtime_store_def map_err_eq_Inr split: if_splits)
  moreover from fs_read_contents [OF r] load_at_Inr [OF l] have "contents (ag_fs s) lkg = Some bs" "artifact_config env bs = Inr c"
    by auto
  ultimately show ?thesis by blast
qed

lemma update_installed:
  assumes "plain_path lkg" "verify_update env lkg bs etag version n s = (Inr u, s1)" "apply_update env lkg u s1 = (r, s2)"
  shows "ag_runtime s2 = ag_runtime s1 \<and> contents (ag_fs s2) lkg = contents (ag_fs s1) lkg \<and> (\<exists>e. r = Inl e)
    \<or> (\<exists>c. update_ok env (rs_config (ag_runtime s)) etag bs c \<and> rs_config (ag_runtime s2) = c \<and> rs_config_version (ag_runtime s2) = version
        \<and> contents (ag_fs s2) lkg = Some bs \<and> (r = Inr (etag, version) \<or> ae_callback env \<and> (\<exists>e. r = Inl e)))"
proof -
  from assms(1) have lkg: "lkg \<noteq> []" by (simp add: plain_path_def)
  from verify_update_Inr [OF lkg assms(2)] obtain c where u: "u = \<lparr>vu_etag = etag, vu_version = version, vu_size = n,
      vu_tmp_path = path_text (tmp_path_for lkg)\<rparr>" "contents (ag_fs s1) (tmp_path_for lkg) = Some bs"
      "update_ok env (rs_config (ag_runtime s)) etag bs c" by blast
  then have tmp: "path_components (vu_tmp_path u) = tmp_path_for lkg" by (simp add: tmp_path_text [OF assms(1)])
  with apply_update_outcome [OF _ assms(3)] tmp_path_distinct(1) [OF lkg] u show ?thesis
    by (auto simp: update_ok_def dest: build_state_config)
qed

text \<open>Two environments that hash and decode artifacts alike.\<close>

definition same_artifacts ::
  "('v, 'cert, 'key, 'id, 'root) agent_env \<Rightarrow> ('v, 'cert, 'key, 'id, 'root) agent_env \<Rightarrow> bool" where
  "same_artifacts env' env \<longleftrightarrow> ae_sha env' = ae_sha env \<and> ae_rkyv env' = ae_rkyv env \<and> ae_chunks env' = ae_chunks env"

lemma bootstrap_serves:
  assumes "same_artifacts env' env" "bootstrap_from_lkg env' lkg s3 = (Inr (Some e), s4)" "ag_fs s3 = f"
    and "contents f lkg = Some bs" "update_ok env current etag bs c"
  shows "e = etag \<and> rs_config (ag_runtime s4) = c"
proof -
  have "artifact_config env' bs = artifact_config env bs" using assms(1) by (simp add: artifact_config_def same_artifacts_def)
  with bootstrap_Inr [OF assms(2)] assms build_state_config show ?thesis by (fastforce simp: update_ok_def same_artifacts_def)
qed

lemma trim_to_dec [simp]: "trim (to_dec n) = to_dec n"
proof -
  have digit: "\<not> is_ascii_whitespace c" if "is_ascii_digit c" for c
    using that by (auto simp: is_ascii_digit_def is_ascii_whitespace_def)
  have keep: "dropWhile is_ascii_whitespace s = s" if "list_all is_ascii_digit s" for s
    using that digit by (cases s) auto
  have "dropWhile is_ascii_whitespace (to_dec n) = to_dec n" "dropWhile is_ascii_whitespace (rev (to_dec n)) = rev (to_dec n)"
    using to_dec_digits [of n] by (auto intro!: keep simp: list_all_iff)
  then show ?thesis by (simp add: trim_def)
qed

lemma parse_relay_etag:
  assumes "length (sha256 bs) = 32"
  shows "parse_etag_header (quote_etag (checksum_for_bytes sha256 bs)) = Inr (checksum_for_bytes sha256 bs)"
  unfolding parse_etag_header_def trim_quoted
  using assms by (auto simp: quote_etag_def quote_def checksum_for_bytes_def to_hex_lowercase list_all_iff to_hex_hexdigits Let_def suffix_def)

lemma version_from_header:
  "parse_config_version_header (to_dec (unat (v :: u64))) = (if v = 0 then None else Some v)"
proof -
  have "unat v < 2 ^ 64" using unsigned_less [of v, where ?'a = nat] by simp
  from parse_to_dec [OF this] show ?thesis by (simp add: parse_config_version_header_def unat_eq_zero)
qed

definition visible :: "char \<Rightarrow> bool" where
  "visible c \<longleftrightarrow> 32 \<le> (of_char c :: nat) \<and> (of_char c :: nat) < 127"

lemma visible_digit: "is_ascii_digit c \<Longrightarrow> visible c"
  by (simp add: visible_def is_ascii_digit_def Let_def)

lemma visible_hexdigit: "is_ascii_hexdigit c \<Longrightarrow> visible c"
  by (auto simp: visible_def is_ascii_hexdigit_def Let_def)

lemma header_text_visible: "map_of (headers r) n = Some v \<Longrightarrow> list_all visible v \<Longrightarrow> header_text r n = Some v"
  by (auto simp: header_text_def visible_def list_all_iff)

lemma visible_number: "list_all visible (to_dec n)"
  using to_dec_digits [of n] by (auto simp: list_all_iff intro: visible_digit)

lemma visible_etag: "list_all visible (quote_etag (checksum_for_bytes sha256 bs))"
  using to_hex_hexdigits [of _ "sha256 bs"]
  by (auto simp: quote_etag_def quote_def checksum_for_bytes_def list_all_iff intro: visible_hexdigit) (simp_all add: visible_def)

text \<open>
  An update that goes through: an artifact whose payload is decoded as a configuration with one upstream, for an agent that runs
  with the default configuration and has no file yet.
\<close>

definition demo_sha :: "bytes \<Rightarrow> bytes" where
  "demo_sha = (\<lambda>_. replicate 32 7)"

definition demo_artifact :: bytes where
  "demo_artifact = header_bytes (header_default\<lparr>hdr_checksum := replicate 32 7\<rparr>) @ [1]"

definition demo_env :: "(unit, unit, unit, unit, unit) agent_env" where
  "demo_env = \<lparr>ae_io = \<lparr>fault = \<lambda>_. None, torn = \<lambda>_. 0, now_at = \<lambda>_. 0\<rparr>, ae_sha = demo_sha,
     ae_rkyv = \<lparr>rkyv_to_bytes = \<lambda>_. Inr [1], rkyv_access = \<lambda>_. Inr (), rkyv_deserialize = \<lambda>_. Inr (upstream_config sample_upstream)\<rparr>,
     ae_chunks = \<lambda>bs. [drop HEADER_SIZE bs], ae_regex = literal_lib, ae_tls = plain_tls_lib, ae_resolve = one_address, ae_now = 0,
     ae_readable = \<lambda>_. True, ae_bindable = \<lambda>_. True, ae_escape = id, ae_callback = False\<rparr>"

definition demo_agent :: "(unit, unit, unit, unit) ClientIdentityMaterials agent" where
  "demo_agent = \<lparr>ag_fs = \<lparr>files = [], dirs = [[]], clock = 0\<rparr>, ag_runtime = state_default\<rparr>"

definition demo_lkg :: path where
  "demo_lkg = [''lkg.pvs'']"

definition demo_update :: verified_update where
  "demo_update = \<lparr>vu_etag = checksum_for_bytes demo_sha demo_artifact, vu_version = Some 7, vu_size = None, vu_tmp_path = ''/lkg.tmp.pvs''\<rparr>"

lemma demo_env_simps [simp]:
  "ae_sha demo_env = demo_sha" "fault (ae_io demo_env) t = None" "ae_callback demo_env = False" "ae_escape demo_env = id"
  "ae_readable demo_env = (\<lambda>_. True)" "ae_bindable demo_env = (\<lambda>_. True)"
  by (simp_all add: demo_env_def)

lemma demo_paths [simp]:
  "tmp_path_for demo_lkg = [''lkg.tmp.pvs'']" "path_components ''/lkg.tmp.pvs'' = [''lkg.tmp.pvs'']"
  "hidden_path [''lkg.tmp.pvs''] = [''.lkg.tmp.pvs.tmp'']" "path_text [''lkg.tmp.pvs''] = ''/lkg.tmp.pvs''" "plain_path demo_lkg"
  by (simp_all add: demo_lkg_def tmp_path_for_def set_extension_def file_stem_def Let_def path_components_def hidden_path_def
      path_text_def plain_path_def)

lemma demo_artifact_verifies:
  "verify_bytes demo_sha demo_artifact = Inr (header_default\<lparr>hdr_checksum := replicate 32 7\<rparr>, [1])"
  by (simp add: demo_artifact_def demo_sha_def verify_bytes_canonical MAX_PAYLOAD_SIZE_def)

lemma demo_verified_owned: "\<exists>v. verify_owned demo_sha (ae_rkyv demo_env) demo_artifact = Inr v"
  by (simp add: verify_owned_def demo_artifact_verifies demo_env_def)

lemma demo_artifact_config: "artifact_config demo_env demo_artifact = Inr (upstream_config sample_upstream)"
proof -
  have len: "length demo_artifact = HEADER_SIZE + 1"
    by (simp add: demo_artifact_def length_header_bytes header_wf_default)
  have "read_verified_file demo_sha (Inr (quiet_file demo_artifact [drop HEADER_SIZE demo_artifact]))
    = and_then (verify_bytes demo_sha demo_artifact) (\<lambda>(h, p). Inr (h, demo_artifact))"
    by (rule quiet_file_stream) (simp_all add: len HEADER_SIZE_def)
  then show ?thesis by (simp add: artifact_config_def load_def demo_artifact_verifies demo_env_def)
qed

lemma demo_reads:
  "clock f = t \<Longrightarrow> contents f p = Some demo_artifact \<Longrightarrow> p \<notin> set (dirs f) \<Longrightarrow>
     load_at demo_env p f = (Inr (upstream_config sample_upstream), f\<lparr>clock := t + 1\<rparr>)"
  using demo_artifact_config
  by (simp add: load_at_def artifact_config_def st_bind_def st_map_err_def fs_read_def syscall_def Let_def st_result_def)

lemma demo_writes:
  "write_atomic (ae_io demo_env) [''lkg.tmp.pvs''] demo_artifact (ag_fs demo_agent)
   = (Inr (), \<lparr>files = [([''lkg.tmp.pvs''], demo_artifact)], dirs = [[], []], clock = 5\<rparr>)"
  by (simp add: write_atomic_def write_and_rename_def demo_agent_def st_bind_def st_map_err_def create_dir_all_def file_create_def
      write_all_def sync_all_def fs_rename_def syscall_def)

lemma demo_builds: "build_state demo_env (upstream_config sample_upstream) = Inr (upstream_state sample_upstream (u_endpoints sample_upstream))"
  using listed_state by (simp add: build_state_def demo_env_def)

lemma demo_environment:
  "ensure_runtime_reload_safe id default_config (upstream_config sample_upstream) = Inr ()"
  "validate_runtime_env (\<lambda>_. True) (\<lambda>_. True) (upstream_config sample_upstream) (Some default_config) = Inr ()"
  by (simp_all add: ensure_runtime_reload_safe_def upstream_config_def default_config_def listener_fingerprint_def validate_runtime_env_def
      validate_tls_files_def validate_listener_files_def validate_upstream_tls_files_def validate_one_upstream_files_def
      validate_ports_def check_port_def fail_if_def sample_upstream_def)

definition demo_verified_fs :: fs where
  "demo_verified_fs = \<lparr>files = [([''lkg.tmp.pvs''], demo_artifact)], dirs = [[], []], clock = 6\<rparr>"

lemma demo_verify:
  "verify_update demo_env demo_lkg demo_artifact (checksum_for_bytes demo_sha demo_artifact) (Some 7) None demo_agent
   = (Inr demo_update, demo_agent\<lparr>ag_fs := demo_verified_fs\<rparr>)"
proof -
  obtain v where v: "verify_owned demo_sha (ae_rkyv demo_env) demo_artifact = Inr v" using demo_verified_owned by blast
  have rt: "rs_config (ag_runtime demo_agent) = default_config" by (simp add: demo_agent_def state_default_def)
  show ?thesis
    by (simp add: verify_update_def Let_def v st_bind_def st_result_def st_try_def on_files_def st_map_err_def demo_writes demo_reads runtime_load_def
        rt demo_environment demo_builds st_ok_def demo_update_def demo_verified_fs_def)
qed

definition demo_applied :: "(unit, unit, unit, unit) ClientIdentityMaterials agent" where
  "demo_applied = \<lparr>ag_fs = \<lparr>files = [(demo_lkg, demo_artifact)], dirs = [[], []], clock = 8\<rparr>,
     ag_runtime = (upstream_state sample_upstream (u_endpoints sample_upstream))\<lparr>rs_config_version := Some 7\<rparr>\<rparr>"

lemma demo_apply:
  "apply_update demo_env demo_lkg demo_update (demo_agent\<lparr>ag_fs := demo_verified_fs\<rparr>)
   = (Inr (checksum_for_bytes demo_sha demo_artifact, Some 7), demo_applied)"
  by (simp add: apply_update_def Let_def demo_update_def st_bind_def st_result_def st_try_def on_files_def st_map_err_def demo_verified_fs_def
      demo_reads demo_builds fs_rename_def syscall_def demo_lkg_def runtime_store_def run_callback_def st_ok_def demo_applied_def)

lemma demo_bootstrap:
  "\<exists>s. bootstrap_from_lkg demo_env demo_lkg (demo_agent\<lparr>ag_fs := ag_fs demo_applied\<rparr>)
     = (Inr (Some (checksum_for_bytes demo_sha demo_artifact)), s)"
proof -
  obtain v where v: "verify_owned demo_sha (ae_rkyv demo_env) demo_artifact = Inr v" using demo_verified_owned by blast
  have rt: "rs_config (ag_runtime demo_agent) = default_config" by (simp add: demo_agent_def state_default_def)
  show ?thesis
    by (auto simp: bootstrap_from_lkg_def demo_applied_def path_exists_def demo_lkg_def st_bind_def on_files_def st_map_err_def fs_read_def
        syscall_def Let_def st_result_def v demo_reads lkg_version_def read_lkg_version_def st_try_def st_ok_def runtime_load_def rt
        demo_environment demo_builds runtime_store_def version_path_for_def set_extension_def file_stem_def)
qed

section \<open>Properties\<close>



text \<open>
  The agent and the relay understand each other. What the relay sends for an artifact it holds is read by the agent as a new artifact
  with exactly those bytes, their size, the hash as etag and the relay's version (none for zero); the relay's 204 and 304 are read as no
  update and its 503 as a transient failure; and the condition the agent sends for that etag is accepted by the relay as that etag.
\<close>

theorem agent_reads_relay_answer:
  assumes "has_checksum sha256 snap" "bs = art_bytes (snap_artifact snap)" "length (sha256 bs) = 32" "length bs < 2 ^ 64"
  shows "fetch_once now (Inr (build_200_response snap (snapshot_etag snap))) True
      = Inr (Response (NewArtifact (checksum_for_bytes sha256 bs) (if snap_version snap = 0 then None else Some (snap_version snap))
          (Some (of_nat (length bs))) bs) now)
    \<and> fetch_once now (Inr (build_204_response e)) True = Inr (Response NoUpdate now)
    \<and> fetch_once now (Inr (build_304_response e)) True = Inr (Response NoUpdate now)
    \<and> fetch_once now (Inr build_503_response) True = Inr (Response TransientUnavailable now)
    \<and> parse_if_none_match (request_if_none_match (Some (checksum_for_bytes sha256 bs))) = Some (checksum_for_bytes sha256 bs)"
proof -
  let ?r = "build_200_response snap (checksum_for_bytes sha256 bs)"
  have etag: "snapshot_etag snap = checksum_for_bytes sha256 bs"
    using assms(1,2) by (simp add: snapshot_etag_def has_checksum_def etag_of_checksum)
  have "header_text ?r ''etag'' = Some (quote_etag (checksum_for_bytes sha256 bs))"
    by (rule header_text_visible) (simp_all add: build_200_response_def visible_etag)
  moreover have "header_text ?r ''x-config-version'' = Some (to_dec (unat (snap_version snap)))"
    by (rule header_text_visible) (simp_all add: build_200_response_def visible_number)
  moreover have "header_text ?r ''x-config-size'' = Some (to_dec (length bs))"
    by (rule header_text_visible) (simp_all add: build_200_response_def visible_number assms(2))
  moreover have "status ?r = 200" "body ?r = bs" by (simp_all add: build_200_response_def assms(2))
  ultimately have "fetch_once now (Inr ?r) True = Inr (Response (NewArtifact (checksum_for_bytes sha256 bs)
      (if snap_version snap = 0 then None else Some (snap_version snap)) (Some (of_nat (length bs))) bs) now)"
    using assms(4) by (simp add: fetch_once_def fail_if_def parse_relay_etag [of sha256, OF assms(3)] version_from_header parse_to_dec)
  with parse_own_etag [of sha256, OF assms(3)] show ?thesis
    by (simp add: etag fetch_once_def build_204_response_def build_304_response_def build_503_response_def request_if_none_match_def)
qed

theorem agent_reads_relay_answer_witness:
  "fetch_once 5 (Inr (build_200_response (inner (ps_relay sample_poll)) sample_etag)) True
   = Inr (Response (NewArtifact sample_etag (Some 7) (Some (of_nat (length sample_artifact))) sample_artifact) 5)"
proof -
  have "sample_artifact = art_bytes (snap_artifact (inner (ps_relay sample_poll)))"
    by (simp add: sample_poll_def sample_relay_def Let_def)
  moreover have "length (length_sha sample_artifact) = 32" "length sample_artifact < 2 ^ 64"
    by (simp_all add: length_sha_def sample_artifact_def length_header_bytes header_wf_def header_default_def HEADER_SIZE_def PAVIS_MAGIC_def)
  ultimately show ?thesis
    using agent_reads_relay_answer [OF sample_poll_facts(4), of sample_artifact 5] by (simp add: sample_poll_facts sample_etag_def)
qed

end
