(* ===== verification/Spec2Isabelle.thy ===== *)
theory Spec2Isabelle
  imports Agent_Driver Pvs Core_Predicate Core_Validate Router Retry Load_Balance Cluster Pool
    Relay_Handlers Relay_Pipeline Proxy_Service Serde_Config Serde_Predicates
    Health_Monitor Agent_Apply
begin

text \<open>
  \<^bold>\<open>Pavis\<close> is a reverse proxy and its control plane. An \<^emph>\<open>ingest\<close> watches configuration documents, a
  \<^emph>\<open>codec\<close> turns them into a runtime configuration, \<open>validate_runtime\<close> accepts or rejects it, the
  \<^emph>\<open>relay\<close> encodes it as a PVS artifact, stores it and serves it over HTTP, and the \<^emph>\<open>agent\<close> inside each
  proxy fetches, verifies and applies artifacts. The proxy routes each request with the
  compiled configuration, plans it, selects an endpoint and retries. This development models these parts
  from the Rust sources under src/crates and proves what makes them correct.

  \<^bold>\<open>Theories and sources\<close> (paths under src/crates)
  \<^item> \<open>Prelude\<close>: machine integers, results, strings, time, loops with early return and the
    monad of stateful code that may fail, with their lemma collections.
  \<^item> \<open>Agent_Fsm\<close>: pavis/src/agent/fsm.rs. State machine of the agent: context, events, effects, \<open>tick\<close>.
  \<^item> \<open>Agent_Driver\<close>: pavis/src/agent/driver.rs. The event loop that executes the machine's effects, as a
    step relation.
  \<^item> \<open>Agent_Apply\<close>: pavis/src/agent/driver.rs, agent/lkg.rs. What the effects do: fetching, verification, application, and the
    start from the last known good file.
  \<^item> \<open>Runtime_Env\<close>: pavis/src/validate\_env.rs, pavis-core/src/runtime/reload.rs. Files, ports and the reload boundary.
  \<^item> \<open>Runtime_State\<close>: pavis/src/state.rs, upstream.rs, upstream/client\_identity.rs, upstream/resolver.rs. The materialised
    configuration, the clusters' client identities and the resolver, as a step relation with reloads.
  \<^item> \<open>Health_Monitor\<close>: pavis/src/upstream/health.rs. Plans and clients of the active health checks, their scheduler, the probes.
  \<^item> \<open>Pvs\<close>: pavis-pvs. Header, encoding, verification in memory and streamed, write and load.
  \<^item> \<open>Core_Types\<close>, \<open>Core_Predicate\<close>, \<open>Core_Validate\<close>: pavis-core. The runtime configuration and its builders,
    predicate normalisation, validation with its regex cache.
  \<^item> \<open>Regex_Validator\<close>, \<open>Router\<close>: pavis/src/regex\_validator.rs, router.rs, router/matcher.rs.
  \<^item> \<open>Retry\<close>: pavis/src/retry.rs. Body budget, retry context, backoff.
  \<^item> \<open>Load_Balance\<close>, \<open>Cluster\<close>, \<open>Pool\<close>: pavis/src/upstream. Weighted selection, endpoint health and
    ejection, pool limiter and circuit breaker.
  \<^item> \<open>Header_Ops\<close>, \<open>Request_Plan\<close>, \<open>Proxy_Service\<close>: pavis/src/proxy. Header policies; request identifiers, identities,
    authorisation, rewrites, timeouts, server names, reuse keys; the context of a request and the callbacks that change it.
  \<^item> \<open>Relay_Config\<close>, \<open>Relay_Storage\<close>, \<open>Relay_Runtime\<close>, \<open>Relay_Handlers\<close>, \<open>Relay_Pipeline\<close>: pavis-relay with the
    interfaces pavis-codec-api and pavis-ingest-api.
  \<^item> \<open>Net_Addr\<close>, \<open>Serde_Types\<close>, \<open>Serde_Routes\<close>, \<open>Serde_Upstreams\<close>, \<open>Serde_Config\<close>, \<open>Serde_Predicates\<close>:
    pavis-codec-serde with the address syntax of the standard library. The document types, the conversion of documents to
    configurations and back, the checks of a document, the codec.

  \<^bold>\<open>State and operations.\<close> A struct is a record, an enum a datatype, an operation a function that returns the
  updated state. What the program does concurrently is a step relation whose steps are the atomic actions: the
  driver loop, the body budget, the pool and the breaker, reloads and the resolver, the long poll, the pipeline loop. A fallible
  operation returns a sum with the error on the left. Code outside the repository is a parameter: SHA-256, rkyv, the
  regex crate, JSON and YAML, Unicode tables, header syntax, OpenSSL, name resolution, HTTP clients, the clock, random draws, the file system's faults.

  \<^bold>\<open>What is shown.\<close> The functional contracts (\<open>validate_runtime\<close>, \<open>verify_bytes\<close>, weighted selection, ejection),
  equivalences (streamed and in-memory verification, normalisation and meaning, cache transparency), the
  refinement of the compiled router to the first matching route, round trips (artifacts, ETags, history
  names, addresses, documents and compiled configurations), invariants of the step relations under every interleaving, bounds of delays and
  attempts, error behaviour (a failed publication changes nothing that is served, an update of the proxy is all or nothing), termination of the
  retry loop, and the composition: an accepted configuration is routable, and the pipeline publishes only accepted ones,
  a request reaches an upstream only over an authorised route, what an agent installs is the artifact it fetched and checked and a restart
  keeps it, the agent reads the relay's answers as they are meant, and a selected endpoint is always an address.
  Some theorems prove a defect: a lost wake-up, a leaked place in a queue, a fetch that survives the shutdown,
  a server name that is never set, a bound checked after a truncation, a resolution stored in another configuration's cluster.

  \<^bold>\<open>Interfaces.\<close> Locales state what a client may rely on and are interpreted on the model: the pair store of
  artifact and metadata (\<open>Relay_Storage\<close>, for the LKG and for the history), the health operations that leave a cluster's endpoints
  alone (\<open>Runtime_State\<close>), and those of the component theories.

  \<^bold>\<open>Bounds and fuel.\<close> No definition has fuel. Loops are structural, have a termination measure, or are
  partial functions with a theorem that they return. Instants are unbounded; counters, versions and weights have their
  widths and wrap or saturate as in the code. A Unicode string is the list of its bytes.

  \<^bold>\<open>Not modelled.\<close> Telemetry output, TLS and sockets, the Pingora framework, the file watcher, process start-up and command
  lines are I/O or calls into libraries.
\<close>

section \<open>From an accepted configuration to a request\<close>

lemma first_match_in:
  "first_match lib cache limits req vs = Some (v, r) \<Longrightarrow> v \<in> set vs \<and> r \<in> set (vh_paths v)"
proof (induction vs)
  case (Cons w vs)
  then show ?case
    by (auto simp: first_route_def find_Some_iff split: option.splits)
qed simp

lemma first_match_candidates_in:
  "first_match lib cache limits req (candidates vs host) = Some (v, r) \<Longrightarrow> v \<in> set vs \<and> r \<in> set (vh_paths v)"
  using first_match_in [of lib cache limits req "candidates vs host" v r] by (auto simp: candidates_def)

text \<open>
  C19: a configuration that passed \<open>validate_runtime\<close> can be served. When the regex library the
  router uses compiles the patterns the validator's does, the router is built without error, and
  whatever request arrives, a route it selects is a route of the configuration; if that route
  forwards, it has a destination, and each of its destinations is the name of exactly one upstream.
\<close>

theorem accepted_config_is_routable:
  assumes "externs_ok ext" "cache_sound ext cache" "fst (validate_runtime ext cache config) = Inr c"
    and "\<And>p. regex_compile ext p = Inr () \<Longrightarrow> is_ok (re_new lib p)"
  shows "\<exists>router. with_regex lib (routes c) rc limits = Inr router \<and>
    (\<forall>req v r. selection (match_request router req) = Some (v, r) \<longrightarrow>
       v \<in> set (routes c) \<and> r \<in> set (vh_paths v) \<and>
       (\<forall>dests. r_action r = Action_Forward dests \<longrightarrow> dests \<noteq> [] \<and>
          (\<forall>d\<in>set dests. \<exists>!i. i < length (upstreams c) \<and> u_name (upstreams c ! i) = dest_upstream d)))"
proof -
  have ok: "config_ok ext c" using validate_runtime_ok_iff [OF assms(1,2)] assms(3) by simp
  then have "\<forall>v\<in>set (routes c). \<forall>r\<in>set (vh_paths v). \<forall>p. rm_path (r_matcher r) = Path_Regex p
      \<longrightarrow> is_ok (re_new lib p)"
    using config_ok_regex [OF ok] assms(4) by blast
  then obtain router where router: "with_regex lib (routes c) rc limits = Inr router"
    using with_regex_ok_iff by blast
  have hosts: "distinct (map vh_host (routes c))" using ok by (simp add: config_ok_def)
  have "v \<in> set (routes c) \<and> r \<in> set (vh_paths v)" if "selection (match_request router req) = Some (v, r)" for req v r
    using that match_request_candidates [OF router hosts, of req] first_match_candidates_in by metis
  with router config_ok_destination [OF ok] show ?thesis by blast
qed

theorem accepted_config_is_routable_witness:
  "\<exists>router. with_regex literal_lib (routes sample_config) Map.empty regex_limits_default = Inr router"
  using accepted_config_is_routable [OF sample_externs_ok, of sample_config sample_config literal_lib
      Map.empty regex_limits_default]
    validate_runtime_ok_iff [OF sample_externs_ok] sample_config_ok
  by (auto simp: literal_lib_def)

end
